theory Spec2Isabelle
  imports Main "HOL-Library.Word" "HOL-Library.Signed_Division" "HOL-Library.Sublist"
    "HOL-Library.AList"
begin

unbundle bit_operations_syntax

section \<open>Common conventions\<close>

text \<open>
  The C++ type \<open>int\<close> is a 32-bit two's-complement integer, modelled as \<open>32 word\<close>
  wherever the source does arithmetic or bit operations on it: \<open>+\<close>, \<open>-\<close> and \<open>*\<close>
  wrap, \<open>\<le>s\<close> and \<open><s\<close> are the signed comparisons, \<open>>>\<close> on a signed value is the
  arithmetic shift \<open>signed_drop_bit\<close>, \<open><<\<close> is \<open>push_bit\<close>. \<open>uint32_t\<close> is the same
  type read unsigned.

  Exceptions and undefined behaviour are values of the type \<open>error\<close>; a function that can
  raise returns \<open>error + 'a\<close> with \<open>Inl\<close> for the error.
\<close>

type_synonym int32 = "32 word"

datatype error =
    Invalid_argument    \<comment> \<open>\<open>std::invalid_argument\<close> thrown by \<open>std::stoi\<close>/\<open>std::stoul\<close>\<close>
  | Out_of_range        \<comment> \<open>\<open>std::out_of_range\<close> thrown by \<open>std::stoi\<close> or \<open>substr\<close>\<close>
  | Division_by_zero    \<comment> \<open>integer division or remainder by zero (undefined behaviour)\<close>
  | Index_out_of_bounds \<comment> \<open>\<open>operator[]\<close> of a vector outside its size (undefined behaviour)\<close>
  | Division_overflow   \<comment> \<open>\<open>INT_MIN / -1\<close>, whose quotient is no \<open>int\<close> (undefined behaviour)\<close>

text \<open>Sequencing: the first error ends the computation, as a thrown exception does.\<close>

definition bind_err :: "error + 'a \<Rightarrow> ('a \<Rightarrow> error + 'b) \<Rightarrow> error + 'b" where
  "bind_err r f = (case r of Inl e \<Rightarrow> Inl e | Inr x \<Rightarrow> f x)"

fun collect_err :: "('a \<Rightarrow> error + 'b list) \<Rightarrow> 'a list \<Rightarrow> error + 'b list" where
  "collect_err f [] = Inr []"
| "collect_err f (x # xs) =
     bind_err (f x) (\<lambda>ys. bind_err (collect_err f xs) (\<lambda>rest. Inr (ys @ rest)))"

text \<open>\<open>std::map::operator[]\<close> on an \<open>int\<close>-valued map yields 0 for an absent key.\<close>

definition lookup0 :: "(string \<rightharpoonup> int32) \<Rightarrow> string \<Rightarrow> int32" where
  "lookup0 m k = (case m k of None \<Rightarrow> 0 | Some v \<Rightarrow> v)"

subsection \<open>Decimal text: \<open>std::to_string\<close> and \<open>std::stoi\<close>\<close>

definition digit_char :: "nat \<Rightarrow> char" where
  "digit_char d = ''0123456789'' ! d"

function nat_to_string :: "nat \<Rightarrow> string" where
  "nat_to_string n =
     (if n < 10 then [digit_char n] else nat_to_string (n div 10) @ [digit_char (n mod 10)])"
  by pat_completeness auto
termination
  by (relation "measure id") auto

declare nat_to_string.simps [simp del]

definition to_string :: "int \<Rightarrow> string" where
  "to_string i = (if i < 0 then CHR ''-'' # nat_to_string (nat (- i)) else nat_to_string (nat i))"

definition is_digit :: "char \<Rightarrow> bool" where
  "is_digit c = (48 \<le> (of_char c :: nat) \<and> (of_char c :: nat) \<le> 57)"

definition digit_val :: "char \<Rightarrow> nat" where
  "digit_val c = of_char c - 48"

text \<open>The characters of \<open>" \\t\\n\\r\\f\\v"\<close>, which is also what \<open>isspace\<close> accepts.\<close>

definition is_space :: "char \<Rightarrow> bool" where
  "is_space c = (c \<in> set [CHR '' '', CHR 0x09, CHR 0x0A, CHR 0x0D, CHR 0x0C, CHR 0x0B])"

definition digits_value :: "string \<Rightarrow> nat" where
  "digits_value ds = foldl (\<lambda>acc c. 10 * acc + digit_val c) 0 ds"

text \<open>
  \<open>std::stoi(s)\<close> in base 10: leading white space is skipped, one sign is optional, the
  longest run of digits is converted and the rest of the string is ignored. No digit at all
  raises \<open>std::invalid_argument\<close>, a value outside \<open>int\<close> raises \<open>std::out_of_range\<close>.
\<close>

definition stoi :: "string \<Rightarrow> error + int" where
  "stoi s =
     (let t = dropWhile is_space s;
          neg = (t \<noteq> [] \<and> hd t = CHR ''-'');
          u = (if t \<noteq> [] \<and> (hd t = CHR ''-'' \<or> hd t = CHR ''+'') then tl t else t);
          ds = takeWhile is_digit u;
          v = (if neg then - int (digits_value ds) else int (digits_value ds))
      in if ds = [] then Inl Invalid_argument
         else if v < - (2 ^ 31) \<or> 2 ^ 31 - 1 < v then Inl Out_of_range
         else Inr v)"

section \<open>Stage 1: the generator (dfg\_processor.cpp)\<close>

subsection \<open>Data model (lines 15-47)\<close>

record HardwareLoop =
  loop_id :: int32
  pc_start :: int32
  pc_stop :: int32
  hwl_index :: int32
  iterations :: int32

text \<open>
  The fields of \<open>Instruction\<close> carry the prefix \<open>instr_\<close>, since names such as \<open>rd\<close>
  and \<open>imm\<close> are parameters of the assembler's functions below. The two
  \<open>std::map<std::string, int>\<close> fields are association lists holding the entries in the
  order in which the map iterates, that is, ascending by key.
\<close>

record Instruction =
  instr_operation :: string
  instr_ra1 :: string
  instr_ra2 :: string
  instr_rd :: string
  instr_base_address :: string
  instr_format :: string
  instr_coefficients :: "(string \<times> int32) list"
  instr_var :: "int32 option"
  instr_psrf_var :: "(string \<times> int32) list"
  instr_hwl :: "HardwareLoop option"
  instr_imm :: int32
  instr_target :: string
  instr_address :: int32
  instr_offset :: int32

record PEAssignment =
  pe_id :: int
  instructions :: "Instruction list"
  has_psrf_mem_type :: bool
  has_mem_type :: bool
  required_base_registers :: "string set"
  has_hwl :: bool

subsection \<open>Address planner (lines 66-97)\<close>

text \<open>
  \<open>getClusterNumber\<close>: \<open>pe_id / pes_per_cluster\<close>, truncating. A zero divisor is undefined,
  and so is the one quotient that does not fit, \<open>INT_MIN / -1\<close>.
\<close>

definition getClusterNumber :: "int32 \<Rightarrow> int32 \<Rightarrow> error + int32" where
  "getClusterNumber pes_per_cluster pe =
     (if pes_per_cluster = 0 then Inl Division_by_zero
      else if pe = 0x80000000 \<and> pes_per_cluster = - 1 then Inl Division_overflow
      else Inr (word_of_int (sint pe sdiv sint pes_per_cluster)))"

text \<open>
  \<open>calculateClusterBaseAddress\<close>; the members \<open>mem_config\<close> and \<open>mem_offsets\<close> are
  explicit parameters.
\<close>

definition calculateClusterBaseAddress ::
  "(string \<rightharpoonup> int32) \<Rightarrow> (string \<rightharpoonup> int32) \<Rightarrow> string \<Rightarrow> int32 \<Rightarrow> int32 \<Rightarrow> int32 \<Rightarrow> int32" where
  "calculateClusterBaseAddress mem_config mem_offsets reg cluster_num data_dup pe =
     (let base_addr = lookup0 mem_config reg;
          offset_key = reg @ ''_offset''
      in if mem_offsets offset_key \<noteq> None \<and> lookup0 mem_offsets offset_key \<noteq> 0 then
           if data_dup = 2 then
             if 15 <s pe then base_addr + lookup0 mem_offsets offset_key * cluster_num + 100000
             else base_addr + lookup0 mem_offsets offset_key * cluster_num
           else if data_dup = 4 then
             if 15 <s pe \<and> pe <s 31 then
               base_addr + lookup0 mem_offsets offset_key * cluster_num + 100000
             else if 31 <s pe \<and> pe <s 47 then
               base_addr + lookup0 mem_offsets offset_key * cluster_num + 200000
             else if 47 <s pe \<and> pe <s 63 then
               base_addr + lookup0 mem_offsets offset_key * cluster_num + 300000
             else base_addr + lookup0 mem_offsets offset_key * cluster_num
           else base_addr + lookup0 mem_offsets offset_key * cluster_num
         else base_addr)"

subsection \<open>Immediate codec (lines 100-125 and 491-508)\<close>

text \<open>\<open>calculateLuiAddiValues\<close>, the spec's \<open>splitImmediate\<close>.\<close>

definition calculateLuiAddiValues :: "int32 \<Rightarrow> int32 \<times> int32" where
  "calculateLuiAddiValues v =
     (if -2048 \<le>s v \<and> v \<le>s 2047 then (0, v)
      else
        let lower12 = v AND 0xFFF;
            upper20 = (if lower12 AND 0x800 \<noteq> 0
                       then (signed_drop_bit 12 v AND 0xFFFFF) + 1
                       else signed_drop_bit 12 v AND 0xFFFFF)
        in (upper20, lower12))"

text \<open>
  The sign extension of the 12-bit lower field, as both callers do it before printing
  (lines 140-143 and 377-380): \<open>if (addi_val & 0x800) addi_val = addi_val | 0xFFFFF000\<close>.
\<close>

definition signed12 :: "int32 \<Rightarrow> int32" where
  "signed12 addi_val = (if addi_val AND 0x800 \<noteq> 0 then addi_val OR 0xFFFFF000 else addi_val)"

text \<open>
  \<open>calculateHWLImmediate\<close>, the spec's \<open>packHardwareLoop\<close>. In the first field
  \<open>hwl.pc_start + delay & 0x1FF\<close> parses as \<open>(hwl.pc_start + delay) & 0x1FF\<close>, since
  \<open>+\<close> binds tighter than \<open>&\<close>; the second field is \<open>(hwl.pc_stop - hwl.pc_start) & 0x3F\<close>.
\<close>

definition calculateHWLImmediate :: "HardwareLoop \<Rightarrow> int32 \<Rightarrow> 32 word" where
  "calculateHWLImmediate h delay =
     (let imm0 = 0;
          imm1 = imm0 OR push_bit 23 ((pc_start h + delay) AND 0x1FF);
          imm2 = imm1 OR push_bit 17 ((pc_stop h - pc_start h) AND 0x3F);
          imm3 = imm2 OR push_bit 12 (hwl_index h AND 0x1F);
          imm4 = imm3 OR (iterations h AND 0xFFF)
      in imm4)"

text \<open>
  The packing as the specification words it, for comparison with the code: the span field
  is taken from \<open>adjusted_span = pc_stop - adjusted_start\<close>.
\<close>

definition packHardwareLoop_spec :: "HardwareLoop \<Rightarrow> int32 \<Rightarrow> 32 word" where
  "packHardwareLoop_spec h delayCycles =
     (let adjusted_start = pc_start h + delayCycles;
          adjusted_span = pc_stop h - adjusted_start
      in push_bit 23 (adjusted_start AND 0x1FF) OR push_bit 17 (adjusted_span AND 0x3F)
         OR push_bit 12 (hwl_index h AND 0x1F) OR (iterations h AND 0xFFF))"

subsection \<open>Preload section (lines 176-255)\<close>

text \<open>
  The lines that \<open>generatePreloadSection\<close> appends to its result, with the text of each:
  \<^item> \<open>Comment t\<close> is \<open>"    # t\n"\<close>;
  \<^item> \<open>Ppsrf_addi d s v\<close> is \<open>"    ppsrf.addi v<d>, v<s>, <v>\n"\<close>;
  \<^item> \<open>Corf_lui d v\<close> is \<open>"    corf.lui c<d>, <v>\n"\<close>;
  \<^item> \<open>Corf_addi d s v\<close> is \<open>"    corf.addi c<d>, c<s>, <v>\n"\<close>;
  \<^item> \<open>Blank_line\<close> is \<open>"\n"\<close>.
  Numbers are printed by \<open>std::to_string\<close> as signed decimals.
\<close>

datatype asm_line =
    Comment string
  | Ppsrf_addi int32 int32 int32
  | Corf_lui int32 int32
  | Corf_addi int32 int32 int32
  | Blank_line

fun render_line :: "asm_line \<Rightarrow> string" where
  "render_line (Comment t) = ''    # '' @ t @ [CHR 0x0A]"
| "render_line (Ppsrf_addi d s v) =
     ''    ppsrf.addi v'' @ to_string (sint d) @ '', v'' @ to_string (sint s) @ '', ''
       @ to_string (sint v) @ [CHR 0x0A]"
| "render_line (Corf_lui d v) =
     ''    corf.lui c'' @ to_string (sint d) @ '', '' @ to_string (sint v) @ [CHR 0x0A]"
| "render_line (Corf_addi d s v) =
     ''    corf.addi c'' @ to_string (sint d) @ '', c'' @ to_string (sint s) @ '', ''
       @ to_string (sint v) @ [CHR 0x0A]"
| "render_line Blank_line = [CHR 0x0A]"

text \<open>
  \<open>std::stoi(key.substr(1))\<close>: the register number of a key such as \<open>c3\<close> or \<open>v0\<close>;
  \<open>substr(1)\<close> of an empty key raises \<open>std::out_of_range\<close>.
\<close>

definition key_register :: "string \<Rightarrow> error + int32" where
  "key_register key =
     (if key = [] then Inl Out_of_range
      else bind_err (stoi (tl key)) (\<lambda>i. Inr (word_of_int i)))"

text \<open>The body of the loop over \<open>instr.psrf_var\<close> (lines 201-214).\<close>

definition psrf_var_lines :: "int32 \<Rightarrow> string \<times> int32 \<Rightarrow> error + asm_line list" where
  "psrf_var_lines reg_base entry =
     (case entry of (var_key, v) \<Rightarrow>
        if v \<noteq> 0 then
          bind_err (key_register var_key) (\<lambda>base_reg.
            let reg_num = reg_base + base_reg
            in Inr [Ppsrf_addi reg_num reg_base v])
        else Inr [])"

text \<open>The body of the loop over \<open>instr.coefficients\<close> (lines 217-240).\<close>

definition coefficient_lines :: "int32 \<Rightarrow> string \<times> int32 \<Rightarrow> error + asm_line list" where
  "coefficient_lines reg_base entry =
     (case entry of (coef_key, v) \<Rightarrow>
        if v \<noteq> 0 then
          bind_err (key_register coef_key) (\<lambda>base_reg.
            let reg_num = reg_base + base_reg
            in if 4095 <s v then
                 Inr [Corf_lui reg_num (signed_drop_bit 12 v),
                      Corf_addi reg_num reg_base (v AND 0xFFF)]
               else Inr [Corf_addi reg_num reg_base v])
        else Inr [])"

text \<open>
  The coefficient load as the specification words it, for comparison with the code: the
  two-instruction form is chosen by the magnitude of the coefficient.
\<close>

definition coefficient_lines_spec :: "int32 \<Rightarrow> string \<times> int32 \<Rightarrow> error + asm_line list" where
  "coefficient_lines_spec reg_base entry =
     (case entry of (coef_key, v) \<Rightarrow>
        if v \<noteq> 0 then
          bind_err (key_register coef_key) (\<lambda>base_reg.
            let reg_num = reg_base + base_reg
            in if 4095 < \<bar>sint v\<bar> then
                 Inr [Corf_lui reg_num (signed_drop_bit 12 v),
                      Corf_addi reg_num reg_base (v AND 0xFFF)]
               else Inr [Corf_addi reg_num reg_base v])
        else Inr [])"

text \<open>The body of the loop over the instructions (lines 183-248).\<close>

definition instruction_preload_lines :: "Instruction \<Rightarrow> error + asm_line list" where
  "instruction_preload_lines instr =
     (if instr_format instr = ''psrf-mem-type'' then
        let var_value = (case instr_var instr of Some v \<Rightarrow> v | None \<Rightarrow> 0);
            reg_base = var_value * 6
        in bind_err (collect_err (psrf_var_lines reg_base) (instr_psrf_var instr)) (\<lambda>vars.
           bind_err (collect_err (coefficient_lines reg_base) (instr_coefficients instr)) (\<lambda>coefs.
             Inr (Comment (''Using var='' @ to_string (sint var_value) @ '' (registers ''
                     @ to_string (sint reg_base) @ ''-'' @ to_string (sint (reg_base + 5)) @ '')'')
                  # vars @ coefs)))
      else Inr [])"

text \<open>
  \<open>generatePreloadSection\<close>: the local \<open>has_mem_type\<close> stays false, so the result is
  empty unless some instruction has the format \<open>psrf-mem-type\<close>.
\<close>

definition preload_lines :: "PEAssignment \<Rightarrow> error + asm_line list" where
  "preload_lines pe_assignment =
     bind_err (collect_err instruction_preload_lines (instructions pe_assignment)) (\<lambda>body.
       if \<not> (\<exists>instr \<in> set (instructions pe_assignment). instr_format instr = ''psrf-mem-type'')
       then Inr []
       else Inr (Comment ''Preload section for PSRF variables and coefficients''
                 # body @ [Blank_line]))"

definition generatePreloadSection :: "PEAssignment \<Rightarrow> error + string" where
  "generatePreloadSection pe_assignment =
     bind_err (preload_lines pe_assignment) (\<lambda>ls. Inr (concat (map render_line ls)))"

subsection \<open>Which PEs receive a program (lines 740-838)\<close>

text \<open>
  The members of \<open>DFGProcessor\<close> that decide which files the loop of \<open>generateAssembly\<close>
  writes. The three numbers are plain \<open>int\<close>s that the loop only compares and divides, so
  they are modelled as integers; \<open>%\<close> truncates, which is \<open>smod\<close>.
\<close>

record DFGProcessor =
  pe_assignments :: "PEAssignment list"
  total_pes :: int
  pes_per_cluster :: int
  minimum_pes_required :: int
  output_folder :: string

text \<open>
  How a round of the loop ends when no exception is raised. \<open>Emitted f p\<close> stands for the
  file \<open>f\<close>, opened at line 761 and closed at line 833, with \<open>p\<close> the text that
  \<open>generatePreloadSection\<close> contributed to it (empty when the call is not made).
\<close>

datatype pe_outcome =
    Skipped_minimum       \<comment> \<open>\<open>continue\<close> at line 750\<close>
  | Skipped_count         \<comment> \<open>\<open>continue\<close> at line 756\<close>
  | Emitted string string \<comment> \<open>the file written at lines 761-833\<close>

text \<open>
  A round that does not end: the error, and the file that the round had opened before,
  which then holds only the text written up to the call that raised.
\<close>

type_synonym interruption = "error \<times> string option"

text \<open>
  One round of the loop for the PE \<open>pe\<close>. A zero \<open>pes_per_cluster\<close> and an index outside
  \<open>pe_assignments\<close> are undefined behaviour. After the two tests the round opens the file
  and writes to it; of the calls it makes, \<open>generatePreloadSection\<close> (line 782, under the
  test of line 780) is the one that can raise an exception, from \<open>std::stoi\<close> or
  \<open>substr\<close> on a key. The exception leaves \<open>generateAssembly\<close>. The other statements of
  the round (header, \<open>generateBaseAddressLoading\<close>, delay NOPs, \<open>generateInstructionCode\<close>,
  function sections, trailer) only append text to the file; \<open>getClusterNumber(pe)\<close> at
  line 763 divides by the divisor that line 745 has already used, with \<open>pe \<ge> 0\<close>.
\<close>

definition generateAssembly_pe :: "DFGProcessor \<Rightarrow> int \<Rightarrow> interruption + pe_outcome" where
  "generateAssembly_pe cfg pe =
     (if pes_per_cluster cfg = 0 then Inl (Division_by_zero, None)
      else
        let base_pe = pe smod pes_per_cluster cfg
        in if base_pe > minimum_pes_required cfg then Inr Skipped_minimum
           else if \<not> (0 \<le> base_pe \<and> nat base_pe < length (pe_assignments cfg))
           then Inl (Index_out_of_bounds, None)
           else
             let assignment = pe_assignments cfg ! nat base_pe
             in if length (instructions assignment) \<ge> 10000
                   \<or> length (instructions assignment) = 0
                then Inr Skipped_count
                else
                  let filename = output_folder cfg @ ''pe'' @ to_string pe @ ''_assembly.s''
                  in if has_psrf_mem_type assignment \<or> has_mem_type assignment then
                       (case generatePreloadSection assignment of
                          Inl e \<Rightarrow> Inl (e, Some filename)
                        | Inr preload \<Rightarrow> Inr (Emitted filename preload))
                     else Inr (Emitted filename []))"

text \<open>
  The loop \<open>for (int pe = 0; pe < total_pes; pe++)\<close> over the given PEs: the outcomes of
  the rounds that ended, in order, and the interruption that ended the loop, if any. The
  rounds after an interruption do not take place.
\<close>

fun generateAssembly_loop ::
  "DFGProcessor \<Rightarrow> int list \<Rightarrow> (int \<times> pe_outcome) list \<times> interruption option" where
  "generateAssembly_loop cfg [] = ([], None)"
| "generateAssembly_loop cfg (pe # pes) =
     (case generateAssembly_pe cfg pe of
        Inl stop \<Rightarrow> ([], Some stop)
      | Inr r \<Rightarrow>
          (case generateAssembly_loop cfg pes of (outs, stop) \<Rightarrow> ((pe, r) # outs, stop)))"

definition generateAssembly ::
  "DFGProcessor \<Rightarrow> (int \<times> pe_outcome) list \<times> interruption option" where
  "generateAssembly cfg = generateAssembly_loop cfg (map int [0..<nat (total_pes cfg)])"

subsection \<open>An example configuration\<close>

text \<open>
  Two clusters of three PEs; the first PE position holds one \<open>psrf-mem-type\<close>
  instruction, the second holds none, and \<open>minimum_pes_required\<close> is 1.
\<close>

definition example_instruction :: Instruction where
  "example_instruction =
     \<lparr>instr_operation = ''psrf.lw'', instr_ra1 = ''x1'', instr_ra2 = ''null'',
      instr_rd = ''null'', instr_base_address = ''x5'', instr_format = ''psrf-mem-type'',
      instr_coefficients = [(''c0'', 7), (''c1'', 5000)], instr_var = Some 1,
      instr_psrf_var = [(''v0'', 4)], instr_hwl = None, instr_imm = 0, instr_target = [],
      instr_address = 0, instr_offset = 0\<rparr>"

definition example_config :: DFGProcessor where
  "example_config =
     \<lparr>pe_assignments =
        [\<lparr>pe_id = 0, instructions = [example_instruction], has_psrf_mem_type = True,
          has_mem_type = False, required_base_registers = {''x5''}, has_hwl = False\<rparr>,
         \<lparr>pe_id = 1, instructions = [], has_psrf_mem_type = False,
          has_mem_type = False, required_base_registers = {}, has_hwl = False\<rparr>],
      total_pes = 6, pes_per_cluster = 3, minimum_pes_required = 1,
      output_folder = ''build/''\<rparr>"

text \<open>
  One cluster of one PE position, two PEs; the coefficient key \<open>cx\<close> of the only
  instruction holds no register number.
\<close>

definition interrupted_config :: DFGProcessor where
  "interrupted_config =
     \<lparr>pe_assignments =
        [\<lparr>pe_id = 0,
          instructions = [example_instruction\<lparr>instr_coefficients := [(''cx'', 7)]\<rparr>],
          has_psrf_mem_type = True, has_mem_type = False,
          required_base_registers = {''x5''}, has_hwl = False\<rparr>],
      total_pes = 2, pes_per_cluster = 1, minimum_pes_required = 0,
      output_folder = ''build/''\<rparr>"

section \<open>Stage 2: the assembler (risc\_v\_assembler.cpp)\<close>

subsection \<open>String helpers\<close>

text \<open>
  \<open>trim_string\<close> (lines 30-37) returns the part between the first and the last character
  that is not white space, and the empty string when there is none.
\<close>

definition trim_string :: "string \<Rightarrow> string" where
  "trim_string str = rev (dropWhile is_space (rev (dropWhile is_space str)))"

text \<open>\<open>s.substr(pos, n)\<close> for \<open>pos \<le> s.size()\<close>, the only way the source calls it.\<close>

definition substr :: "nat \<Rightarrow> nat \<Rightarrow> string \<Rightarrow> string" where
  "substr pos n s = take n (drop pos s)"

text \<open>\<open>s.find(c)\<close>: the index of the first occurrence, \<open>None\<close> for \<open>npos\<close>.\<close>

primrec find_char :: "char \<Rightarrow> string \<Rightarrow> nat option" where
  "find_char c [] = None"
| "find_char c (x # xs) = (if x = c then Some 0 else map_option Suc (find_char c xs))"

text \<open>\<open>s.find(pat) != npos\<close>.\<close>

primrec contains_str :: "string \<Rightarrow> string \<Rightarrow> bool" where
  "contains_str pat [] = (pat = [])"
| "contains_str pat (c # cs) = (prefix pat (c # cs) \<or> contains_str pat cs)"

text \<open>Lower-case hexadecimal digits of a number, as \<open>std::hex\<close> prints them.\<close>

definition hex_char :: "nat \<Rightarrow> char" where
  "hex_char d = ''0123456789abcdef'' ! d"

function nat_to_hex :: "nat \<Rightarrow> string" where
  "nat_to_hex n = (if n < 16 then [hex_char n] else nat_to_hex (n div 16) @ [hex_char (n mod 16)])"
  by pat_completeness auto
termination
  by (relation "measure id") auto

declare nat_to_hex.simps [simp del]

text \<open>\<open>std::setfill(c)\<close> with \<open>std::setw(w)\<close>: padding on the left up to width \<open>w\<close>.\<close>

definition pad_left :: "nat \<Rightarrow> char \<Rightarrow> string \<Rightarrow> string" where
  "pad_left w c s = replicate (w - length s) c @ s"

text \<open>
  \<open>std::stoul(s, nullptr, 2)\<close>: white space is skipped, one sign is optional, the longest
  run of binary digits is converted; a minus sign negates in \<open>unsigned long\<close> (64 bits).
\<close>

definition is_bin_digit :: "char \<Rightarrow> bool" where
  "is_bin_digit c = (c = CHR ''0'' \<or> c = CHR ''1'')"

definition bin_value :: "string \<Rightarrow> nat" where
  "bin_value ds = foldl (\<lambda>acc c. 2 * acc + (if c = CHR ''1'' then 1 else 0)) 0 ds"

definition stoul2 :: "string \<Rightarrow> error + nat" where
  "stoul2 s =
     (let t = dropWhile is_space s;
          neg = (t \<noteq> [] \<and> hd t = CHR ''-'');
          u = (if t \<noteq> [] \<and> (hd t = CHR ''-'' \<or> hd t = CHR ''+'') then tl t else t);
          ds = takeWhile is_bin_digit u;
          v = bin_value ds
      in if ds = [] then Inl Invalid_argument
         else if 2 ^ 64 \<le> v then Inl Out_of_range
         else Inr (if neg then (2 ^ 64 - v) mod 2 ^ 64 else v))"

subsection \<open>Register and ISA tables (constructor, lines 40-119)\<close>

text \<open>
  \<open>operator[]\<close> of the register maps yields 0 for a name that is not a register (and
  stores it with that value, which no later lookup can tell apart), so lookups go through
  \<open>lookup0\<close>; \<open>operator[]\<close> of the string-valued tables yields the empty string.
\<close>

definition registers :: "string \<rightharpoonup> int32" where
  "registers = map_of (map (\<lambda>i. (''x'' @ to_string (int i), word_of_nat i)) [0..<32])"

definition registers_c :: "string \<rightharpoonup> int32" where
  "registers_c = map_of (map (\<lambda>i. (''c'' @ to_string (int i), word_of_nat i)) [0..<32])"

definition registers_p :: "string \<rightharpoonup> int32" where
  "registers_p = map_of (map (\<lambda>i. (''v'' @ to_string (int i), word_of_nat i)) [0..<32])"

definition hwl_registers :: "string \<rightharpoonup> int32" where
  "hwl_registers = map_of (map (\<lambda>i. (''L'' @ to_string (int i), word_of_nat i)) [1..<8])"

definition lookup_str :: "(string \<times> string) list \<Rightarrow> string \<Rightarrow> string" where
  "lookup_str t k = (case map_of t k of None \<Rightarrow> [] | Some v \<Rightarrow> v)"

definition instructions_tab :: "(string \<times> string) list" where
  "instructions_tab =
    [(''lb'', ''0000011''), (''lh'', ''0000011''), (''lw'', ''0000011''),
     (''lbu'', ''0000011''), (''lhu'', ''0000011''),
     (''addi'', ''0010011''), (''slli'', ''0010011''), (''slti'', ''0010011''),
     (''sltiu'', ''0010011''), (''xori'', ''0010011''), (''srli'', ''0010011''),
     (''srai'', ''0010011''), (''ori'', ''0010011''), (''andi'', ''0010011''),
     (''auipc'', ''0010111''),
     (''sb'', ''0100011''), (''sh'', ''0100011''), (''sw'', ''0100011''),
     (''add'', ''0110011''), (''sub'', ''0110011''), (''sll'', ''0110011''),
     (''slt'', ''0110011''), (''sltu'', ''0110011''), (''xor'', ''0110011''),
     (''srl'', ''0110011''), (''sra'', ''0110011''), (''or'', ''0110011''),
     (''and'', ''0110011''), (''mul'', ''0110011''), (''lui'', ''0110111''),
     (''beq'', ''1100011''), (''bne'', ''1100011''), (''blt'', ''1100011''),
     (''bge'', ''1100011''), (''bltu'', ''1100011''), (''bgeu'', ''1100011''),
     (''jalr'', ''1100111''), (''jal'', ''1101111''),
     (''psrf.lw'', ''0000100''), (''psrf.sw'', ''0100100''),
     (''psrf.lb'', ''0000100''), (''psrf.sb'', ''0100100''),
     (''psrf.zd.lw'', ''0000100''),
     (''ppsrf.addi'', ''0010100''),
     (''corf.addi'', ''0010100''),
     (''corf.lui'', ''0111011''),
     (''hwlrf.lui'', ''0111100''),
     (''hwlrf.addi'', ''0010100''),
     (''ret'', ''0000000'')]"

definition funct3_tab :: "(string \<times> string) list" where
  "funct3_tab =
    [(''lb'', ''000''), (''lh'', ''001''), (''lw'', ''010''),
     (''lbu'', ''100''), (''lhu'', ''101''),
     (''addi'', ''000''), (''slli'', ''001''), (''slti'', ''010''), (''sltiu'', ''011''),
     (''xori'', ''100''), (''srli'', ''101''), (''srai'', ''101''), (''ori'', ''110''),
     (''andi'', ''111''),
     (''sb'', ''000''), (''sh'', ''001''), (''sw'', ''010''),
     (''add'', ''000''), (''sub'', ''000''), (''sll'', ''001''), (''slt'', ''010''),
     (''sltu'', ''011''), (''xor'', ''100''), (''srl'', ''101''), (''sra'', ''101''),
     (''or'', ''110''), (''and'', ''111''), (''mul'', ''000''),
     (''beq'', ''000''), (''bne'', ''001''), (''blt'', ''100''),
     (''bge'', ''101''), (''bltu'', ''110''), (''bgeu'', ''111''),
     (''jalr'', ''000''),
     (''psrf.lw'', ''111''), (''psrf.lb'', ''000''), (''mul'', ''000''),
     (''psrf.zd.lw'', ''110''),
     (''psrf.sw'', ''100''), (''psrf.sb'', ''000''),
     (''ppsrf.addi'', ''001''),
     (''corf.addi'', ''000''),
     (''hwlrf.addi'', ''010'')]"

definition funct7_tab :: "(string \<times> string) list" where
  "funct7_tab =
    [(''slli'', ''0000000''), (''srli'', ''0000000''), (''srai'', ''0100000''),
     (''add'', ''0000000''), (''sub'', ''0100000''), (''sll'', ''0000000''),
     (''slt'', ''0000000''), (''sltu'', ''0000000''), (''xor'', ''0000000''),
     (''srl'', ''0000000''), (''sra'', ''0100000''), (''or'', ''0000000''),
     (''and'', ''0000000''), (''mul'', ''0000001'')]"

text \<open>
  The lookups \<open>instructions[op]\<close>, \<open>funct3[op]\<close> and \<open>funct7[op]\<close> (the name
  \<open>instructions\<close> is already the field of \<open>PEAssignment\<close>).
\<close>

definition instructions_map :: "string \<Rightarrow> string" where
  "instructions_map = lookup_str instructions_tab"

definition funct3_map :: "string \<Rightarrow> string" where
  "funct3_map = lookup_str funct3_tab"

definition funct7_map :: "string \<Rightarrow> string" where
  "funct7_map = lookup_str funct7_tab"

subsection \<open>Bit strings (lines 121-134)\<close>

text \<open>
  \<open>to_binary(num, length)\<close>: the last \<open>length\<close> characters of the 32-character
  rendering of \<open>num\<close> (after \<open>num = (1 << length) + num\<close> for a negative \<open>num\<close>), that is
  bits \<open>length - 1\<close> down to 0. Every call site has \<open>length \<le> 21\<close>.
\<close>

definition to_binary :: "int32 \<Rightarrow> nat \<Rightarrow> string" where
  "to_binary num len =
     (let n = (if num <s 0 then push_bit len 1 + num else num)
      in map (\<lambda>i. if bit n i then CHR ''1'' else CHR ''0'') (rev [0..<len]))"

definition to_hex :: "string \<Rightarrow> error + string" where
  "to_hex b = bind_err (stoul2 b) (\<lambda>n. Inr (pad_left 8 (CHR ''0'') (nat_to_hex n)))"

subsection \<open>Encoders (lines 136-288)\<close>

text \<open>
  Each encoder concatenates bit strings; the immediate has been converted by the caller
  with \<open>std::stoi\<close>, except for the shift amount of \<open>assemble_r_type\<close>.
\<close>

definition assemble_r_type :: "string \<Rightarrow> string \<Rightarrow> string \<Rightarrow> string \<Rightarrow> error + string" where
  "assemble_r_type instruction rd rs1 rs2 =
     (let opcode = instructions_map instruction;
          func3 = funct3_map instruction;
          func7 = funct7_map instruction;
          rd_bin = to_binary (lookup0 registers rd) 5;
          rs1_bin = to_binary (lookup0 registers rs1) 5
      in if instruction = ''slli'' \<or> instruction = ''srli'' \<or> instruction = ''srai'' then
           bind_err (stoi rs2) (\<lambda>imm.
             let rs2_bin = to_binary (word_of_int imm) 5
             in Inr (func7 @ rs2_bin @ rs1_bin @ func3 @ rd_bin @ opcode))
         else
           let rs2_bin = to_binary (lookup0 registers rs2) 5
           in Inr (func7 @ rs2_bin @ rs1_bin @ func3 @ rd_bin @ opcode))"

definition assemble_i_type :: "string \<Rightarrow> string \<Rightarrow> string \<Rightarrow> int32 \<Rightarrow> string" where
  "assemble_i_type instruction rd rs1 imm =
     (let opcode = instructions_map instruction;
          func3 = funct3_map instruction;
          rd_bin = to_binary (lookup0 registers rd) 5;
          rs1_bin = to_binary (lookup0 registers rs1) 5;
          imm_bin = to_binary imm 12
      in imm_bin @ rs1_bin @ func3 @ rd_bin @ opcode)"

definition assemble_s_type :: "string \<Rightarrow> string \<Rightarrow> string \<Rightarrow> int32 \<Rightarrow> string" where
  "assemble_s_type instruction rs1 rs2 imm =
     (let opcode = instructions_map instruction;
          func3 = funct3_map instruction;
          rs1_bin = to_binary (lookup0 registers rs1) 5;
          rs2_bin = to_binary (lookup0 registers rs2) 5;
          imm_bin = to_binary imm 12;
          imm_high = substr 0 7 imm_bin;
          imm_low = substr 7 5 imm_bin
      in imm_high @ rs2_bin @ rs1_bin @ func3 @ imm_low @ opcode)"

definition assemble_b_type :: "string \<Rightarrow> string \<Rightarrow> string \<Rightarrow> int32 \<Rightarrow> string" where
  "assemble_b_type instruction rs1 rs2 imm =
     (let opcode = instructions_map instruction;
          func3 = funct3_map instruction;
          rs1_bin = to_binary (lookup0 registers rs1) 5;
          rs2_bin = to_binary (lookup0 registers rs2) 5;
          imm_bin = to_binary imm 13;
          imm_12 = substr 0 1 imm_bin;
          imm_10_5 = substr 2 6 imm_bin;
          imm_4_1 = substr 8 4 imm_bin;
          imm_11 = substr 1 1 imm_bin
      in imm_12 @ imm_10_5 @ rs2_bin @ rs1_bin @ func3 @ imm_4_1 @ imm_11 @ opcode)"

definition assemble_psrf_lw_sw :: "string \<Rightarrow> string \<Rightarrow> string \<Rightarrow> int32 \<Rightarrow> string" where
  "assemble_psrf_lw_sw instruction rd rs1 imm =
     (let opcode = instructions_map instruction;
          func3 = funct3_map instruction;
          rd_bin = to_binary (lookup0 registers rd) 5;
          rs1_bin = to_binary (lookup0 registers rs1) 5;
          imm_bin = to_binary imm 12
      in imm_bin @ rs1_bin @ func3 @ rd_bin @ opcode)"

definition assemble_u_type :: "string \<Rightarrow> string \<Rightarrow> int32 \<Rightarrow> string" where
  "assemble_u_type instruction rd imm =
     (let opcode = instructions_map instruction;
          rd_bin = to_binary (lookup0 registers rd) 5;
          imm_bin = to_binary imm 20
      in imm_bin @ rd_bin @ opcode)"

definition assemble_corf_lui :: "string \<Rightarrow> string \<Rightarrow> int32 \<Rightarrow> string" where
  "assemble_corf_lui opn rd imm =
     (let opcode = instructions_map opn;
          rd_bin = to_binary (lookup0 registers_c rd) 5;
          imm_bin = to_binary (imm AND 0xFFFFF) 20
      in imm_bin @ rd_bin @ opcode)"

definition assemble_corf_addi :: "string \<Rightarrow> string \<Rightarrow> string \<Rightarrow> int32 \<Rightarrow> string" where
  "assemble_corf_addi opn rd rs1 imm =
     (let opcode = instructions_map opn;
          func3 = funct3_map opn;
          rd_bin = to_binary (lookup0 registers_c rd) 5;
          rs1_bin = to_binary (lookup0 registers_c rs1) 5;
          imm_bin = to_binary imm 12
      in imm_bin @ rs1_bin @ func3 @ rd_bin @ opcode)"

definition assemble_ppsrf_addi :: "string \<Rightarrow> string \<Rightarrow> string \<Rightarrow> int32 \<Rightarrow> string" where
  "assemble_ppsrf_addi opn rd rs1 imm =
     (let opcode = instructions_map opn;
          func3 = funct3_map opn;
          rd_bin = to_binary (lookup0 registers_p rd) 5;
          rs1_bin = to_binary (lookup0 registers_p rs1) 5;
          imm_bin = to_binary imm 12
      in imm_bin @ rs1_bin @ func3 @ rd_bin @ opcode)"

definition assemble_hwlrf_lui :: "string \<Rightarrow> int32 \<Rightarrow> string" where
  "assemble_hwlrf_lui rd imm =
     (let opcode = instructions_map ''hwlrf.lui'';
          rd_bin = to_binary (lookup0 hwl_registers rd) 5;
          imm_bin = to_binary imm 20
      in imm_bin @ rd_bin @ opcode)"

definition assemble_hwlrf_addi :: "string \<Rightarrow> string \<Rightarrow> int32 \<Rightarrow> string" where
  "assemble_hwlrf_addi rd rs1 imm =
     (let opcode = instructions_map ''hwlrf.addi'';
          func3 = funct3_map ''hwlrf.addi'';
          rd_bin = to_binary (lookup0 hwl_registers rd) 5;
          rs1_bin = to_binary (lookup0 hwl_registers rs1) 5;
          imm_bin = to_binary imm 12
      in imm_bin @ rs1_bin @ func3 @ rd_bin @ opcode)"

definition assemble_j_type :: "string \<Rightarrow> int32 \<Rightarrow> string" where
  "assemble_j_type rd imm =
     (let opcode = instructions_map ''jal'';
          rd_bin = to_binary (lookup0 registers rd) 5;
          imm_bin = to_binary imm 21;
          imm_20 = substr 0 1 imm_bin;
          imm_10_1 = substr 11 10 imm_bin;
          imm_11 = substr 10 1 imm_bin;
          imm_19_12 = substr 1 8 imm_bin
      in imm_20 @ imm_10_1 @ imm_11 @ imm_19_12 @ rd_bin @ opcode)"

subsection \<open>Parsing one instruction line (lines 291-488)\<close>

record AssembledInstruction =
  op :: string
  binary :: string
  hex :: string
  is_execution :: bool

text \<open>
  \<open>iss >> op; std::getline(iss, args_str)\<close>: the mnemonic is the first run of characters
  that are not white space, the argument string is the rest of the line.
\<close>

definition split_op :: "string \<Rightarrow> string \<times> string" where
  "split_op line =
     (let t = dropWhile is_space line
      in (takeWhile (\<lambda>c. \<not> is_space c) t,
          takeWhile (\<lambda>c. c \<noteq> CHR 0x0A) (dropWhile (\<lambda>c. \<not> is_space c) t)))"

text \<open>
  The argument loop (lines 311-335): a comma outside parentheses ends a token, tokens are
  trimmed and empty ones dropped. \<open>cur\<close> holds the characters from \<open>pos\<close> up to the
  current position.
\<close>

fun split_args :: "string \<Rightarrow> bool \<Rightarrow> string \<Rightarrow> string list" where
  "split_args [] in_parentheses cur =
     (let token = trim_string cur in if token \<noteq> [] then [token] else [])"
| "split_args (c # cs) in_parentheses cur =
     (let in_par = (if c = CHR ''('' then True
                    else if c = CHR '')'' then False else in_parentheses)
      in if c = CHR '','' \<and> \<not> in_par then
           (let token = trim_string cur in if token \<noteq> [] then [token] else [])
             @ split_args cs in_par []
         else split_args cs in_par (cur @ [c]))"

text \<open>
  The operand \<open>offset(base)\<close> of the store and PSRF branches: \<open>None\<close> when a parenthesis
  is missing (the branch then assigns nothing), otherwise the offset (0 when the text
  before the parenthesis is empty, else \<open>std::stoi\<close> of it) and the trimmed base register.
\<close>

definition parse_offset_base :: "string \<Rightarrow> (error + int32 \<times> string) option" where
  "parse_offset_base offset_base =
     (case find_char (CHR ''('') offset_base of
        None \<Rightarrow> None
      | Some open_paren \<Rightarrow>
          (case find_char (CHR '')'') (drop open_paren offset_base) of
             None \<Rightarrow> None
           | Some k \<Rightarrow>
               let close_paren = open_paren + k;
                   offset_str = trim_string (substr 0 open_paren offset_base);
                   base_reg = trim_string
                     (substr (open_paren + 1) (close_paren - open_paren - 1) offset_base)
               in Some (if offset_str \<noteq> []
                        then bind_err (stoi offset_str) (\<lambda>i. Inr (word_of_int i, base_reg))
                        else Inr (0, base_reg))))"

text \<open>
  The dispatch on the mnemonic; the result is \<open>result.binary\<close>, empty when no branch
  assigns it.
\<close>

definition encode :: "string \<Rightarrow> string list \<Rightarrow> error + string" where
  "encode opn args =
    (if opn = ''hwlrf.lui'' then
       if 2 \<le> length args
       then bind_err (stoi (args ! 1)) (\<lambda>i. Inr (assemble_hwlrf_lui (args ! 0) (word_of_int i)))
       else Inr []
     else if opn = ''hwlrf.addi'' then
       if 3 \<le> length args
       then bind_err (stoi (args ! 2))
              (\<lambda>i. Inr (assemble_hwlrf_addi (args ! 0) (args ! 1) (word_of_int i)))
       else Inr []
     else if opn = ''lui'' \<or> opn = ''auipc'' then
       if 2 \<le> length args
       then bind_err (stoi (args ! 1)) (\<lambda>i. Inr (assemble_u_type opn (args ! 0) (word_of_int i)))
       else Inr []
     else if opn = ''add'' \<or> opn = ''sub'' \<or> opn = ''sll'' \<or> opn = ''slt'' \<or> opn = ''sltu''
           \<or> opn = ''xor'' \<or> opn = ''srl'' \<or> opn = ''sra'' \<or> opn = ''or'' \<or> opn = ''and''
           \<or> opn = ''mul'' \<or> opn = ''slli'' \<or> opn = ''srli'' \<or> opn = ''srai'' then
       if 3 \<le> length args
       then assemble_r_type opn (args ! 0) (args ! 1) (args ! 2)
       else Inr []
     else if opn = ''addi'' \<or> opn = ''slti'' \<or> opn = ''sltiu'' \<or> opn = ''xori''
           \<or> opn = ''ori'' \<or> opn = ''andi'' \<or> opn = ''jalr'' then
       if 3 \<le> length args
       then bind_err (stoi (args ! 2))
              (\<lambda>i. Inr (assemble_i_type opn (args ! 0) (args ! 1) (word_of_int i)))
       else Inr []
     else if opn = ''sb'' \<or> opn = ''sh'' \<or> opn = ''sw'' then
       if 2 \<le> length args then
         (case parse_offset_base (args ! 1) of
            None \<Rightarrow> Inr []
          | Some r \<Rightarrow> bind_err r (\<lambda>(offs, base_reg).
              Inr (assemble_s_type opn base_reg (args ! 0) offs)))
       else Inr []
     else if opn = ''beq'' \<or> opn = ''bne'' \<or> opn = ''blt'' \<or> opn = ''bge''
           \<or> opn = ''bltu'' \<or> opn = ''bgeu'' then
       if 3 \<le> length args
       then bind_err (stoi (args ! 2))
              (\<lambda>i. Inr (assemble_b_type opn (args ! 0) (args ! 1) (word_of_int i)))
       else Inr []
     else if opn = ''jal'' then
       if 2 \<le> length args
       then bind_err (stoi (args ! 1)) (\<lambda>i. Inr (assemble_j_type (args ! 0) (word_of_int i)))
       else Inr []
     else if opn = ''ppsrf.addi'' then
       if 3 \<le> length args
       then bind_err (stoi (args ! 2))
              (\<lambda>i. Inr (assemble_ppsrf_addi opn (args ! 0) (args ! 1) (word_of_int i)))
       else Inr []
     else if opn = ''corf.addi'' then
       if 3 \<le> length args
       then bind_err (stoi (args ! 2))
              (\<lambda>i. Inr (assemble_corf_addi opn (args ! 0) (args ! 1) (word_of_int i)))
       else Inr []
     else if opn = ''corf.lui'' then
       if 2 \<le> length args
       then bind_err (stoi (args ! 1)) (\<lambda>i. Inr (assemble_corf_lui opn (args ! 0) (word_of_int i)))
       else Inr []
     else if opn = ''ret'' then Inr (assemble_i_type ''addi'' ''x0'' ''x0'' 0)
     else if opn = ''nop'' then Inr (assemble_i_type ''addi'' ''x0'' ''x0'' 0)
     else if contains_str ''psrf.'' opn then
       if opn = ''psrf.lw'' \<or> opn = ''psrf.lb'' \<or> opn = ''psrf.zd.lw'' then
         if 2 \<le> length args then
           (case parse_offset_base (args ! 1) of
              None \<Rightarrow> Inr []
            | Some r \<Rightarrow> bind_err r (\<lambda>(offs, base_reg).
                Inr (assemble_psrf_lw_sw opn (args ! 0) base_reg offs)))
         else Inr []
       else if opn = ''psrf.sw'' \<or> opn = ''psrf.sb'' then
         if 2 \<le> length args then
           (case parse_offset_base (args ! 1) of
              None \<Rightarrow> Inr []
            | Some r \<Rightarrow> bind_err r (\<lambda>(offs, base_reg).
                Inr (assemble_psrf_lw_sw opn (args ! 0) base_reg offs)))
         else Inr []
       else Inr []
     else Inr [])"

text \<open>
  \<open>parse_instruction\<close>: the field \<open>is_execution\<close> is left for the caller to set; the
  hexadecimal rendering is computed only for a non-empty \<open>binary\<close> (lines 482-485).
\<close>

definition parse_instruction :: "string \<Rightarrow> error + AssembledInstruction" where
  "parse_instruction line =
     (let (opn, rest) = split_op line;
          args_str = trim_string rest;
          args = split_args args_str False []
      in bind_err (encode opn args) (\<lambda>bin.
           if bin \<noteq> []
           then bind_err (to_hex bin) (\<lambda>h.
                  Inr \<lparr>op = opn, binary = bin, hex = h, is_execution = False\<rparr>)
           else Inr \<lparr>op = opn, binary = [], hex = [], is_execution = False\<rparr>))"

subsection \<open>Assembling one file (lines 491-594)\<close>

text \<open>
  The reading loop (lines 515-532) over the lines of the input file. Empty lines,
  comments, directives, names starting with an underscore and lines containing a colon
  are skipped; a skipped line containing the marker switches to the execution section.
\<close>

fun read_lines :: "bool \<Rightarrow> string list \<Rightarrow> error + AssembledInstruction list" where
  "read_lines in_execution_section [] = Inr []"
| "read_lines in_execution_section (line # rest) =
     (let trimmed = trim_string line
      in if trimmed = [] \<or> hd trimmed = CHR ''#'' \<or> hd trimmed = CHR ''.''
            \<or> hd trimmed = CHR ''_'' \<or> find_char (CHR '':'') trimmed \<noteq> None
         then read_lines
                (if contains_str ''Execution Section Begin'' trimmed then True
                 else in_execution_section) rest
         else bind_err (parse_instruction trimmed) (\<lambda>instr.
                bind_err (read_lines in_execution_section rest) (\<lambda>assembled.
                  Inr (instr\<lparr>is_execution := in_execution_section\<rparr> # assembled))))"

text \<open>
  The test of lines 518-519 on a trimmed line, and the value of \<open>in_execution_section\<close>
  (lines 513 and 522-524) once the reading loop has gone through the given lines: only a
  skipped line that contains the marker changes it.
\<close>

definition skipped_line :: "string \<Rightarrow> bool" where
  "skipped_line trimmed =
     (trimmed = [] \<or> hd trimmed = CHR ''#'' \<or> hd trimmed = CHR ''.''
      \<or> hd trimmed = CHR ''_'' \<or> find_char (CHR '':'') trimmed \<noteq> None)"

fun section_after :: "bool \<Rightarrow> string list \<Rightarrow> bool" where
  "section_after in_execution_section [] = in_execution_section"
| "section_after in_execution_section (line # rest) =
     section_after
       (if skipped_line (trim_string line)
           \<and> contains_str ''Execution Section Begin'' (trim_string line)
        then True else in_execution_section) rest"

text \<open>The address computed at lines 549-560 for a word of the given section and counter.\<close>

definition mem_address :: "int32 \<Rightarrow> bool \<Rightarrow> int32 \<Rightarrow> int32" where
  "mem_address pe_number is_exec count =
     (if is_exec then push_bit 10 (pe_number AND 0xFF) OR count
      else push_bit 10 (pe_number AND 0xFF) OR push_bit 9 1 OR count)"

text \<open>
  The memory entry (lines 572-574): \<open>@\<close>, the address in hexadecimal padded with zeros
  to eight digits, a blank, and the instruction's \<open>hex\<close>.
\<close>

definition mem_entry :: "int32 \<Rightarrow> string \<Rightarrow> string" where
  "mem_entry addr h = ''@'' @ pad_left 8 (CHR ''0'') (nat_to_hex (unat addr)) @ '' '' @ h"

record assemble_output =
  hex_file :: "string list"
  mem_file :: "string list"
  preload_count :: int32
  execution_count :: int32

text \<open>
  The writing loop (lines 545-583). One round appends a line to the hex file and to the
  memory file and advances the counter of the word's section; the lines written to the
  memory file are also the entries appended to \<open>memory_entries\<close>.
\<close>

definition write_entry :: "int32 \<Rightarrow> assemble_output \<Rightarrow> AssembledInstruction \<Rightarrow> assemble_output" where
  "write_entry pe_number out instr =
     (if is_execution instr then
        out\<lparr>hex_file := hex_file out @ [hex instr],
            mem_file := mem_file out
              @ [mem_entry (mem_address pe_number True (execution_count out)) (hex instr)],
            execution_count := execution_count out + 1\<rparr>
      else
        out\<lparr>hex_file := hex_file out @ [hex instr],
            mem_file := mem_file out
              @ [mem_entry (mem_address pe_number False (preload_count out)) (hex instr)],
            preload_count := preload_count out + 1\<rparr>)"

definition write_entries :: "int32 \<Rightarrow> AssembledInstruction list \<Rightarrow> assemble_output" where
  "write_entries pe_number assembled =
     foldl (write_entry pe_number)
       \<lparr>hex_file = [], mem_file = [], preload_count = 0, execution_count = 0\<rparr> assembled"

definition assemble :: "int32 \<Rightarrow> string list \<Rightarrow> error + assemble_output" where
  "assemble pe_number file_lines =
     bind_err (read_lines False file_lines) (\<lambda>assembled.
       Inr (write_entries pe_number assembled))"

text \<open>
  The specification's reading of an address: the section bit is 1 for preload and 0 for
  execution, and the local index of the word at position \<open>n\<close> counts the earlier words of
  the same section.
\<close>

definition section_bit :: "bool \<Rightarrow> int32" where
  "section_bit is_exec = (if is_exec then 0 else 1)"

definition local_index :: "AssembledInstruction list \<Rightarrow> nat \<Rightarrow> nat" where
  "local_index instrs n =
     length (filter (\<lambda>i. is_execution i = is_execution (instrs ! n)) (take n instrs))"

text \<open>The counter that the writing loop uses for a word of the given section.\<close>

definition section_count :: "assemble_output \<Rightarrow> bool \<Rightarrow> int32" where
  "section_count out is_exec = (if is_exec then execution_count out else preload_count out)"

subsection \<open>The combined memory file (\<open>main\<close>, lines 597-730)\<close>

text \<open>
  \<open>std::regex_search\<close> with the pattern \<open>pe(\d+)_\<close>: the digits of the leftmost
  occurrence of \<open>pe\<close> that is followed by at least one digit and, after the last of the
  digits, by an underscore.
\<close>

fun regex_pe :: "string \<Rightarrow> string option" where
  "regex_pe [] = None"
| "regex_pe (c # cs) =
     (let digits = takeWhile is_digit (drop 2 (c # cs));
          after = dropWhile is_digit (drop 2 (c # cs))
      in if prefix ''pe'' (c # cs) \<and> digits \<noteq> [] \<and> prefix ''_'' after then Some digits
         else regex_pe cs)"

text \<open>
  The PE number of an assembly file (lines 650-669): \<open>std::stoi\<close> of the digits, and
  \<open>0xFFFF\<close> when the name does not match. PE numbers are plain \<open>int\<close>s here; the one
  place where the source does arithmetic on them, \<open>entry.first + 1\<close>, has its wrap-around
  written out.
\<close>

definition pe_number_of :: "string \<Rightarrow> error + int" where
  "pe_number_of assembly_file =
     (case regex_pe assembly_file of
        None \<Rightarrow> Inr 0xFFFF
      | Some pe_num \<Rightarrow> stoi pe_num)"

definition wrap32 :: "int \<Rightarrow> int" where
  "wrap32 i = (i + 2 ^ 31) mod 2 ^ 32 - 2 ^ 31"

text \<open>
  The loop over the file list (lines 644-687). The file system is a partial map from a
  path to the lines of the file; \<open>all_memory_entries\<close>, a \<open>std::map\<close> from PE number to
  entries, is an association list with one pair per key. A file that cannot be opened
  leaves the fresh empty entry list of its PE number; an exception ends the program.
\<close>

fun process_files ::
  "(string \<rightharpoonup> string list) \<Rightarrow> string list \<Rightarrow> (int \<times> string list) list
     \<Rightarrow> error + (int \<times> string list) list" where
  "process_files fs [] all_memory_entries = Inr all_memory_entries"
| "process_files fs (assembly_file # rest) all_memory_entries =
     (if assembly_file = [] \<or> hd assembly_file = CHR ''#''
      then process_files fs rest all_memory_entries
      else bind_err (pe_number_of assembly_file) (\<lambda>pe_number.
        case fs assembly_file of
          None \<Rightarrow> process_files fs rest (AList.update pe_number [] all_memory_entries)
        | Some file_lines \<Rightarrow>
            bind_err (assemble (word_of_int pe_number) file_lines) (\<lambda>out.
              process_files fs rest
                (AList.update pe_number (mem_file out) all_memory_entries))))"

text \<open>The count of PEs (lines 694-699): the largest known PE number plus one, or 0.\<close>

definition count_pes :: "(int \<times> string list) list \<Rightarrow> int" where
  "count_pes all_memory_entries =
     foldl (\<lambda>total entry.
              if fst entry \<noteq> 0xFFFF then max total (wrap32 (fst entry + 1)) else total)
       0 all_memory_entries"

text \<open>
  The blocks written to the combined file (lines 704-720), each with its marker: the loop
  \<open>for (int pe = 0; pe < total_pes; pe++)\<close> over the PE numbers present in the map, then
  the entries stored under \<open>0xFFFF\<close>.
\<close>

datatype block_marker = PE_block int | Unknown_block

definition combined_blocks :: "(int \<times> string list) list \<Rightarrow> (block_marker \<times> string list) list" where
  "combined_blocks all_memory_entries =
     concat (map (\<lambda>pe. case map_of all_memory_entries pe of
                          None \<Rightarrow> []
                        | Some entries \<Rightarrow> [(PE_block pe, entries)])
               (map int [0..<nat (count_pes all_memory_entries)]))
     @ (case map_of all_memory_entries 0xFFFF of
          None \<Rightarrow> []
        | Some entries \<Rightarrow> [(Unknown_block, entries)])"

text \<open>The lines of the combined file (lines 690-720).\<close>

fun block_lines :: "block_marker \<times> string list \<Rightarrow> string list" where
  "block_lines (PE_block pe, entries) =
     [[], ''// PE'' @ to_string pe @ '' memory entries''] @ entries"
| "block_lines (Unknown_block, entries) =
     [[], ''// Unknown PE memory entries''] @ entries"

definition combined_mem_file :: "(int \<times> string list) list \<Rightarrow> string list" where
  "combined_mem_file all_memory_entries =
     [''// Combined memory initialization file for all PEs'',
      ''// Format: @ADDRESS HEX_INSTRUCTION'',
      ''// Total PEs: '' @ to_string (count_pes all_memory_entries)]
     @ concat (map block_lines (combined_blocks all_memory_entries))"

text \<open>The PE numbers of the files that the loop processes.\<close>

definition processed_pe_numbers :: "string list \<Rightarrow> (error + int) set" where
  "processed_pe_numbers names =
     pe_number_of ` {n \<in> set names. \<not> (n = [] \<or> hd n = CHR ''#'')}"

subsection \<open>Notions used by the statements about the encoder\<close>

text \<open>A string of exactly \<open>k\<close> binary digits.\<close>

definition bits :: "nat \<Rightarrow> string \<Rightarrow> bool" where
  "bits k s = (length s = k \<and> list_all is_bin_digit s)"

text \<open>A lower-case hexadecimal digit.\<close>

definition is_hex_digit :: "char \<Rightarrow> bool" where
  "is_hex_digit c = (c \<in> set ''0123456789abcdef'')"

text \<open>The mnemonics for which some branch of the dispatch assigns \<open>result.binary\<close>.\<close>

definition recognized_mnemonics :: "string list" where
  "recognized_mnemonics =
     [''hwlrf.lui'', ''hwlrf.addi'', ''lui'', ''auipc'',
      ''add'', ''sub'', ''sll'', ''slt'', ''sltu'', ''xor'', ''srl'', ''sra'', ''or'', ''and'',
      ''mul'', ''slli'', ''srli'', ''srai'',
      ''addi'', ''slti'', ''sltiu'', ''xori'', ''ori'', ''andi'', ''jalr'',
      ''sb'', ''sh'', ''sw'',
      ''beq'', ''bne'', ''blt'', ''bge'', ''bltu'', ''bgeu'',
      ''jal'', ''ppsrf.addi'', ''corf.addi'', ''corf.lui'', ''ret'', ''nop'',
      ''psrf.lw'', ''psrf.lb'', ''psrf.zd.lw'', ''psrf.sw'', ''psrf.sb'']"

text \<open>
  The operands that the branch of a recognized mnemonic needs in order to assign
  \<open>result.binary\<close>: as many as the branch reads; where it calls \<open>std::stoi\<close> on an
  operand, a text that \<open>std::stoi\<close> converts; where it splits the second operand, the form
  \<open>offset(base)\<close> with both parentheses and an offset that is empty or such a text.
  Register names are not constrained: an unknown name is register 0.
\<close>

definition returns :: "error + 'a \<Rightarrow> bool" where
  "returns r = (case r of Inl e \<Rightarrow> False | Inr x \<Rightarrow> True)"

definition well_formed_operands :: "string \<Rightarrow> string list \<Rightarrow> bool" where
  "well_formed_operands opn args =
     (if opn \<in> set [''ret'', ''nop''] then True
      else if opn \<in> set [''add'', ''sub'', ''sll'', ''slt'', ''sltu'', ''xor'', ''srl'',
                          ''sra'', ''or'', ''and'', ''mul'']
      then 3 \<le> length args
      else if opn \<in> set [''sb'', ''sh'', ''sw'', ''psrf.lw'', ''psrf.lb'', ''psrf.zd.lw'',
                          ''psrf.sw'', ''psrf.sb'']
      then 2 \<le> length args
           \<and> (case parse_offset_base (args ! 1) of None \<Rightarrow> False | Some r \<Rightarrow> returns r)
      else if opn \<in> set [''hwlrf.lui'', ''lui'', ''auipc'', ''jal'', ''corf.lui'']
      then 2 \<le> length args \<and> returns (stoi (args ! 1))
      else 3 \<le> length args \<and> returns (stoi (args ! 2)))"

section \<open>Verification: immediate codec\<close>

subsection \<open>Constants as masks\<close>

lemma mask12_numeral: "(0xFFF :: 32 word) = mask 12"
  by (simp add: mask_eq_exp_minus_1)

lemma mask20_numeral: "(0xFFFFF :: 32 word) = mask 20"
  by (simp add: mask_eq_exp_minus_1)

lemma not_mask12_numeral: "(0xFFFFF000 :: 32 word) = NOT (mask 12)"
  by (simp add: mask_eq_exp_minus_1)

lemma bit11_test: "(w AND 0x800 \<noteq> 0) = bit (w :: 32 word) 11"
proof -
  have "(0x800 :: 32 word) = push_bit 11 1" by simp
  then show ?thesis by (simp only: bit_iff_and_push_bit_not_eq_0)
qed

subsection \<open>Splitting a value into upper and lower part\<close>

text \<open>A value in the signed 12-bit range is its own sign extension.\<close>

lemma signed12_small:
  assumes "-2048 \<le>s v" and "v \<le>s 2047"
  shows "signed12 v = v"
proof -
  have "- (2 ^ 11) \<le> sint v \<and> sint v < 2 ^ 11"
    using assms by (simp add: word_sle_eq)
  then have stable: "signed_take_bit 11 (sint v) = sint v"
    by (simp add: signed_take_bit_int_eq_self_iff)
  have "v OR NOT (mask 12) = v" if b11: "bit v 11"
  proof (rule bit_word_eqI)
    fix n assume "n < LENGTH(32)"
    have "bit v n" if "12 \<le> n" "n < 32"
    proof -
      have "bit (sint v) 11" using b11 by (simp add: bit_sint_iff)
      then have "bit (signed_take_bit 11 (sint v)) n"
        using that by (simp add: bit_signed_take_bit_iff min_def)
      then have "bit (sint v) n" by (simp only: stable)
      then show ?thesis using that by (auto simp add: bit_sint_iff)
    qed
    then show "bit (v OR NOT (mask 12)) n = bit v n"
      by (auto simp add: bit_simps)
  qed
  then show ?thesis
    by (simp add: signed12_def bit11_test not_mask12_numeral)
qed

lemma upper_part: "push_bit 12 (signed_drop_bit 12 v AND mask 20) = (v AND NOT (mask 12) :: 32 word)"
  by (rule bit_word_eqI) (auto simp add: bit_simps)

lemma upper_plus_lower: "(v AND NOT (mask 12)) + (v AND mask 12) = (v :: 32 word)"
proof -
  have "(v AND NOT (mask 12)) AND (v AND mask 12) = 0"
    by (rule bit_word_eqI) (simp add: bit_simps)
  then have "(v AND NOT (mask 12)) + (v AND mask 12) = (v AND NOT (mask 12)) OR (v AND mask 12)"
    by (rule disjunctive_add_eq_or)
  also have "\<dots> = v"
    by (rule bit_word_eqI) (auto simp add: bit_simps)
  finally show ?thesis .
qed

lemma lower_sign_extended: "(v AND mask 12) OR NOT (mask 12) = (v AND mask 12) - (4096 :: 32 word)"
proof -
  have "(v AND mask 12) AND NOT (mask 12) = 0"
    by (rule bit_word_eqI) (simp add: bit_simps)
  then have "(v AND mask 12) + NOT (mask 12) = (v AND mask 12) OR NOT (mask 12)"
    by (rule disjunctive_add_eq_or)
  moreover have "NOT (mask 12) = (- 4096 :: 32 word)"
    by (simp add: mask_eq_exp_minus_1)
  ultimately show ?thesis by simp
qed

lemma split_reconstructs:
  "push_bit 12 (fst (calculateLuiAddiValues v)) + signed12 (snd (calculateLuiAddiValues v)) = v"
proof (cases "-2048 \<le>s v \<and> v \<le>s 2047")
  case True
  then show ?thesis by (simp add: calculateLuiAddiValues_def signed12_small)
next
  case large: False
  have b: "bit (v AND mask 12) 11 = bit v 11" by (simp add: bit_simps)
  show ?thesis
  proof (cases "bit v 11")
    case True
    have "push_bit 12 ((signed_drop_bit 12 v AND mask 20) + 1) + ((v AND mask 12) OR NOT (mask 12)) = v"
      using upper_part [of v] upper_plus_lower [of v] lower_sign_extended [of v]
      by (simp add: push_bit_add)
    with True large show ?thesis
      by (auto simp add: calculateLuiAddiValues_def signed12_def Let_def bit11_test
          mask12_numeral mask20_numeral not_mask12_numeral b)
  next
    case False
    have "push_bit 12 (signed_drop_bit 12 v AND mask 20) + (v AND mask 12) = v"
      using upper_part [of v] upper_plus_lower [of v] by simp
    with False large show ?thesis
      by (auto simp add: calculateLuiAddiValues_def signed12_def Let_def bit11_test
          mask12_numeral mask20_numeral not_mask12_numeral b)
  qed
qed

text \<open>
  Claim C1. For every 32-bit value \<open>v\<close>, the pair \<open>(upper20, lower12)\<close> returned by
  \<open>calculateLuiAddiValues\<close> satisfies \<open>(upper20 << 12) + signed12(lower12) = v\<close> in
  32-bit arithmetic, where \<open>signed12\<close> sign-extends the 12-bit lower field. The
  function returns \<open>(1, 3000)\<close> for 3000, whose lower field reads \<open>-1096\<close> as a signed
  12-bit value, \<open>(1, 904)\<close> for 5000 and \<open>(0, 100)\<close> for 100.
\<close>

theorem calculateLuiAddiValues_roundtrip:
  "push_bit 12 (fst (calculateLuiAddiValues v)) + signed12 (snd (calculateLuiAddiValues v)) = v
   \<and> calculateLuiAddiValues 3000 = (1, 3000) \<and> sint (signed12 3000) = - 1096
   \<and> calculateLuiAddiValues 5000 = (1, 904) \<and> signed12 904 = 904
   \<and> calculateLuiAddiValues 100 = (0, 100) \<and> signed12 100 = 100"
  by (simp add: split_reconstructs) (simp add: calculateLuiAddiValues_def signed12_def)

subsection \<open>Packing the hardware-loop control word\<close>

text \<open>
  Claim C2. The specification packs the 6-bit span field from
  \<open>pc_stop - (pc_start + delayCycles)\<close>. For the descriptor \<open>pc_start = 10\<close>,
  \<open>pc_stop = 50\<close>, \<open>hwl_index = 2\<close>, \<open>iterations = 8\<close> and one delay cycle the code packs
  the span \<open>50 - 10 = 40\<close> where the specification asks for \<open>50 - 11 = 39\<close>; the other
  three fields agree.
\<close>

theorem calculateHWLImmediate_span_without_delay:
  "calculateHWLImmediate
     \<lparr>loop_id = 1, pc_start = 10, pc_stop = 50, hwl_index = 2, iterations = 8\<rparr> 1 = 97525768
   \<and> packHardwareLoop_spec
     \<lparr>loop_id = 1, pc_start = 10, pc_stop = 50, hwl_index = 2, iterations = 8\<rparr> 1 = 97394696
   \<and> drop_bit 17 (97525768 :: 32 word) AND 0x3F = 40
   \<and> drop_bit 17 (97394696 :: 32 word) AND 0x3F = 39"
  by (simp add: calculateHWLImmediate_def packHardwareLoop_spec_def)

section \<open>Verification: address planner\<close>

text \<open>
  Claim C5. When a non-zero stride is configured for the base symbol, duplication factor 2
  gives \<open>base + stride * cluster + 100000\<close> for a PE id above 15 and
  \<open>base + stride * cluster\<close> otherwise; when the stride is absent or zero the base address
  is returned for every duplication factor.
\<close>

theorem calculateClusterBaseAddress_banks:
  "(mem_offsets (reg @ ''_offset'') = Some stride \<and> stride \<noteq> 0 \<longrightarrow>
      calculateClusterBaseAddress mem_config mem_offsets reg cluster 2 pe =
        (if 15 <s pe then lookup0 mem_config reg + stride * cluster + 100000
         else lookup0 mem_config reg + stride * cluster))
   \<and> (mem_offsets (reg @ ''_offset'') = None \<or> mem_offsets (reg @ ''_offset'') = Some 0 \<longrightarrow>
      calculateClusterBaseAddress mem_config mem_offsets reg cluster data_dup pe =
        lookup0 mem_config reg)"
  by (auto simp add: calculateClusterBaseAddress_def lookup0_def)

text \<open>
  The specification's vector: base 4096, stride 256, duplication 2, 16 PEs per cluster and
  PE 20 give cluster 1 and the address 104352; PE 7 stays in the first bank, and a zero or
  absent stride leaves the base.
\<close>

theorem calculateClusterBaseAddress_banks_witness:
  "getClusterNumber 16 20 = Inr 1
   \<and> calculateClusterBaseAddress [''x5'' \<mapsto> 4096] [''x5_offset'' \<mapsto> 256] ''x5'' 1 2 20 = 104352
   \<and> calculateClusterBaseAddress [''x5'' \<mapsto> 4096] [''x5_offset'' \<mapsto> 256] ''x5'' 1 2 7 = 4352
   \<and> calculateClusterBaseAddress [''x5'' \<mapsto> 4096] [''x5_offset'' \<mapsto> 0] ''x5'' 1 2 20 = 4096
   \<and> calculateClusterBaseAddress [''x5'' \<mapsto> 4096] Map.empty ''x5'' 1 4 20 = 4096"
  using calculateClusterBaseAddress_banks
          [of "[''x5_offset'' \<mapsto> 256]" "''x5''" 256 "[''x5'' \<mapsto> 4096]" 1 20]
        calculateClusterBaseAddress_banks
          [of "[''x5_offset'' \<mapsto> 256]" "''x5''" 256 "[''x5'' \<mapsto> 4096]" 1 7]
        calculateClusterBaseAddress_banks
          [of "[''x5_offset'' \<mapsto> 0]" "''x5''" 0 "[''x5'' \<mapsto> 4096]" 1 20 2]
        calculateClusterBaseAddress_banks
          [of "Map.empty" "''x5''" 0 "[''x5'' \<mapsto> 4096]" 1 20 4]
  by (simp add: getClusterNumber_def lookup0_def)

section \<open>Verification: preload section\<close>

lemma key_register_c:
  assumes "n < 6"
  shows "key_register (CHR ''c'' # to_string (int n)) = Inr (word_of_nat n)"
proof -
  from assms have "n = 0 \<or> n = 1 \<or> n = 2 \<or> n = 3 \<or> n = 4 \<or> n = 5" by arith
  then show ?thesis
    by (elim disjE)
       (simp_all add: key_register_def to_string_def nat_to_string.simps digit_char_def stoi_def
          is_space_def is_digit_def digits_value_def digit_val_def bind_err_def Let_def)
qed

text \<open>
  Claim C6. The claim chooses the two-instruction form by the magnitude of the
  coefficient; the code tests \<open>value > 4095\<close> (line 224), a signed comparison, although
  its comment gives the range of \<open>corf.addi\<close> as 0 to 4095 and speaks of negative values.
  For the coefficient \<open>-5000\<close>, of magnitude 5000, \<open>generatePreloadSection\<close> returns the
  single line \<open>corf.addi c0, c0, -5000\<close>, where the claim has \<open>corf.lui\<close> of \<open>-2\<close> and
  \<open>corf.addi\<close> of 3192. The 12-bit immediate field cannot hold \<open>-5000\<close>: the encoder of
  the assembler gives the line the word of \<open>corf.addi c0, c0, 3192\<close>.
\<close>

theorem coefficient_magnitude_not_tested:
  "generatePreloadSection
       \<lparr>pe_id = 0,
        instructions =
          [\<lparr>instr_operation = ''psrf.lw'', instr_ra1 = ''x1'', instr_ra2 = ''null'',
            instr_rd = ''null'', instr_base_address = ''x5'', instr_format = ''psrf-mem-type'',
            instr_coefficients = [(''c0'', - 5000)], instr_var = None, instr_psrf_var = [],
            instr_hwl = None, instr_imm = 0, instr_target = [], instr_address = 0,
            instr_offset = 0\<rparr>],
        has_psrf_mem_type = True, has_mem_type = False, required_base_registers = {''x5''},
        has_hwl = False\<rparr>
     = Inr (''    # Preload section for PSRF variables and coefficients'' @ [CHR 0x0A]
          @ ''    # Using var=0 (registers 0-5)'' @ [CHR 0x0A]
          @ ''    corf.addi c0, c0, -5000'' @ [CHR 0x0A] @ [CHR 0x0A])
   \<and> coefficient_lines 0 (''c0'', - 5000) = Inr [Corf_addi 0 0 (- 5000)]
   \<and> 4095 < \<bar>sint (- 5000 :: int32)\<bar>
   \<and> coefficient_lines_spec 0 (''c0'', - 5000) = Inr [Corf_lui 0 (- 2), Corf_addi 0 0 3192]
   \<and> assemble_corf_addi ''corf.addi'' ''c0'' ''c0'' (- 5000)
       = assemble_corf_addi ''corf.addi'' ''c0'' ''c0'' 3192"
proof -
  have k: "key_register ''c0'' = Inr 0"
    by (simp add: key_register_def stoi_def is_space_def is_digit_def digits_value_def
        digit_val_def bind_err_def Let_def)
  have c: "coefficient_lines 0 (''c0'', - 5000) = Inr [Corf_addi 0 0 (- 5000)]"
    by (simp add: coefficient_lines_def k bind_err_def)
  have m: "4095 < \<bar>sint (- 5000 :: int32)\<bar>"
    by simp
  have d: "signed_drop_bit 12 (- 5000 :: int32) = - 2" "(- 5000 :: int32) AND 0xFFF = 3192"
    by simp_all
  have sp: "coefficient_lines_spec 0 (''c0'', - 5000) = Inr [Corf_lui 0 (- 2), Corf_addi 0 0 3192]"
    using m by (simp add: coefficient_lines_spec_def k bind_err_def d)
  have g: "generatePreloadSection
       \<lparr>pe_id = 0,
        instructions =
          [\<lparr>instr_operation = ''psrf.lw'', instr_ra1 = ''x1'', instr_ra2 = ''null'',
            instr_rd = ''null'', instr_base_address = ''x5'', instr_format = ''psrf-mem-type'',
            instr_coefficients = [(''c0'', - 5000)], instr_var = None, instr_psrf_var = [],
            instr_hwl = None, instr_imm = 0, instr_target = [], instr_address = 0,
            instr_offset = 0\<rparr>],
        has_psrf_mem_type = True, has_mem_type = False, required_base_registers = {''x5''},
        has_hwl = False\<rparr>
     = Inr (''    # Preload section for PSRF variables and coefficients'' @ [CHR 0x0A]
          @ ''    # Using var=0 (registers 0-5)'' @ [CHR 0x0A]
          @ ''    corf.addi c0, c0, -5000'' @ [CHR 0x0A] @ [CHR 0x0A])"
    by (simp add: generatePreloadSection_def preload_lines_def instruction_preload_lines_def
        c bind_err_def Let_def to_string_def nat_to_string.simps digit_char_def)
  have a: "to_binary (- 5000) 12 = ''110001111000''" "to_binary 3192 12 = ''110001111000''"
    by (simp_all add: to_binary_def upt_rec)
  have e: "assemble_corf_addi ''corf.addi'' ''c0'' ''c0'' (- 5000)
       = assemble_corf_addi ''corf.addi'' ''c0'' ''c0'' 3192"
    by (simp add: assemble_corf_addi_def a)
  show ?thesis
    using g c m sp e by blast
qed

text \<open>
  What the loop body emits for a coefficient keyed \<open>c0\<close> to \<open>c5\<close>: nothing when the value
  is zero, the pair \<open>corf.lui\<close> of \<open>value >> 12\<close> and \<open>corf.addi\<close> of \<open>value & 0xFFF\<close>
  exactly when the value, as a signed integer, exceeds 4095, and a single \<open>corf.addi\<close> of
  the value otherwise. For values from \<open>-4095\<close> on this is the form that the magnitude
  selects.
\<close>

lemma coefficient_lines_forms:
  "n < 6 \<longrightarrow>
     coefficient_lines reg_base (''c'' @ to_string (int n), v) =
       Inr (if v = 0 then []
            else if 4095 <s v then
              [Corf_lui (reg_base + word_of_nat n) (signed_drop_bit 12 v),
               Corf_addi (reg_base + word_of_nat n) reg_base (v AND 0xFFF)]
            else [Corf_addi (reg_base + word_of_nat n) reg_base v])"
  by (simp add: coefficient_lines_def key_register_c bind_err_def Let_def)

lemma coefficient_lines_agree:
  assumes "- 4095 \<le>s v"
  shows "coefficient_lines reg_base (key, v) = coefficient_lines_spec reg_base (key, v)"
proof -
  have "- 4095 \<le> sint v" using assms by (simp add: word_sle_eq)
  then have "4095 < \<bar>sint v\<bar> \<longleftrightarrow> 4095 < sint v" by arith
  moreover have "4095 <s v \<longleftrightarrow> 4095 < sint v" by (simp add: word_sless_alt)
  ultimately show ?thesis
    by (simp add: coefficient_lines_def coefficient_lines_spec_def)
qed

lemma coefficient_lines_examples:
  "coefficient_lines 6 (''c1'', 5000) = Inr [Corf_lui 7 1, Corf_addi 7 6 904]
   \<and> coefficient_lines 6 (''c3'', 17) = Inr [Corf_addi 9 6 17]
   \<and> coefficient_lines 6 (''c3'', 4095) = Inr [Corf_addi 9 6 4095]
   \<and> coefficient_lines 6 (''c2'', 0) = Inr []"
  using coefficient_lines_forms [of 1 6 5000] coefficient_lines_forms [of 3 6 17]
        coefficient_lines_forms [of 3 6 4095] coefficient_lines_forms [of 2 6 0]
  by (simp add: to_string_def nat_to_string.simps digit_char_def)

section \<open>Verification: which PEs receive a program\<close>

lemma smod_nonneg_pos:
  assumes "0 \<le> (a::int)" "0 < b"
  shows "a smod b = a mod b"
  using assms by (cases "a = 0") (simp_all add: smod_int_alt_def)

lemma generateAssembly_pe_Emitted:
  assumes "0 \<le> pe" "0 < pes_per_cluster cfg" "generateAssembly_pe cfg pe = Inr r"
  shows "(\<exists>f p. r = Emitted f p) \<longleftrightarrow>
           pe mod pes_per_cluster cfg \<le> minimum_pes_required cfg
           \<and> 1 \<le> length (instructions (pe_assignments cfg ! nat (pe mod pes_per_cluster cfg)))
           \<and> length (instructions (pe_assignments cfg ! nat (pe mod pes_per_cluster cfg))) < 10000"
  using assms
  by (auto simp add: generateAssembly_pe_def smod_nonneg_pos Let_def Suc_le_eq
      split: if_splits sum.splits)

text \<open>
  The rounds that ended are those of an initial segment of the PEs; the loop handles all
  PEs exactly when nothing interrupts it, and an interruption comes from the round of the
  first PE without an outcome.
\<close>

lemma generateAssembly_loop_rounds:
  assumes "generateAssembly_loop cfg pes = (outs, stop)"
  shows "map fst outs = take (length outs) pes \<and> length outs \<le> length pes
         \<and> (stop = None \<longleftrightarrow> length outs = length pes)
         \<and> (\<forall>n < length outs. generateAssembly_pe cfg (pes ! n) = Inr (snd (outs ! n)))
         \<and> (\<forall>e. stop = Some e \<longrightarrow> generateAssembly_pe cfg (pes ! length outs) = Inl e)"
  using assms
proof (induction pes arbitrary: outs stop)
  case Nil
  then show ?case by simp
next
  case (Cons pe pes)
  show ?case
  proof (cases "generateAssembly_pe cfg pe")
    case (Inl e)
    then show ?thesis using Cons.prems by auto
  next
    case (Inr r)
    obtain outs' stop' where l: "generateAssembly_loop cfg pes = (outs', stop')"
      by (cases "generateAssembly_loop cfg pes")
    have o: "outs = (pe, r) # outs'" and s: "stop = stop'"
      using Cons.prems Inr l by simp_all
    from Cons.IH [OF l] have ih: "map fst outs' = take (length outs') pes"
      "length outs' \<le> length pes" "stop' = None \<longleftrightarrow> length outs' = length pes"
      "\<forall>n < length outs'. generateAssembly_pe cfg (pes ! n) = Inr (snd (outs' ! n))"
      "\<forall>e. stop' = Some e \<longrightarrow> generateAssembly_pe cfg (pes ! length outs') = Inl e"
      by simp_all
    have "\<forall>n < length outs. generateAssembly_pe cfg ((pe # pes) ! n) = Inr (snd (outs ! n))"
    proof (intro allI impI)
      fix n assume "n < length outs"
      then show "generateAssembly_pe cfg ((pe # pes) ! n) = Inr (snd (outs ! n))"
        using ih(4) Inr o by (cases n) simp_all
    qed
    then show ?thesis using ih(1,2,3,5) o s by simp
  qed
qed

lemma take_map_int_upt:
  assumes "k \<le> t"
  shows "take k (map int [0..<t]) = map int [0..<k]"
  using assms by (simp add: take_map min_def)

text \<open>
  Claim C8. The loop of \<open>generateAssembly\<close> handles the PEs \<open>0, 1, \<dots>\<close> in order, all of
  those below \<open>total_pes\<close> unless an exception ends the run. With a positive
  \<open>pes_per_cluster\<close>, a PE that the loop handles receives a program if and only if
  \<open>pe mod pes_per_cluster\<close> is at most \<open>minimum_pes_required\<close> and the instruction count of
  the assignment at that position is at least 1 and below 10000; every other PE that the
  loop handles is skipped by one of the two \<open>continue\<close>s. A PE that the loop does not reach
  has no outcome.
\<close>

theorem generateAssembly_emits_iff:
  assumes "generateAssembly cfg = (outs, stop)" and "0 \<le> pe" and "0 < pes_per_cluster cfg"
  shows "map fst outs = map int [0..<length outs]
         \<and> length outs \<le> nat (total_pes cfg)
         \<and> (stop = None \<longleftrightarrow> length outs = nat (total_pes cfg))
         \<and> (pe < int (length outs) \<longrightarrow>
              ((\<exists>f p. (pe, Emitted f p) \<in> set outs) \<longleftrightarrow>
                 pe mod pes_per_cluster cfg \<le> minimum_pes_required cfg
                 \<and> 1 \<le> length (instructions
                           (pe_assignments cfg ! nat (pe mod pes_per_cluster cfg)))
                 \<and> length (instructions
                           (pe_assignments cfg ! nat (pe mod pes_per_cluster cfg))) < 10000)
              \<and> ((\<exists>f p. (pe, Emitted f p) \<in> set outs) \<or> (pe, Skipped_minimum) \<in> set outs
                   \<or> (pe, Skipped_count) \<in> set outs))
         \<and> (int (length outs) \<le> pe \<longrightarrow> (\<forall>r. (pe, r) \<notin> set outs))"
proof -
  let ?pes = "map int [0..<nat (total_pes cfg)]"
  note rounds = generateAssembly_loop_rounds [OF assms(1) [unfolded generateAssembly_def]]
  have f: "map fst outs = take (length outs) ?pes" and l: "length outs \<le> length ?pes"
    and s: "stop = None \<longleftrightarrow> length outs = length ?pes"
    using rounds by blast+
  have l': "length outs \<le> nat (total_pes cfg)" using l by simp
  have r: "generateAssembly_pe cfg (int n) = Inr (snd (outs ! n))" if "n < length outs" for n
  proof -
    have "n < nat (total_pes cfg)" using that l' by simp
    then have "?pes ! n = int n" by simp
    moreover have "generateAssembly_pe cfg (?pes ! n) = Inr (snd (outs ! n))"
      using rounds that by blast
    ultimately show ?thesis by simp
  qed
  have fst_outs: "map fst outs = map int [0..<length outs]"
    using f take_map_int_upt [OF l'] by simp
  have nth_fst: "fst (outs ! n) = int n" if "n < length outs" for n
  proof -
    have "fst (outs ! n) = map fst outs ! n" using that by simp
    also have "\<dots> = int n" unfolding fst_outs using that by simp
    finally show ?thesis .
  qed
  have mem: "(pe, q) \<in> set outs \<longleftrightarrow> nat pe < length outs \<and> snd (outs ! nat pe) = q" for q
  proof
    assume "(pe, q) \<in> set outs"
    then obtain n where n: "n < length outs" "outs ! n = (pe, q)"
      by (auto simp add: in_set_conv_nth)
    then have "pe = int n" using nth_fst [OF n(1)] by simp
    then show "nat pe < length outs \<and> snd (outs ! nat pe) = q" using n by simp
  next
    assume a: "nat pe < length outs \<and> snd (outs ! nat pe) = q"
    then have "fst (outs ! nat pe) = pe" using nth_fst [of "nat pe"] assms(2) by simp
    then have "outs ! nat pe = (pe, q)" using a by (simp add: prod_eq_iff)
    then show "(pe, q) \<in> set outs" using a by (metis nth_mem)
  qed
  have beyond: "\<forall>r. (pe, r) \<notin> set outs" if "int (length outs) \<le> pe"
    using that mem by auto
  have handled: "((\<exists>f p. (pe, Emitted f p) \<in> set outs) \<longleftrightarrow>
                 pe mod pes_per_cluster cfg \<le> minimum_pes_required cfg
                 \<and> 1 \<le> length (instructions
                           (pe_assignments cfg ! nat (pe mod pes_per_cluster cfg)))
                 \<and> length (instructions
                           (pe_assignments cfg ! nat (pe mod pes_per_cluster cfg))) < 10000)
              \<and> ((\<exists>f p. (pe, Emitted f p) \<in> set outs) \<or> (pe, Skipped_minimum) \<in> set outs
                   \<or> (pe, Skipped_count) \<in> set outs)" if "pe < int (length outs)"
  proof -
    have n: "nat pe < length outs" using that assms(2) by simp
    have g: "generateAssembly_pe cfg pe = Inr (snd (outs ! nat pe))"
      using r [OF n] assms(2) by simp
    have e: "(pe, q) \<in> set outs \<longleftrightarrow> snd (outs ! nat pe) = q" for q
      using mem n by simp
    have "(\<exists>f p. snd (outs ! nat pe) = Emitted f p) \<or> snd (outs ! nat pe) = Skipped_minimum
          \<or> snd (outs ! nat pe) = Skipped_count"
      by (cases "snd (outs ! nat pe)") auto
    then show ?thesis
      using generateAssembly_pe_Emitted [OF assms(2) assms(3) g] by (simp add: e)
  qed
  have s': "stop = None \<longleftrightarrow> length outs = nat (total_pes cfg)" using s by simp
  show ?thesis
    using fst_outs l' s' handled beyond by blast
qed

subsection \<open>Runs that no exception ends\<close>

lemma collect_err_returns:
  "(\<forall>x \<in> set xs. \<exists>ys. f x = Inr ys) \<Longrightarrow> \<exists>zs. collect_err f xs = Inr zs"
proof (induction xs)
  case Nil
  then show ?case by simp
next
  case (Cons x xs)
  then obtain zs where "collect_err f xs = Inr zs" by auto
  moreover obtain ys where "f x = Inr ys" using Cons.prems by auto
  ultimately show ?case by (simp add: bind_err_def)
qed

text \<open>
  \<open>generatePreloadSection\<close> returns when every key with a non-zero value, in the
  instructions of format \<open>psrf-mem-type\<close>, holds a register number after its first
  character, as \<open>v0\<close> to \<open>v5\<close> and \<open>c0\<close> to \<open>c5\<close> do.
\<close>

lemma psrf_var_lines_returns:
  assumes "snd entry \<noteq> 0 \<longrightarrow> (\<exists>n. key_register (fst entry) = Inr n)"
  shows "\<exists>ls. psrf_var_lines reg_base entry = Inr ls"
  using assms by (cases entry) (auto simp add: psrf_var_lines_def bind_err_def)

lemma coefficient_lines_returns:
  assumes "snd entry \<noteq> 0 \<longrightarrow> (\<exists>n. key_register (fst entry) = Inr n)"
  shows "\<exists>ls. coefficient_lines reg_base entry = Inr ls"
  using assms by (cases entry) (auto simp add: coefficient_lines_def bind_err_def Let_def)

lemma instruction_preload_lines_returns:
  assumes "instr_format instr = ''psrf-mem-type'' \<longrightarrow>
             (\<forall>entry \<in> set (instr_psrf_var instr) \<union> set (instr_coefficients instr).
                snd entry \<noteq> 0 \<longrightarrow> (\<exists>n. key_register (fst entry) = Inr n))"
  shows "\<exists>ls. instruction_preload_lines instr = Inr ls"
proof (cases "instr_format instr = ''psrf-mem-type''")
  case False
  then show ?thesis by (simp add: instruction_preload_lines_def)
next
  case True
  define reg_base where "reg_base = (case instr_var instr of Some v \<Rightarrow> v | None \<Rightarrow> 0) * 6"
  have "\<forall>entry \<in> set (instr_psrf_var instr). \<exists>ls. psrf_var_lines reg_base entry = Inr ls"
    using assms True by (intro ballI psrf_var_lines_returns) simp
  then obtain vars where
    v: "collect_err (psrf_var_lines reg_base) (instr_psrf_var instr) = Inr vars"
    using collect_err_returns by blast
  have "\<forall>entry \<in> set (instr_coefficients instr).
          \<exists>ls. coefficient_lines reg_base entry = Inr ls"
    using assms True by (intro ballI coefficient_lines_returns) simp
  then obtain coefs where
    c: "collect_err (coefficient_lines reg_base) (instr_coefficients instr) = Inr coefs"
    using collect_err_returns by blast
  show ?thesis
    using True v c
    by (simp add: instruction_preload_lines_def Let_def bind_err_def reg_base_def)
qed

lemma generatePreloadSection_returns:
  assumes "\<forall>instr \<in> set (instructions a). instr_format instr = ''psrf-mem-type'' \<longrightarrow>
             (\<forall>entry \<in> set (instr_psrf_var instr) \<union> set (instr_coefficients instr).
                snd entry \<noteq> 0 \<longrightarrow> (\<exists>n. key_register (fst entry) = Inr n))"
  shows "\<exists>p. generatePreloadSection a = Inr p"
proof -
  have "\<forall>instr \<in> set (instructions a). \<exists>ls. instruction_preload_lines instr = Inr ls"
    using assms by (intro ballI instruction_preload_lines_returns) simp
  then obtain body where "collect_err instruction_preload_lines (instructions a) = Inr body"
    using collect_err_returns by blast
  then show ?thesis
    by (simp add: generatePreloadSection_def preload_lines_def bind_err_def)
qed

text \<open>
  No exception ends the run when \<open>pes_per_cluster\<close> is positive and every PE position
  that passes the first test has an assignment whose preload section can be generated.
\<close>

lemma generateAssembly_loop_completes:
  assumes "\<forall>pe \<in> set pes. \<exists>r. generateAssembly_pe cfg pe = Inr r"
  shows "snd (generateAssembly_loop cfg pes) = None"
  using assms
  by (induction pes) (auto simp add: split_beta)

lemma generateAssembly_completes:
  assumes "0 < pes_per_cluster cfg"
    and "\<forall>b. 0 \<le> b \<and> b < pes_per_cluster cfg \<and> b \<le> minimum_pes_required cfg
           \<longrightarrow> nat b < length (pe_assignments cfg)
               \<and> (\<exists>p. generatePreloadSection (pe_assignments cfg ! nat b) = Inr p)"
  shows "snd (generateAssembly cfg) = None"
  unfolding generateAssembly_def
proof (rule generateAssembly_loop_completes, rule ballI)
  fix x assume "x \<in> set (map int [0..<nat (total_pes cfg)])"
  then have x: "0 \<le> x" by auto
  have m: "0 \<le> x mod pes_per_cluster cfg" "x mod pes_per_cluster cfg < pes_per_cluster cfg"
    using assms(1) by simp_all
  show "\<exists>r. generateAssembly_pe cfg x = Inr r"
  proof (cases "x mod pes_per_cluster cfg \<le> minimum_pes_required cfg")
    case False
    then show ?thesis
      using assms(1) x by (simp add: generateAssembly_pe_def smod_nonneg_pos Let_def)
  next
    case True
    with assms(2) m have "nat (x mod pes_per_cluster cfg) < length (pe_assignments cfg)"
      and "\<exists>p. generatePreloadSection (pe_assignments cfg ! nat (x mod pes_per_cluster cfg)) = Inr p"
      by blast+
    then show ?thesis
      using assms(1) x m True
      by (auto simp add: generateAssembly_pe_def smod_nonneg_pos Let_def)
  qed
qed

text \<open>
  In the example configuration no exception ends the run: PE 3 (position 0, one
  instruction) receives a program, PE 4 (position 1, no instruction) and PE 5 (position 2,
  above the minimum) do not.
\<close>

lemma example_preload:
  "generatePreloadSection (pe_assignments example_config ! 0) =
     Inr (''    # Preload section for PSRF variables and coefficients'' @ [CHR 0x0A]
          @ ''    # Using var=1 (registers 6-11)'' @ [CHR 0x0A]
          @ ''    ppsrf.addi v6, v6, 4'' @ [CHR 0x0A]
          @ ''    corf.addi c6, c6, 7'' @ [CHR 0x0A]
          @ ''    corf.lui c7, 1'' @ [CHR 0x0A]
          @ ''    corf.addi c7, c6, 904'' @ [CHR 0x0A] @ [CHR 0x0A])"
  by (simp add: example_config_def example_instruction_def generatePreloadSection_def
        preload_lines_def instruction_preload_lines_def psrf_var_lines_def
        coefficient_lines_def key_register_def stoi_def
        is_space_def is_digit_def digits_value_def digit_val_def bind_err_def Let_def
        to_string_def nat_to_string.simps digit_char_def)

lemma example_run:
  "\<exists>p. generateAssembly example_config =
     ([(0, Emitted ''build/pe0_assembly.s'' p), (1, Skipped_count), (2, Skipped_minimum),
       (3, Emitted ''build/pe3_assembly.s'' p), (4, Skipped_count), (5, Skipped_minimum)],
      None)"
proof -
  obtain p where p: "generatePreloadSection (pe_assignments example_config ! 0) = Inr p"
    using example_preload by blast
  have a: "pe_assignments example_config ! 0 = hd (pe_assignments example_config)"
    by (simp add: example_config_def)
  have g: "generateAssembly_pe example_config 0 = Inr (Emitted ''build/pe0_assembly.s'' p)"
    "generateAssembly_pe example_config 1 = Inr Skipped_count"
    "generateAssembly_pe example_config 2 = Inr Skipped_minimum"
    "generateAssembly_pe example_config 3 = Inr (Emitted ''build/pe3_assembly.s'' p)"
    "generateAssembly_pe example_config 4 = Inr Skipped_count"
    "generateAssembly_pe example_config 5 = Inr Skipped_minimum"
    using p
    by (simp_all add: generateAssembly_pe_def example_config_def example_instruction_def
        smod_int_alt_def to_string_def nat_to_string.simps digit_char_def)
  have "map int [0..<nat (total_pes example_config)] = [0, 1, 2, 3, 4, 5]"
    by (simp add: example_config_def upt_rec)
  then show ?thesis
    by (simp add: generateAssembly_def g)
qed

theorem generateAssembly_emits_iff_witness:
  "(\<exists>p. generateAssembly example_config =
     ([(0, Emitted ''build/pe0_assembly.s'' p), (1, Skipped_count), (2, Skipped_minimum),
       (3, Emitted ''build/pe3_assembly.s'' p), (4, Skipped_count), (5, Skipped_minimum)],
      None))
   \<and> (3::int) mod pes_per_cluster example_config \<le> minimum_pes_required example_config
   \<and> length (instructions (pe_assignments example_config
         ! nat (3 mod pes_per_cluster example_config))) = 1
   \<and> length (instructions (pe_assignments example_config
         ! nat (4 mod pes_per_cluster example_config))) = 0
   \<and> \<not> (5::int) mod pes_per_cluster example_config \<le> minimum_pes_required example_config"
proof -
  obtain p where run: "generateAssembly example_config =
     ([(0, Emitted ''build/pe0_assembly.s'' p), (1, Skipped_count), (2, Skipped_minimum),
       (3, Emitted ''build/pe3_assembly.s'' p), (4, Skipped_count), (5, Skipped_minimum)],
      None)"
    using example_run by blast
  have t: "0 < pes_per_cluster example_config"
    by (simp add: example_config_def)
  show ?thesis
    using generateAssembly_emits_iff [OF run, of 3, OF _ t]
      generateAssembly_emits_iff [OF run, of 4, OF _ t]
      generateAssembly_emits_iff [OF run, of 5, OF _ t] run
    by (simp add: example_config_def)
qed

text \<open>
  In the configuration with the key \<open>cx\<close> the round of PE 0 opens its file and
  \<open>std::stoi\<close> raises \<open>std::invalid_argument\<close>: the loop ends there, and PE 1, which
  passes both tests, has no outcome.
\<close>

lemma generateAssembly_interrupted:
  "generateAssembly interrupted_config =
     ([], Some (Invalid_argument, Some ''build/pe0_assembly.s''))
   \<and> 1 mod pes_per_cluster interrupted_config \<le> minimum_pes_required interrupted_config
   \<and> length (instructions (pe_assignments interrupted_config
         ! nat (1 mod pes_per_cluster interrupted_config))) = 1"
proof -
  have "generatePreloadSection (pe_assignments interrupted_config ! 0) = Inl Invalid_argument"
    by (simp add: interrupted_config_def example_instruction_def generatePreloadSection_def
        preload_lines_def instruction_preload_lines_def psrf_var_lines_def
        coefficient_lines_def key_register_def stoi_def
        is_space_def is_digit_def digits_value_def digit_val_def bind_err_def Let_def)
  then have "generateAssembly_pe interrupted_config 0 =
      Inl (Invalid_argument, Some ''build/pe0_assembly.s'')"
    by (simp add: generateAssembly_pe_def interrupted_config_def example_instruction_def
        to_string_def nat_to_string.simps digit_char_def)
  moreover have "map int [0..<nat (total_pes interrupted_config)] = [0, 1]"
    by (simp add: interrupted_config_def upt_rec)
  ultimately show ?thesis
    by (simp add: generateAssembly_def) (simp add: interrupted_config_def)
qed

section \<open>Verification: memory image addresses\<close>

subsection \<open>Fields of an address\<close>

lemma mask8_numeral: "(0xFF :: 32 word) = mask 8"
  by (simp add: mask_eq_exp_minus_1)

lemma small_no_high_bit:
  assumes "(c :: 32 word) < 2 ^ k" and "k \<le> m"
  shows "\<not> bit c m"
proof -
  have "c AND mask k = c" using assms(1) by (rule less_mask_eq)
  then have "bit c m = bit (c AND mask k) m" by simp
  also have "\<dots> = False" using assms(2) by (simp add: bit_simps)
  finally show ?thesis by simp
qed

lemma mem_address_fields:
  "mem_address pe s c = push_bit 10 (pe AND mask 8) OR push_bit 9 (section_bit s) OR c"
  by (simp add: mem_address_def mask8_numeral section_bit_def)

lemma pe_field_of_address:
  assumes "(c :: 32 word) < 1024"
  shows "drop_bit 10 (mem_address pe s c) = pe AND 0xFF"
proof (rule bit_word_eqI)
  fix n assume n: "n < LENGTH(32)"
  have c: "\<not> bit c (10 + n)"
    using assms small_no_high_bit [of c 10 "10 + n"] by simp
  show "bit (drop_bit 10 (mem_address pe s c)) n = bit (pe AND 0xFF) n"
    using c n unfolding mem_address_fields mask8_numeral section_bit_def
    by (auto simp add: bit_simps)
qed

lemma section_bit_of_execution:
  assumes "(i :: 32 word) < 512"
  shows "\<not> bit (mem_address pe True i) 9"
  using small_no_high_bit [of i 9 9] assms
  unfolding mem_address_fields section_bit_def by (simp add: bit_simps)

lemma section_bit_of_preload: "bit (mem_address pe False j) 9"
  unfolding mem_address_fields section_bit_def by (simp add: bit_simps)

subsection \<open>The writing loop\<close>

lemma replicate_unfold: "replicate (numeral n) c = c # replicate (numeral n - 1) c"
  by (simp add: numeral_eq_Suc)

lemma local_index_0: "local_index instrs 0 = 0"
  by (simp add: local_index_def)

lemma local_index_Suc:
  "local_index (x # xs) (Suc n) =
     (if is_execution x = is_execution (xs ! n) then 1 else 0) + local_index xs n"
  by (simp add: local_index_def)

lemma write_entry_fields:
  "hex_file (write_entry pe out x) = hex_file out @ [hex x]"
  "mem_file (write_entry pe out x) =
     mem_file out @ [mem_entry (mem_address pe (is_execution x) (section_count out (is_execution x))) (hex x)]"
  "section_count (write_entry pe out x) e =
     section_count out e + (if is_execution x = e then 1 else 0)"
  by (auto simp add: write_entry_def section_count_def)

lemma foldl_write_entry_extends:
  "\<exists>hs ms. hex_file (foldl (write_entry pe) out xs) = hex_file out @ hs \<and> length hs = length xs
     \<and> mem_file (foldl (write_entry pe) out xs) = mem_file out @ ms \<and> length ms = length xs"
proof (induction xs arbitrary: out)
  case Nil
  show ?case by simp
next
  case (Cons x xs)
  from Cons.IH [of "write_entry pe out x"] obtain hs ms where
    "hex_file (foldl (write_entry pe) (write_entry pe out x) xs) = hex_file (write_entry pe out x) @ hs"
    "length hs = length xs"
    "mem_file (foldl (write_entry pe) (write_entry pe out x) xs) = mem_file (write_entry pe out x) @ ms"
    "length ms = length xs" by blast
  then show ?case
    by (simp add: write_entry_fields)
qed

lemma foldl_write_entry_nth:
  "n < length xs \<Longrightarrow>
     mem_file (foldl (write_entry pe) out xs) ! (length (mem_file out) + n) =
       mem_entry (mem_address pe (is_execution (xs ! n))
                   (section_count out (is_execution (xs ! n)) + word_of_nat (local_index xs n)))
                 (hex (xs ! n))"
proof (induction xs arbitrary: n out)
  case Nil
  then show ?case by simp
next
  case (Cons x xs)
  show ?case
  proof (cases n)
    case 0
    obtain ms where "mem_file (foldl (write_entry pe) (write_entry pe out x) xs)
        = mem_file (write_entry pe out x) @ ms"
      using foldl_write_entry_extends [of pe "write_entry pe out x" xs] by blast
    then show ?thesis using 0
      by (simp add: write_entry_fields local_index_0 nth_append)
  next
    case (Suc m)
    then have m: "m < length xs" using Cons.prems by simp
    show ?thesis
      using Cons.IH [OF m, of "write_entry pe out x"] Suc
      by (simp add: write_entry_fields local_index_Suc algebra_simps)
  qed
qed

text \<open>
  Claim C4. The word at position \<open>n\<close> of a PE's assembled list is recorded at the address
  \<open>(pe & 0xFF) << 10 | section_bit << 9 | local_index\<close>, with section bit 1 for preload
  and 0 for execution and the local index counted from zero within the section. PE 3,
  execution index 5 is address \<open>0xC05\<close> (3077); PE 3, preload index 2 is \<open>0xE02\<close> (3586).
\<close>

theorem write_entries_address:
  "(n < length instrs \<longrightarrow>
      mem_file (write_entries pe instrs) ! n =
        mem_entry (push_bit 10 (pe AND 0xFF)
                     OR push_bit 9 (section_bit (is_execution (instrs ! n)))
                     OR word_of_nat (local_index instrs n))
                  (hex (instrs ! n)))
   \<and> mem_address 3 True 5 = 0xC05 \<and> mem_address 3 True 5 = 3077
   \<and> mem_address 3 False 2 = 0xE02 \<and> mem_address 3 False 2 = 3586"
proof -
  have "mem_file (write_entries pe instrs) ! n =
        mem_entry (push_bit 10 (pe AND 0xFF)
                     OR push_bit 9 (section_bit (is_execution (instrs ! n)))
                     OR word_of_nat (local_index instrs n))
                  (hex (instrs ! n))" if "n < length instrs"
    using foldl_write_entry_nth [OF that, of pe
        "\<lparr>hex_file = [], mem_file = [], preload_count = 0, execution_count = 0\<rparr>"]
    by (simp add: write_entries_def mem_address_fields mask8_numeral section_count_def)
  moreover have "mem_address 3 True 5 = 0xC05 \<and> mem_address 3 False 2 = 0xE02"
    by (simp add: mem_address_def)
  ultimately show ?thesis by simp
qed

text \<open>
  Six execution words of PE 3: the sixth has local index 5 and is recorded at \<open>0xc05\<close>;
  of three preload words the third is recorded at \<open>0xe02\<close>.
\<close>

theorem write_entries_address_witness:
  "mem_file (write_entries 3
      (replicate 6 \<lparr>op = ''nop'', binary = ''00000000000000000000000000010011'',
                     hex = ''00000013'', is_execution = True\<rparr>)) ! 5 = ''@00000c05 00000013''
   \<and> mem_file (write_entries 3
      (replicate 3 \<lparr>op = ''nop'', binary = ''00000000000000000000000000010011'',
                     hex = ''00000013'', is_execution = False\<rparr>)) ! 2 = ''@00000e02 00000013''"
  using write_entries_address [of 5 "replicate 6 \<lparr>op = ''nop'',
          binary = ''00000000000000000000000000010011'',
          hex = ''00000013'', is_execution = True\<rparr>" 3]
        write_entries_address [of 2 "replicate 3 \<lparr>op = ''nop'',
          binary = ''00000000000000000000000000010011'',
          hex = ''00000013'', is_execution = False\<rparr>" 3]
  by (simp add: local_index_def section_bit_def mem_entry_def pad_left_def nat_to_hex.simps
      hex_char_def replicate_unfold)

text \<open>
  Claim C3, as stated, fails: the counters are not bounded by the width of the index
  field. Execution index 512 of a PE is the address of its preload index 0, PE ids that
  agree in their low eight bits share their addresses (0 and 256; 255 and the value
  \<open>0xFFFF\<close> used for an unknown PE), and execution index 1024 of PE 0 is the address of
  execution index 0 of PE 1.
\<close>

theorem mem_address_collisions:
  "mem_address 0 True 512 = mem_address 0 False 0
   \<and> mem_address 0 True 0 = mem_address 256 True 0
   \<and> mem_address 255 False 3 = mem_address 0xFFFF False 3
   \<and> mem_address 0 True 1024 = mem_address 1 True 0"
  by (simp add: mem_address_def)

text \<open>
  Claim C3, amended. An execution address with local index below 512 differs from every
  preload address of the same PE. For local indices below 1024 the bits above the low ten
  of an address are the PE id's low eight bits, so the address lies in the 1024-word window
  of \<open>pe & 0xFF\<close>, and the addresses of two PEs whose ids differ in their low eight bits
  (in particular two distinct ids below 256) differ, whatever the sections.
\<close>

theorem mem_address_disjoint:
  "(i < 512 \<longrightarrow> mem_address pe True i \<noteq> mem_address pe False j)
   \<and> (pe1 AND 0xFF \<noteq> pe2 AND 0xFF \<and> i < 1024 \<and> j < 1024 \<longrightarrow>
        mem_address pe1 s1 i \<noteq> mem_address pe2 s2 j)
   \<and> (i < 1024 \<longrightarrow> drop_bit 10 (mem_address pe s i) = pe AND 0xFF)"
proof (intro conjI impI)
  assume "i < 512"
  then show "mem_address pe True i \<noteq> mem_address pe False j"
    using section_bit_of_execution [of i pe] section_bit_of_preload [of pe j] by auto
next
  assume a: "pe1 AND 0xFF \<noteq> pe2 AND 0xFF \<and> i < 1024 \<and> j < 1024"
  show "mem_address pe1 s1 i \<noteq> mem_address pe2 s2 j"
  proof
    assume "mem_address pe1 s1 i = mem_address pe2 s2 j"
    then have "drop_bit 10 (mem_address pe1 s1 i) = drop_bit 10 (mem_address pe2 s2 j)"
      by simp
    then show False using a by (simp add: pe_field_of_address)
  qed
next
  assume "i < 1024"
  then show "drop_bit 10 (mem_address pe s i) = pe AND 0xFF"
    by (rule pe_field_of_address)
qed

theorem mem_address_disjoint_witness:
  "mem_address 3 True 5 \<noteq> mem_address 3 False 5
   \<and> mem_address 3 True 5 \<noteq> mem_address 4 False 2
   \<and> drop_bit 10 (mem_address 3 False 2) = 3"
  using mem_address_disjoint [of 5 3 5 3 4 True False True]
        mem_address_disjoint [of 5 3 2 3 4 True False False]
        mem_address_disjoint [of 2 3 2 3 4 True False False]
  by simp

section \<open>Verification: the instruction encoder\<close>

subsection \<open>Bit strings and their hexadecimal rendering\<close>

lemma bits_append: "bits j s \<Longrightarrow> bits k t \<Longrightarrow> bits (j + k) (s @ t)"
  by (simp add: bits_def)

lemma bits_to_binary: "bits k (to_binary n k)"
  by (auto simp add: bits_def to_binary_def Let_def list_all_iff is_bin_digit_def)

lemma bits_substr:
  "bits k s \<Longrightarrow> pos + n \<le> k \<Longrightarrow> bits n (substr pos n s)"
  by (auto simp add: bits_def substr_def list_all_iff dest: in_set_takeD in_set_dropD)

lemma bin_value_bound_aux:
  "foldl (\<lambda>acc c. 2 * acc + (if c = CHR ''1'' then 1 else 0)) (a::nat) s < (a + 1) * 2 ^ length s"
proof (induction s arbitrary: a)
  case Nil
  show ?case by simp
next
  case (Cons c s)
  have "foldl (\<lambda>acc c. 2 * acc + (if c = CHR ''1'' then 1 else 0)) (2 * a + (if c = CHR ''1'' then 1 else 0)) s
      < (2 * a + (if c = CHR ''1'' then 1 else 0) + 1) * 2 ^ length s"
    by (rule Cons.IH)
  also have "\<dots> \<le> (2 * a + 2) * 2 ^ length s" by simp
  finally show ?case by (simp add: algebra_simps)
qed

lemma bin_value_bound: "bin_value s < 2 ^ length s"
  using bin_value_bound_aux [of 0 s] by (simp add: bin_value_def)

lemma nat_to_hex_length: "0 < k \<Longrightarrow> n < 16 ^ k \<Longrightarrow> length (nat_to_hex n) \<le> k"
proof (induction n arbitrary: k rule: nat_to_hex.induct)
  case (1 n)
  show ?case
  proof (cases "n < 16")
    case True
    then show ?thesis using "1.prems" by (simp add: nat_to_hex.simps [of n])
  next
    case False
    obtain j where j: "k = Suc j" using "1.prems" by (cases k) auto
    have "0 < j" using False "1.prems" j by (cases j) auto
    with j have k: "k = Suc j" "0 < j" by simp_all
    have "n div 16 < 16 ^ j" using "1.prems" k by (simp add: less_mult_imp_div_less)
    then have "length (nat_to_hex (n div 16)) \<le> j"
      using "1.IH" [OF False k(2)] by simp
    then show ?thesis using False k by (simp add: nat_to_hex.simps [of n])
  qed
qed

lemma stoul2_bits:
  assumes "bits k s" "0 < k" "k \<le> 64"
  shows "stoul2 s = Inr (bin_value s)"
proof -
  obtain c cs where s: "s = c # cs" using assms by (cases s) (auto simp add: bits_def)
  have c: "c = CHR ''0'' \<or> c = CHR ''1''" using assms s by (simp add: bits_def is_bin_digit_def)
  have all: "\<forall>x \<in> set s. is_bin_digit x" using assms by (simp add: bits_def list_all_iff)
  have d: "dropWhile is_space s = s" using c s by (auto simp add: is_space_def)
  have t: "takeWhile is_bin_digit s = s" using all by simp
  have "bin_value s < 2 ^ k" using bin_value_bound [of s] assms by (simp add: bits_def)
  also have "(2::nat) ^ k \<le> 2 ^ 64" by (rule power_increasing) (use assms in simp_all)
  finally have b: "bin_value s < 2 ^ 64" .
  have h: "hd s \<noteq> CHR ''-''" "hd s \<noteq> CHR ''+''" "s \<noteq> []" using c s by auto
  show ?thesis
    using h b by (simp add: stoul2_def Let_def d t)
qed

lemma to_hex_bits32:
  assumes "bits 32 s"
  shows "\<exists>h. to_hex s = Inr h \<and> length h = 8"
proof -
  have v: "stoul2 s = Inr (bin_value s)" using assms by (rule stoul2_bits) simp_all
  have "bin_value s < 2 ^ 32" using bin_value_bound [of s] assms by (simp add: bits_def)
  then have "bin_value s < 16 ^ 8" by simp
  then have "length (nat_to_hex (bin_value s)) \<le> 8" by (intro nat_to_hex_length) simp_all
  then show ?thesis by (simp add: to_hex_def v bind_err_def pad_left_def)
qed


lemmas table_defs = instructions_map_def funct3_map_def funct7_map_def lookup_str_def
  instructions_tab_def funct3_tab_def funct7_tab_def

lemma bits_simps:
  "bits k (to_binary n k)"
  "bits j s \<Longrightarrow> bits k t \<Longrightarrow> bits (j + k) (s @ t)"
  by (simp_all add: bits_to_binary bits_append)

lemma r_type_tables:
  assumes "opn = ''add'' \<or> opn = ''sub'' \<or> opn = ''sll'' \<or> opn = ''slt'' \<or> opn = ''sltu''
           \<or> opn = ''xor'' \<or> opn = ''srl'' \<or> opn = ''sra'' \<or> opn = ''or'' \<or> opn = ''and''
           \<or> opn = ''mul'' \<or> opn = ''slli'' \<or> opn = ''srli'' \<or> opn = ''srai''"
  shows "bits 7 (instructions_map opn) \<and> bits 3 (funct3_map opn) \<and> bits 7 (funct7_map opn)"
  using assms by (elim disjE) (simp_all add: table_defs bits_def is_bin_digit_def)

lemma i_type_tables:
  assumes "opn = ''addi'' \<or> opn = ''slti'' \<or> opn = ''sltiu'' \<or> opn = ''xori''
           \<or> opn = ''ori'' \<or> opn = ''andi'' \<or> opn = ''jalr''"
  shows "bits 7 (instructions_map opn) \<and> bits 3 (funct3_map opn)"
  using assms by (elim disjE) (simp_all add: table_defs bits_def is_bin_digit_def)

lemma s_type_tables:
  assumes "opn = ''sb'' \<or> opn = ''sh'' \<or> opn = ''sw''"
  shows "bits 7 (instructions_map opn) \<and> bits 3 (funct3_map opn)"
  using assms by (elim disjE) (simp_all add: table_defs bits_def is_bin_digit_def)

lemma b_type_tables:
  assumes "opn = ''beq'' \<or> opn = ''bne'' \<or> opn = ''blt'' \<or> opn = ''bge''
           \<or> opn = ''bltu'' \<or> opn = ''bgeu''"
  shows "bits 7 (instructions_map opn) \<and> bits 3 (funct3_map opn)"
  using assms by (elim disjE) (simp_all add: table_defs bits_def is_bin_digit_def)

lemma psrf_tables:
  assumes "opn = ''psrf.lw'' \<or> opn = ''psrf.lb'' \<or> opn = ''psrf.zd.lw''
           \<or> opn = ''psrf.sw'' \<or> opn = ''psrf.sb''"
  shows "bits 7 (instructions_map opn) \<and> bits 3 (funct3_map opn)"
  using assms by (elim disjE) (simp_all add: table_defs bits_def is_bin_digit_def)

lemma other_tables:
  "bits 7 (instructions_map ''lui'')" "bits 7 (instructions_map ''auipc'')"
  "bits 7 (instructions_map ''jal'')"
  "bits 7 (instructions_map ''hwlrf.lui'')" "bits 7 (instructions_map ''hwlrf.addi'')"
  "bits 3 (funct3_map ''hwlrf.addi'')"
  "bits 7 (instructions_map ''ppsrf.addi'')" "bits 3 (funct3_map ''ppsrf.addi'')"
  "bits 7 (instructions_map ''corf.addi'')" "bits 3 (funct3_map ''corf.addi'')"
  "bits 7 (instructions_map ''corf.lui'')"
  by (simp_all add: table_defs bits_def is_bin_digit_def)

lemma bits32I:
  "bits a s \<Longrightarrow> a = 32 \<Longrightarrow> bits 32 s"
  by simp

lemma assemble_r_type_bits:
  assumes "opn = ''add'' \<or> opn = ''sub'' \<or> opn = ''sll'' \<or> opn = ''slt'' \<or> opn = ''sltu''
           \<or> opn = ''xor'' \<or> opn = ''srl'' \<or> opn = ''sra'' \<or> opn = ''or'' \<or> opn = ''and''
           \<or> opn = ''mul'' \<or> opn = ''slli'' \<or> opn = ''srli'' \<or> opn = ''srai''"
    and "assemble_r_type opn rd rs1 rs2 = Inr bin"
  shows "bits 32 bin"
proof -
  have "bits (7 + (5 + (5 + (3 + (5 + 7))))) (funct7_map opn @ to_binary x 5 @ to_binary y 5
          @ funct3_map opn @ to_binary z 5 @ instructions_map opn)" for x y z
    using r_type_tables [OF assms(1)] by (intro bits_append bits_to_binary) simp_all
  then have b: "bits 32 (funct7_map opn @ to_binary x 5 @ to_binary y 5
          @ funct3_map opn @ to_binary z 5 @ instructions_map opn)" for x y z
    by simp
  show ?thesis
    using assms(2) b
    by (auto simp add: assemble_r_type_def Let_def bind_err_def split: if_splits sum.splits)
qed

lemma assemble_i_type_bits:
  assumes "opn = ''addi'' \<or> opn = ''slti'' \<or> opn = ''sltiu'' \<or> opn = ''xori''
           \<or> opn = ''ori'' \<or> opn = ''andi'' \<or> opn = ''jalr''"
  shows "bits 32 (assemble_i_type opn rd rs1 imm)"
proof -
  have "bits (12 + (5 + (3 + (5 + 7)))) (assemble_i_type opn rd rs1 imm)"
    unfolding assemble_i_type_def Let_def
    using i_type_tables [OF assms] by (intro bits_append bits_to_binary) simp_all
  then show ?thesis by simp
qed

lemma assemble_s_type_bits:
  assumes "opn = ''sb'' \<or> opn = ''sh'' \<or> opn = ''sw''"
  shows "bits 32 (assemble_s_type opn rs1 rs2 imm)"
proof -
  have "bits (7 + (5 + (5 + (3 + (5 + 7))))) (assemble_s_type opn rs1 rs2 imm)"
    unfolding assemble_s_type_def Let_def
    using s_type_tables [OF assms]
    by (intro bits_append bits_to_binary bits_substr [where k = 12]) simp_all
  then show ?thesis by simp
qed

lemma assemble_b_type_bits:
  assumes "opn = ''beq'' \<or> opn = ''bne'' \<or> opn = ''blt'' \<or> opn = ''bge''
           \<or> opn = ''bltu'' \<or> opn = ''bgeu''"
  shows "bits 32 (assemble_b_type opn rs1 rs2 imm)"
proof -
  have "bits (1 + (6 + (5 + (5 + (3 + (4 + (1 + 7))))))) (assemble_b_type opn rs1 rs2 imm)"
    unfolding assemble_b_type_def Let_def
    using b_type_tables [OF assms]
    by (intro bits_append bits_to_binary bits_substr [where k = 13]) simp_all
  then show ?thesis by simp
qed

lemma assemble_psrf_lw_sw_bits:
  assumes "opn = ''psrf.lw'' \<or> opn = ''psrf.lb'' \<or> opn = ''psrf.zd.lw''
           \<or> opn = ''psrf.sw'' \<or> opn = ''psrf.sb''"
  shows "bits 32 (assemble_psrf_lw_sw opn rd rs1 imm)"
proof -
  have "bits (12 + (5 + (3 + (5 + 7)))) (assemble_psrf_lw_sw opn rd rs1 imm)"
    unfolding assemble_psrf_lw_sw_def Let_def
    using psrf_tables [OF assms] by (intro bits_append bits_to_binary) simp_all
  then show ?thesis by simp
qed

lemma assemble_u_type_bits:
  assumes "opn = ''lui'' \<or> opn = ''auipc''"
  shows "bits 32 (assemble_u_type opn rd imm)"
proof -
  have "bits (20 + (5 + 7)) (assemble_u_type opn rd imm)"
    unfolding assemble_u_type_def Let_def
    using assms other_tables by (intro bits_append bits_to_binary) auto
  then show ?thesis by simp
qed

lemma assemble_j_type_bits: "bits 32 (assemble_j_type rd imm)"
proof -
  have "bits (1 + (10 + (1 + (8 + (5 + 7))))) (assemble_j_type rd imm)"
    unfolding assemble_j_type_def Let_def
    using other_tables
    by (intro bits_append bits_to_binary bits_substr [where k = 21]) simp_all
  then show ?thesis by simp
qed

lemma assemble_hwlrf_lui_bits: "bits 32 (assemble_hwlrf_lui rd imm)"
proof -
  have "bits (20 + (5 + 7)) (assemble_hwlrf_lui rd imm)"
    unfolding assemble_hwlrf_lui_def Let_def
    using other_tables by (intro bits_append bits_to_binary) simp_all
  then show ?thesis by simp
qed

lemma assemble_hwlrf_addi_bits: "bits 32 (assemble_hwlrf_addi rd rs1 imm)"
proof -
  have "bits (12 + (5 + (3 + (5 + 7)))) (assemble_hwlrf_addi rd rs1 imm)"
    unfolding assemble_hwlrf_addi_def Let_def
    using other_tables by (intro bits_append bits_to_binary) simp_all
  then show ?thesis by simp
qed

lemma assemble_ppsrf_addi_bits: "bits 32 (assemble_ppsrf_addi ''ppsrf.addi'' rd rs1 imm)"
proof -
  have "bits (12 + (5 + (3 + (5 + 7)))) (assemble_ppsrf_addi ''ppsrf.addi'' rd rs1 imm)"
    unfolding assemble_ppsrf_addi_def Let_def
    using other_tables by (intro bits_append bits_to_binary) simp_all
  then show ?thesis by simp
qed

lemma assemble_corf_addi_bits: "bits 32 (assemble_corf_addi ''corf.addi'' rd rs1 imm)"
proof -
  have "bits (12 + (5 + (3 + (5 + 7)))) (assemble_corf_addi ''corf.addi'' rd rs1 imm)"
    unfolding assemble_corf_addi_def Let_def
    using other_tables by (intro bits_append bits_to_binary) simp_all
  then show ?thesis by simp
qed

lemma assemble_corf_lui_bits: "bits 32 (assemble_corf_lui ''corf.lui'' rd imm)"
proof -
  have "bits (20 + (5 + 7)) (assemble_corf_lui ''corf.lui'' rd imm)"
    unfolding assemble_corf_lui_def Let_def
    using other_tables by (intro bits_append bits_to_binary) simp_all
  then show ?thesis by simp
qed

subsection \<open>The dispatch on the mnemonic\<close>

lemma bind_err_Inr:
  "bind_err r f = Inr y \<longleftrightarrow> (\<exists>x. r = Inr x \<and> f x = Inr y)"
  by (cases r) (simp_all add: bind_err_def)

lemma offset_base_case:
  assumes "(case parse_offset_base a of None \<Rightarrow> Inr []
            | Some r \<Rightarrow> bind_err r (\<lambda>(offs, base_reg). Inr (g offs base_reg))) = Inr bin"
    and "bin \<noteq> []"
  shows "\<exists>offs base_reg. bin = g offs base_reg"
  using assms by (auto simp add: bind_err_Inr split: option.splits)

lemma mnemonic_cases:
  obtains
      (hl) "opn = ''hwlrf.lui''"
    | (ha) "opn = ''hwlrf.addi''"
    | (u) "opn = ''lui'' \<or> opn = ''auipc''"
    | (r) "opn = ''add'' \<or> opn = ''sub'' \<or> opn = ''sll'' \<or> opn = ''slt'' \<or> opn = ''sltu''
           \<or> opn = ''xor'' \<or> opn = ''srl'' \<or> opn = ''sra'' \<or> opn = ''or'' \<or> opn = ''and''
           \<or> opn = ''mul'' \<or> opn = ''slli'' \<or> opn = ''srli'' \<or> opn = ''srai''"
    | (i) "opn = ''addi'' \<or> opn = ''slti'' \<or> opn = ''sltiu'' \<or> opn = ''xori''
           \<or> opn = ''ori'' \<or> opn = ''andi'' \<or> opn = ''jalr''"
    | (s) "opn = ''sb'' \<or> opn = ''sh'' \<or> opn = ''sw''"
    | (b) "opn = ''beq'' \<or> opn = ''bne'' \<or> opn = ''blt'' \<or> opn = ''bge''
           \<or> opn = ''bltu'' \<or> opn = ''bgeu''"
    | (j) "opn = ''jal''"
    | (pp) "opn = ''ppsrf.addi''"
    | (ca) "opn = ''corf.addi''"
    | (cl) "opn = ''corf.lui''"
    | (ret) "opn = ''ret'' \<or> opn = ''nop''"
    | (pl) "opn = ''psrf.lw'' \<or> opn = ''psrf.lb'' \<or> opn = ''psrf.zd.lw''"
    | (ps) "opn = ''psrf.sw'' \<or> opn = ''psrf.sb''"
    | (other) "\<not> (opn = ''hwlrf.lui'' \<or> opn = ''hwlrf.addi'' \<or> opn = ''lui'' \<or> opn = ''auipc''
           \<or> opn = ''add'' \<or> opn = ''sub'' \<or> opn = ''sll'' \<or> opn = ''slt'' \<or> opn = ''sltu''
           \<or> opn = ''xor'' \<or> opn = ''srl'' \<or> opn = ''sra'' \<or> opn = ''or'' \<or> opn = ''and''
           \<or> opn = ''mul'' \<or> opn = ''slli'' \<or> opn = ''srli'' \<or> opn = ''srai''
           \<or> opn = ''addi'' \<or> opn = ''slti'' \<or> opn = ''sltiu'' \<or> opn = ''xori''
           \<or> opn = ''ori'' \<or> opn = ''andi'' \<or> opn = ''jalr''
           \<or> opn = ''sb'' \<or> opn = ''sh'' \<or> opn = ''sw''
           \<or> opn = ''beq'' \<or> opn = ''bne'' \<or> opn = ''blt'' \<or> opn = ''bge''
           \<or> opn = ''bltu'' \<or> opn = ''bgeu'' \<or> opn = ''jal'' \<or> opn = ''ppsrf.addi''
           \<or> opn = ''corf.addi'' \<or> opn = ''corf.lui'' \<or> opn = ''ret'' \<or> opn = ''nop''
           \<or> opn = ''psrf.lw'' \<or> opn = ''psrf.lb'' \<or> opn = ''psrf.zd.lw''
           \<or> opn = ''psrf.sw'' \<or> opn = ''psrf.sb'')"
    by argo

lemma encode_bits:
  assumes "encode opn args = Inr bin" and "bin \<noteq> []"
  shows "bits 32 bin"
proof -
  note enc = assemble_i_type_bits assemble_s_type_bits assemble_b_type_bits
    assemble_psrf_lw_sw_bits assemble_u_type_bits assemble_j_type_bits assemble_hwlrf_lui_bits
    assemble_hwlrf_addi_bits assemble_ppsrf_addi_bits assemble_corf_addi_bits
    assemble_corf_lui_bits
  show ?thesis
  proof (cases opn rule: mnemonic_cases)

    case hl
    then show ?thesis using assms
      by (auto simp add: encode_def bind_err_Inr enc split: if_splits)
  next
    case ha
    then show ?thesis using assms
      by (auto simp add: encode_def bind_err_Inr enc split: if_splits)
  next
    case u
    then show ?thesis using assms
      by (auto simp add: encode_def bind_err_Inr enc split: if_splits)
  next
    case r
    then have e: "encode opn args = (if 3 \<le> length args
       then assemble_r_type opn (args ! 0) (args ! 1) (args ! 2) else Inr [])"
      by (elim disjE; hypsubst; simp add: encode_def)
    show ?thesis using assms assemble_r_type_bits [OF r] unfolding e
      by (auto split: if_splits)
  next
    case i
    then have e: "encode opn args = (if 3 \<le> length args
       then bind_err (stoi (args ! 2))
              (\<lambda>i. Inr (assemble_i_type opn (args ! 0) (args ! 1) (word_of_int i)))
       else Inr [])"
      by (elim disjE; hypsubst; simp add: encode_def)
    show ?thesis using assms assemble_i_type_bits [OF i] unfolding e
      by (auto simp add: bind_err_Inr split: if_splits)
  next
    case s
    then have e: "encode opn args = (if 2 \<le> length args then
         (case parse_offset_base (args ! 1) of
            None \<Rightarrow> Inr []
          | Some r \<Rightarrow> bind_err r (\<lambda>(offs, base_reg).
              Inr (assemble_s_type opn base_reg (args ! 0) offs)))
       else Inr [])"
      by (elim disjE; hypsubst; simp add: encode_def)
    show ?thesis using assms assemble_s_type_bits [OF s] unfolding e
      by (auto dest!: offset_base_case split: if_splits)
  next
    case b
    then have e: "encode opn args = (if 3 \<le> length args
       then bind_err (stoi (args ! 2))
              (\<lambda>i. Inr (assemble_b_type opn (args ! 0) (args ! 1) (word_of_int i)))
       else Inr [])"
      by (elim disjE; hypsubst; simp add: encode_def)
    show ?thesis using assms assemble_b_type_bits [OF b] unfolding e
      by (auto simp add: bind_err_Inr split: if_splits)
  next
    case j
    then show ?thesis using assms
      by (auto simp add: encode_def bind_err_Inr enc split: if_splits)
  next
    case pp
    then show ?thesis using assms
      by (auto simp add: encode_def bind_err_Inr enc split: if_splits)
  next
    case ca
    then show ?thesis using assms
      by (auto simp add: encode_def bind_err_Inr enc split: if_splits)
  next
    case cl
    then show ?thesis using assms
      by (auto simp add: encode_def bind_err_Inr enc split: if_splits)
  next
    case ret
    then show ?thesis using assms
      by (auto simp add: encode_def enc)
  next
    case pl
    then have e: "encode opn args = (if 2 \<le> length args then
           (case parse_offset_base (args ! 1) of
              None \<Rightarrow> Inr []
            | Some r \<Rightarrow> bind_err r (\<lambda>(offs, base_reg).
                Inr (assemble_psrf_lw_sw opn (args ! 0) base_reg offs)))
         else Inr [])"
      by (elim disjE; hypsubst; simp add: encode_def)
    have p: "opn = ''psrf.lw'' \<or> opn = ''psrf.lb'' \<or> opn = ''psrf.zd.lw''
           \<or> opn = ''psrf.sw'' \<or> opn = ''psrf.sb''" using pl by blast
    show ?thesis using assms assemble_psrf_lw_sw_bits [OF p] unfolding e
      by (auto dest!: offset_base_case split: if_splits)
  next
    case ps
    then have e: "encode opn args = (if 2 \<le> length args then
           (case parse_offset_base (args ! 1) of
              None \<Rightarrow> Inr []
            | Some r \<Rightarrow> bind_err r (\<lambda>(offs, base_reg).
                Inr (assemble_psrf_lw_sw opn (args ! 0) base_reg offs)))
         else Inr [])"
      by (elim disjE; hypsubst; simp add: encode_def)
    have p: "opn = ''psrf.lw'' \<or> opn = ''psrf.lb'' \<or> opn = ''psrf.zd.lw''
           \<or> opn = ''psrf.sw'' \<or> opn = ''psrf.sb''" using ps by blast
    show ?thesis using assms assemble_psrf_lw_sw_bits [OF p] unfolding e
      by (auto dest!: offset_base_case split: if_splits)
  next
    case other
    then have "encode opn args = Inr []"
      by (simp add: encode_def)
    then show ?thesis using assms by simp
  qed
qed

subsection \<open>Evaluating concrete lines\<close>

lemma to_hex_eval:
  "stoul2 b = Inr n \<Longrightarrow> pad_left 8 (CHR ''0'') (nat_to_hex n) = h \<Longrightarrow> to_hex b = Inr h"
  by (simp add: to_hex_def bind_err_def)

lemma parse_instruction_eval:
  assumes "split_op line = (opn, rest)"
    and "split_args (trim_string rest) False [] = args"
    and "encode opn args = Inr bin" and "bin \<noteq> []" and "to_hex bin = Inr h"
  shows "parse_instruction line = Inr \<lparr>op = opn, binary = bin, hex = h, is_execution = False\<rparr>"
  using assms by (simp add: parse_instruction_def bind_err_def)

lemmas reg_defs = lookup0_def registers_def registers_c_def registers_p_def hwl_registers_def
  upt_rec to_string_def nat_to_string.simps digit_char_def

lemmas stoi_defs = stoi_def is_space_def is_digit_def digits_value_def digit_val_def

lemmas hex_defs = stoul2_def is_space_def is_bin_digit_def bin_value_def

lemmas pad_defs = pad_left_def nat_to_hex.simps hex_char_def replicate_unfold

lemma addi_line:
  "parse_instruction ''addi x1, x2, -5'' =
     Inr \<lparr>op = ''addi'', binary = ''11111111101100010000000010010011'', hex = ''ffb10093'',
          is_execution = False\<rparr>"
proof (rule parse_instruction_eval)
  show "split_op ''addi x1, x2, -5'' = (''addi'', '' x1, x2, -5'')"
    by (simp add: split_op_def is_space_def)
  show "split_args (trim_string '' x1, x2, -5'') False [] = [''x1'', ''x2'', ''-5'']"
    by (simp add: trim_string_def is_space_def)
  have s: "stoi ''-5'' = Inr (- 5)" by (simp add: stoi_defs)
  have a: "assemble_i_type ''addi'' ''x1'' ''x2'' (- 5) = ''11111111101100010000000010010011''"
    by (simp add: assemble_i_type_def table_defs reg_defs to_binary_def)
  show "encode ''addi'' [''x1'', ''x2'', ''-5''] = Inr ''11111111101100010000000010010011''"
    by (simp add: encode_def s bind_err_def a)
  show "''11111111101100010000000010010011'' \<noteq> []" by simp
  show "to_hex ''11111111101100010000000010010011'' = Inr ''ffb10093''"
  proof (rule to_hex_eval)
    show "stoul2 ''11111111101100010000000010010011'' = Inr 4289790099" by (simp add: hex_defs)
    show "pad_left 8 CHR ''0'' (nat_to_hex 4289790099) = ''ffb10093''" by (simp add: pad_defs)
  qed
qed

subsection \<open>Hexadecimal digits\<close>

lemma hex_char_digit: "d < 16 \<Longrightarrow> is_hex_digit (hex_char d)"
  using nth_mem [of d "''0123456789abcdef''"] by (simp add: is_hex_digit_def hex_char_def)

lemma nat_to_hex_digits: "list_all is_hex_digit (nat_to_hex n)"
proof (induction n rule: nat_to_hex.induct)
  case (1 n)
  show ?case
  proof (cases "n < 16")
    case True
    then show ?thesis by (simp add: nat_to_hex.simps [of n] hex_char_digit)
  next
    case False
    then show ?thesis using "1.IH" by (simp add: nat_to_hex.simps [of n] hex_char_digit)
  qed
qed

lemma to_hex_digits:
  assumes "to_hex s = Inr h"
  shows "list_all is_hex_digit h"
proof -
  have "is_hex_digit (CHR ''0'')" by (simp add: is_hex_digit_def)
  then show ?thesis
    using assms nat_to_hex_digits
    by (auto simp add: to_hex_def bind_err_Inr pad_left_def list_all_iff)
qed

subsection \<open>Well-formed operands\<close>

lemma returns_Inr: "returns r \<longleftrightarrow> (\<exists>x. r = Inr x)"
  by (cases r) (simp_all add: returns_def)

lemma assemble_r_type_returns:
  assumes "opn = ''slli'' \<or> opn = ''srli'' \<or> opn = ''srai'' \<longrightarrow> returns (stoi rs2)"
  shows "\<exists>bin. assemble_r_type opn rd rs1 rs2 = Inr bin"
  using assms by (auto simp add: assemble_r_type_def Let_def bind_err_def returns_Inr)

lemma offset_base_returns:
  assumes "case parse_offset_base a of None \<Rightarrow> False | Some r \<Rightarrow> returns r"
  shows "\<exists>offs base_reg.
           (case parse_offset_base a of None \<Rightarrow> Inr []
            | Some r \<Rightarrow> bind_err r (\<lambda>(offs, base_reg). Inr (g offs base_reg)))
           = Inr (g offs base_reg)"
proof -
  from assms obtain offs base_reg where "parse_offset_base a = Some (Inr (offs, base_reg))"
    by (auto simp add: returns_Inr split: option.splits)
  then show ?thesis by (auto simp add: bind_err_def)
qed

lemma encode_well_formed:
  assumes "opn \<in> set recognized_mnemonics" and "well_formed_operands opn args"
  shows "\<exists>bin. encode opn args = Inr bin \<and> bits 32 bin"
proof -
  note enc = assemble_i_type_bits assemble_s_type_bits assemble_b_type_bits
    assemble_psrf_lw_sw_bits assemble_u_type_bits assemble_j_type_bits assemble_hwlrf_lui_bits
    assemble_hwlrf_addi_bits assemble_ppsrf_addi_bits assemble_corf_addi_bits
    assemble_corf_lui_bits
  show ?thesis
  proof (cases opn rule: mnemonic_cases)
    case hl
    then show ?thesis using assms(2)
      by (auto simp add: encode_def well_formed_operands_def returns_Inr bind_err_def enc)
  next
    case ha
    then show ?thesis using assms(2)
      by (auto simp add: encode_def well_formed_operands_def returns_Inr bind_err_def enc)
  next
    case u
    then have e: "encode opn args = (if 2 \<le> length args
       then bind_err (stoi (args ! 1)) (\<lambda>i. Inr (assemble_u_type opn (args ! 0) (word_of_int i)))
       else Inr [])"
      by (elim disjE; hypsubst; simp add: encode_def)
    have w: "2 \<le> length args \<and> returns (stoi (args ! 1))"
      using u assms(2) by (elim disjE; simp add: well_formed_operands_def)
    show ?thesis using w assemble_u_type_bits [OF u] unfolding e
      by (auto simp add: returns_Inr bind_err_def)
  next
    case r
    then have e: "encode opn args = (if 3 \<le> length args
       then assemble_r_type opn (args ! 0) (args ! 1) (args ! 2) else Inr [])"
      by (elim disjE; hypsubst; simp add: encode_def)
    have w: "3 \<le> length args
        \<and> (opn = ''slli'' \<or> opn = ''srli'' \<or> opn = ''srai'' \<longrightarrow> returns (stoi (args ! 2)))"
      using r assms(2) by (elim disjE; simp add: well_formed_operands_def)
    then obtain bin where "assemble_r_type opn (args ! 0) (args ! 1) (args ! 2) = Inr bin"
      using assemble_r_type_returns by blast
    then show ?thesis using w assemble_r_type_bits [OF r] unfolding e by auto
  next
    case i
    then have e: "encode opn args = (if 3 \<le> length args
       then bind_err (stoi (args ! 2))
              (\<lambda>i. Inr (assemble_i_type opn (args ! 0) (args ! 1) (word_of_int i)))
       else Inr [])"
      by (elim disjE; hypsubst; simp add: encode_def)
    have w: "3 \<le> length args \<and> returns (stoi (args ! 2))"
      using i assms(2) by (elim disjE; simp add: well_formed_operands_def)
    show ?thesis using w assemble_i_type_bits [OF i] unfolding e
      by (auto simp add: returns_Inr bind_err_def)
  next
    case s
    then have e: "encode opn args = (if 2 \<le> length args then
         (case parse_offset_base (args ! 1) of
            None \<Rightarrow> Inr []
          | Some r \<Rightarrow> bind_err r (\<lambda>(offs, base_reg).
              Inr (assemble_s_type opn base_reg (args ! 0) offs)))
       else Inr [])"
      by (elim disjE; hypsubst; simp add: encode_def)
    have w: "2 \<le> length args
        \<and> (case parse_offset_base (args ! 1) of None \<Rightarrow> False | Some r \<Rightarrow> returns r)"
      using s assms(2) by (elim disjE; simp add: well_formed_operands_def)
    with offset_base_returns [of "args ! 1" "\<lambda>offs base_reg. assemble_s_type opn base_reg (args ! 0) offs"]
    show ?thesis using assemble_s_type_bits [OF s] unfolding e by auto
  next
    case b
    then have e: "encode opn args = (if 3 \<le> length args
       then bind_err (stoi (args ! 2))
              (\<lambda>i. Inr (assemble_b_type opn (args ! 0) (args ! 1) (word_of_int i)))
       else Inr [])"
      by (elim disjE; hypsubst; simp add: encode_def)
    have w: "3 \<le> length args \<and> returns (stoi (args ! 2))"
      using b assms(2) by (elim disjE; simp add: well_formed_operands_def)
    show ?thesis using w assemble_b_type_bits [OF b] unfolding e
      by (auto simp add: returns_Inr bind_err_def)
  next
    case j
    then show ?thesis using assms(2)
      by (auto simp add: encode_def well_formed_operands_def returns_Inr bind_err_def enc)
  next
    case pp
    then show ?thesis using assms(2)
      by (auto simp add: encode_def well_formed_operands_def returns_Inr bind_err_def enc)
  next
    case ca
    then show ?thesis using assms(2)
      by (auto simp add: encode_def well_formed_operands_def returns_Inr bind_err_def enc)
  next
    case cl
    then show ?thesis using assms(2)
      by (auto simp add: encode_def well_formed_operands_def returns_Inr bind_err_def enc)
  next
    case ret
    then show ?thesis
      by (auto simp add: encode_def enc)
  next
    case pl
    then have e: "encode opn args = (if 2 \<le> length args then
           (case parse_offset_base (args ! 1) of
              None \<Rightarrow> Inr []
            | Some r \<Rightarrow> bind_err r (\<lambda>(offs, base_reg).
                Inr (assemble_psrf_lw_sw opn (args ! 0) base_reg offs)))
         else Inr [])"
      by (elim disjE; hypsubst; simp add: encode_def)
    have p: "opn = ''psrf.lw'' \<or> opn = ''psrf.lb'' \<or> opn = ''psrf.zd.lw''
           \<or> opn = ''psrf.sw'' \<or> opn = ''psrf.sb''" using pl by blast
    have w: "2 \<le> length args
        \<and> (case parse_offset_base (args ! 1) of None \<Rightarrow> False | Some r \<Rightarrow> returns r)"
      using pl assms(2) by (elim disjE; simp add: well_formed_operands_def)
    with offset_base_returns [of "args ! 1" "\<lambda>offs base_reg. assemble_psrf_lw_sw opn (args ! 0) base_reg offs"]
    show ?thesis using assemble_psrf_lw_sw_bits [OF p] unfolding e by auto
  next
    case ps
    then have e: "encode opn args = (if 2 \<le> length args then
           (case parse_offset_base (args ! 1) of
              None \<Rightarrow> Inr []
            | Some r \<Rightarrow> bind_err r (\<lambda>(offs, base_reg).
                Inr (assemble_psrf_lw_sw opn (args ! 0) base_reg offs)))
         else Inr [])"
      by (elim disjE; hypsubst; simp add: encode_def)
    have p: "opn = ''psrf.lw'' \<or> opn = ''psrf.lb'' \<or> opn = ''psrf.zd.lw''
           \<or> opn = ''psrf.sw'' \<or> opn = ''psrf.sb''" using ps by blast
    have w: "2 \<le> length args
        \<and> (case parse_offset_base (args ! 1) of None \<Rightarrow> False | Some r \<Rightarrow> returns r)"
      using ps assms(2) by (elim disjE; simp add: well_formed_operands_def)
    with offset_base_returns [of "args ! 1" "\<lambda>offs base_reg. assemble_psrf_lw_sw opn (args ! 0) base_reg offs"]
    show ?thesis using assemble_psrf_lw_sw_bits [OF p] unfolding e by auto
  next
    case other
    then show ?thesis using assms(1)
      by (simp add: recognized_mnemonics_def)
  qed
qed

subsection \<open>Encoded lines\<close>

lemma parse_instruction_Inr:
  assumes "parse_instruction line = Inr r"
  shows "\<exists>bin. encode (fst (split_op line))
                 (split_args (trim_string (snd (split_op line))) False []) = Inr bin
           \<and> binary r = bin \<and> op r = fst (split_op line)
           \<and> (bin \<noteq> [] \<longrightarrow> to_hex bin = Inr (hex r)) \<and> (bin = [] \<longrightarrow> hex r = [])"
  using assms
  by (auto simp add: parse_instruction_def bind_err_Inr Let_def split_beta split: if_splits)

text \<open>
  Claim C10. A line whose mnemonic is one of the recognized ones, of whatever format class,
  and whose operands are well formed is encoded: \<open>parse_instruction\<close> returns an
  instruction whose \<open>binary\<close> is a string of exactly 32 binary digits and whose \<open>hex\<close> is
  a string of exactly 8 hexadecimal digits. Moreover, whenever \<open>parse_instruction\<close>
  returns an instruction with a non-empty \<open>binary\<close>, whatever the mnemonic and the
  operands, \<open>binary\<close> and \<open>hex\<close> have this form.
\<close>

theorem parse_instruction_word_width:
  "(fst (split_op line) \<in> set recognized_mnemonics
      \<and> well_formed_operands (fst (split_op line))
          (split_args (trim_string (snd (split_op line))) False [])
     \<longrightarrow> (\<exists>r. parse_instruction line = Inr r \<and> op r = fst (split_op line)
              \<and> length (binary r) = 32 \<and> list_all is_bin_digit (binary r)
              \<and> length (hex r) = 8 \<and> list_all is_hex_digit (hex r)))
   \<and> (parse_instruction line = Inr r \<and> binary r \<noteq> []
     \<longrightarrow> length (binary r) = 32 \<and> list_all is_bin_digit (binary r)
         \<and> length (hex r) = 8 \<and> list_all is_hex_digit (hex r))"
proof (rule conjI; rule impI)
  assume a: "fst (split_op line) \<in> set recognized_mnemonics
      \<and> well_formed_operands (fst (split_op line))
          (split_args (trim_string (snd (split_op line))) False [])"
  then obtain bin where e: "encode (fst (split_op line))
      (split_args (trim_string (snd (split_op line))) False []) = Inr bin" and b: "bits 32 bin"
    using encode_well_formed by blast
  have ne: "bin \<noteq> []" using b by (auto simp add: bits_def)
  obtain h where h: "to_hex bin = Inr h" "length h = 8" using to_hex_bits32 [OF b] by blast
  have "parse_instruction line =
      Inr \<lparr>op = fst (split_op line), binary = bin, hex = h, is_execution = False\<rparr>"
    using e ne h by (simp add: parse_instruction_def bind_err_def Let_def split_beta)
  then show "\<exists>r. parse_instruction line = Inr r \<and> op r = fst (split_op line)
              \<and> length (binary r) = 32 \<and> list_all is_bin_digit (binary r)
              \<and> length (hex r) = 8 \<and> list_all is_hex_digit (hex r)"
    using b h to_hex_digits [OF h(1)] by (simp add: bits_def)
next
  assume a: "parse_instruction line = Inr r \<and> binary r \<noteq> []"
  from parse_instruction_Inr [of line r] a obtain bin where
    e: "encode (fst (split_op line)) (split_args (trim_string (snd (split_op line))) False []) = Inr bin"
    and b: "binary r = bin" and h: "bin \<noteq> [] \<longrightarrow> to_hex bin = Inr (hex r)"
    by blast
  have ne: "bin \<noteq> []" using a b by simp
  have bb: "bits 32 bin" using e ne by (rule encode_bits)
  obtain h' where "to_hex bin = Inr h'" "length h' = 8" using to_hex_bits32 [OF bb] by blast
  then have "length (hex r) = 8" "list_all is_hex_digit (hex r)"
    using h ne to_hex_digits [of bin "hex r"] by simp_all
  then show "length (binary r) = 32 \<and> list_all is_bin_digit (binary r)
         \<and> length (hex r) = 8 \<and> list_all is_hex_digit (hex r)"
    using bb b by (simp add: bits_def)
qed

subsection \<open>Unrecognized lines\<close>

lemma encode_unrecognized:
  assumes "opn \<notin> set recognized_mnemonics"
  shows "encode opn args = Inr []"
  using assms by (simp add: recognized_mnemonics_def encode_def)

lemma parse_unrecognized:
  assumes "fst (split_op line) \<notin> set recognized_mnemonics"
  shows "parse_instruction line =
           Inr \<lparr>op = fst (split_op line), binary = [], hex = [], is_execution = False\<rparr>"
  by (simp add: encode_unrecognized [OF assms] parse_instruction_def bind_err_def Let_def
      split_beta)

lemma read_lines_kept:
  assumes "\<not> skipped_line (trim_string line)"
  shows "read_lines s (line # rest) =
           bind_err (parse_instruction (trim_string line)) (\<lambda>instr.
             bind_err (read_lines s rest) (\<lambda>assembled.
               Inr (instr\<lparr>is_execution := s\<rparr> # assembled)))"
  using assms by (simp add: skipped_line_def Let_def)

lemma read_lines_skipped:
  assumes "skipped_line (trim_string line)"
  shows "read_lines s (line # rest) =
           read_lines (if contains_str ''Execution Section Begin'' (trim_string line)
                       then True else s) rest"
  using assms by (auto simp add: skipped_line_def Let_def)

lemma read_lines_append:
  "read_lines s (pre @ post) =
     bind_err (read_lines s pre) (\<lambda>a.
       bind_err (read_lines (section_after s pre) post) (\<lambda>b. Inr (a @ b)))"
proof (induction pre arbitrary: s)
  case Nil
  show ?case by (simp add: bind_err_def split: sum.splits)
next
  case (Cons l pre)
  show ?case
  proof (cases "skipped_line (trim_string l)")
    case True
    show ?thesis
      using True by (simp add: read_lines_skipped Cons.IH del: read_lines.simps)
  next
    case False
    show ?thesis
      using False
      by (simp add: read_lines_kept Cons.IH bind_err_def del: read_lines.simps
          split: sum.splits)
  qed
qed

lemma foldl_write_entry_hex:
  "hex_file (foldl (write_entry pe) out xs) = hex_file out @ map hex xs"
  by (induction xs arbitrary: out) (simp_all add: write_entry_fields)

lemma foldl_write_entry_count:
  "section_count (foldl (write_entry pe) out xs) e =
     section_count out e + word_of_nat (length (filter (\<lambda>x. is_execution x = e) xs))"
  by (induction xs arbitrary: out) (simp_all add: write_entry_fields)

lemma foldl_write_entry_mem:
  "length (mem_file (foldl (write_entry pe) out xs)) = length (mem_file out) + length xs"
  "take (length (mem_file out)) (mem_file (foldl (write_entry pe) out xs)) = mem_file out"
  using foldl_write_entry_extends [of pe out xs] by auto

lemma write_entries_lengths:
  "length (hex_file (write_entries pe xs)) = length xs"
  "length (mem_file (write_entries pe xs)) = length xs"
  by (simp_all add: write_entries_def foldl_write_entry_hex foldl_write_entry_mem)

text \<open>
  Claim C7, amended. A line that the reading loop does not skip (not empty after trimming,
  not starting with \<open>#\<close>, \<open>.\<close> or \<open>_\<close>, without a colon) and whose mnemonic no branch
  of the dispatch recognizes is parsed without error into an instruction with
  empty \<open>binary\<close> and empty \<open>hex\<close>, so no word is encoded for it; the instruction is
  nevertheless recorded like any other. Wherever the line stands in a file whose other lines
  are read without error, in the preload or in the execution section, and compared with
  the same file without the line: the hex output has an empty line more, at the position of
  the line among the instructions; the memory records have one record more, at that
  position, made of the next address of the line's section and no word; every later
  record keeps its word and its section, with an index one higher if it is of the line's
  section and the same index otherwise; the index counter of that section ends one higher,
  the other counter is the same.
\<close>

theorem unrecognized_line_recorded:
  assumes "\<not> skipped_line (trim_string line)"
    and "fst (split_op (trim_string line)) \<notin> set recognized_mnemonics"
    and "read_lines False pre = Inr before"
    and "read_lines (section_after False pre) post = Inr rest"
  shows "parse_instruction (trim_string line) =
           Inr \<lparr>op = fst (split_op (trim_string line)), binary = [], hex = [],
                is_execution = False\<rparr>
         \<and> (\<exists>out without.
              assemble pe (pre @ line # post) = Inr out
            \<and> assemble pe (pre @ post) = Inr without
            \<and> hex_file out = take (length before) (hex_file without) @ []
                               # drop (length before) (hex_file without)
            \<and> length (mem_file out) = length (mem_file without) + 1
            \<and> take (length before) (mem_file out) = take (length before) (mem_file without)
            \<and> mem_file out ! length before =
                mem_entry (mem_address pe (section_after False pre)
                             (section_count (write_entries pe before)
                                (section_after False pre))) []
            \<and> section_count out (section_after False pre) =
                section_count without (section_after False pre) + 1
            \<and> section_count out (\<not> section_after False pre) =
                section_count without (\<not> section_after False pre)
            \<and> (\<forall>n < length rest. \<exists>index.
                  mem_file without ! (length before + n) =
                    mem_entry (mem_address pe (is_execution (rest ! n)) index) (hex (rest ! n))
                  \<and> mem_file out ! (length before + 1 + n) =
                    mem_entry (mem_address pe (is_execution (rest ! n))
                       (if is_execution (rest ! n) = section_after False pre
                        then index + 1 else index)) (hex (rest ! n))))"
proof -
  define sec where "sec = section_after False pre"
  define entry where "entry = \<lparr>op = fst (split_op (trim_string line)), binary = [], hex = [],
                is_execution = sec\<rparr>"
  define out0 where "out0 = write_entries pe before"
  define out where "out = foldl (write_entry pe) (write_entry pe out0 entry) rest"
  define without where "without = foldl (write_entry pe) out0 rest"
  have p: "parse_instruction (trim_string line) =
           Inr \<lparr>op = fst (split_op (trim_string line)), binary = [], hex = [],
                is_execution = False\<rparr>"
    by (rule parse_unrecognized [OF assms(2)])
  have "read_lines sec (line # post) = Inr (entry # rest)"
    using assms(4) p
    by (simp add: read_lines_kept [OF assms(1)] bind_err_def entry_def sec_def
        del: read_lines.simps)
  then have "read_lines False (pre @ line # post) = Inr (before @ entry # rest)"
    using assms(3) by (simp add: read_lines_append bind_err_def sec_def del: read_lines.simps)
  then have a1: "assemble pe (pre @ line # post) = Inr out"
    by (simp add: assemble_def bind_err_def write_entries_def out_def out0_def)
  have "read_lines False (pre @ post) = Inr (before @ rest)"
    using assms(3,4) by (simp add: read_lines_append bind_err_def)
  then have a2: "assemble pe (pre @ post) = Inr without"
    by (simp add: assemble_def bind_err_def write_entries_def without_def out0_def)
  have l0: "length (hex_file out0) = length before" "length (mem_file out0) = length before"
    by (simp_all add: out0_def write_entries_lengths)
  have h: "hex_file out = take (length before) (hex_file without) @ []
                               # drop (length before) (hex_file without)"
    using l0 by (simp add: out_def without_def foldl_write_entry_hex write_entry_fields entry_def)
  have m1: "length (mem_file out) = length (mem_file without) + 1"
    by (simp add: out_def without_def foldl_write_entry_mem write_entry_fields)
  have "take (length (mem_file out0)) (mem_file without) = mem_file out0"
    unfolding without_def by (rule foldl_write_entry_mem)
  then have t2: "take (length before) (mem_file without) = mem_file out0"
    using l0 by simp
  obtain ms where ms: "mem_file out = mem_file (write_entry pe out0 entry) @ ms"
    using foldl_write_entry_extends [of pe "write_entry pe out0 entry" rest]
    unfolding out_def by blast
  have me: "mem_file out = mem_file out0
        @ mem_entry (mem_address pe sec (section_count out0 sec)) [] # ms"
    unfolding ms by (simp add: write_entry_fields entry_def)
  have t1: "take (length before) (mem_file out) = mem_file out0"
    unfolding me using l0 by simp
  have n: "mem_file out ! length before =
      mem_entry (mem_address pe sec (section_count out0 sec)) []"
    unfolding me using l0 by (simp add: nth_append)
  have c1: "section_count out sec = section_count without sec + 1"
    by (simp add: out_def without_def foldl_write_entry_count write_entry_fields entry_def)
  have c2: "section_count out (\<not> sec) = section_count without (\<not> sec)"
    by (simp add: out_def without_def foldl_write_entry_count write_entry_fields entry_def)
  have later: "\<exists>index.
        mem_file without ! (length before + k) =
          mem_entry (mem_address pe (is_execution (rest ! k)) index) (hex (rest ! k))
        \<and> mem_file out ! (length before + 1 + k) =
          mem_entry (mem_address pe (is_execution (rest ! k))
             (if is_execution (rest ! k) = sec then index + 1 else index)) (hex (rest ! k))"
    if k: "k < length rest" for k
  proof -
    define index where
      "index = section_count out0 (is_execution (rest ! k)) + word_of_nat (local_index rest k)"
    have "mem_file without ! (length (mem_file out0) + k) =
        mem_entry (mem_address pe (is_execution (rest ! k)) index) (hex (rest ! k))"
      unfolding without_def index_def by (rule foldl_write_entry_nth [OF k])
    moreover have "mem_file out ! (length (mem_file (write_entry pe out0 entry)) + k) =
        mem_entry (mem_address pe (is_execution (rest ! k))
          (section_count (write_entry pe out0 entry) (is_execution (rest ! k))
             + word_of_nat (local_index rest k))) (hex (rest ! k))"
      unfolding out_def by (rule foldl_write_entry_nth [OF k])
    ultimately show ?thesis
      using l0 by (intro exI [of _ index])
        (auto simp add: write_entry_fields entry_def index_def algebra_simps)
  qed
  show ?thesis
    using p a1 a2 h m1 t1 t2 n c1 c2 later unfolding sec_def out0_def by auto
qed

subsection \<open>Sample lines\<close>

lemma nop_line:
  "parse_instruction ''nop'' =
     Inr \<lparr>op = ''nop'', binary = ''00000000000000000000000000010011'', hex = ''00000013'',
          is_execution = False\<rparr>"
proof (rule parse_instruction_eval)
  show "split_op ''nop'' = (''nop'', [])"
    by (simp add: split_op_def is_space_def)
  show "split_args (trim_string []) False [] = []"
    by (simp add: trim_string_def)
  have a: "assemble_i_type ''addi'' ''x0'' ''x0'' 0 = ''00000000000000000000000000010011''"
    by (simp add: assemble_i_type_def table_defs reg_defs to_binary_def)
  show "encode ''nop'' [] = Inr ''00000000000000000000000000010011''"
    by (simp add: encode_def a)
  show "''00000000000000000000000000010011'' \<noteq> []" by simp
  show "to_hex ''00000000000000000000000000010011'' = Inr ''00000013''"
  proof (rule to_hex_eval)
    show "stoul2 ''00000000000000000000000000010011'' = Inr 19" by (simp add: hex_defs)
    show "pad_left 8 CHR ''0'' (nat_to_hex 19) = ''00000013''" by (simp add: pad_defs)
  qed
qed

lemma beq_line:
  "parse_instruction ''beq x1, x2, -4'' =
     Inr \<lparr>op = ''beq'', binary = ''11111110001000001000111011100011'', hex = ''fe208ee3'',
          is_execution = False\<rparr>"
proof (rule parse_instruction_eval)
  show "split_op ''beq x1, x2, -4'' = (''beq'', '' x1, x2, -4'')"
    by (simp add: split_op_def is_space_def)
  show "split_args (trim_string '' x1, x2, -4'') False [] = [''x1'', ''x2'', ''-4'']"
    by (simp add: trim_string_def is_space_def)
  have s: "stoi ''-4'' = Inr (- 4)" by (simp add: stoi_defs)
  have a: "assemble_b_type ''beq'' ''x1'' ''x2'' (- 4) = ''11111110001000001000111011100011''"
    by (simp add: assemble_b_type_def table_defs reg_defs to_binary_def substr_def)
  show "encode ''beq'' [''x1'', ''x2'', ''-4''] = Inr ''11111110001000001000111011100011''"
    by (simp add: encode_def s bind_err_def a)
  show "''11111110001000001000111011100011'' \<noteq> []" by simp
  show "to_hex ''11111110001000001000111011100011'' = Inr ''fe208ee3''"
  proof (rule to_hex_eval)
    show "stoul2 ''11111110001000001000111011100011'' = Inr 4263546595" by (simp add: hex_defs)
    show "pad_left 8 CHR ''0'' (nat_to_hex 4263546595) = ''fe208ee3''" by (simp add: pad_defs)
  qed
qed

lemma hwlrf_lui_line:
  "parse_instruction ''hwlrf.lui L1, 23810'' =
     Inr \<lparr>op = ''hwlrf.lui'', binary = ''00000101110100000010000010111100'', hex = ''05d020bc'',
          is_execution = False\<rparr>"
proof (rule parse_instruction_eval)
  show "split_op ''hwlrf.lui L1, 23810'' = (''hwlrf.lui'', '' L1, 23810'')"
    by (simp add: split_op_def is_space_def)
  show "split_args (trim_string '' L1, 23810'') False [] = [''L1'', ''23810'']"
    by (simp add: trim_string_def is_space_def)
  have s: "stoi ''23810'' = Inr 23810" by (simp add: stoi_defs)
  have a: "assemble_hwlrf_lui ''L1'' 23810 = ''00000101110100000010000010111100''"
    by (simp add: assemble_hwlrf_lui_def table_defs reg_defs to_binary_def)
  show "encode ''hwlrf.lui'' [''L1'', ''23810''] = Inr ''00000101110100000010000010111100''"
    by (simp add: encode_def s bind_err_def a)
  show "''00000101110100000010000010111100'' \<noteq> []" by simp
  show "to_hex ''00000101110100000010000010111100'' = Inr ''05d020bc''"
  proof (rule to_hex_eval)
    show "stoul2 ''00000101110100000010000010111100'' = Inr 97525948" by (simp add: hex_defs)
    show "pad_left 8 CHR ''0'' (nat_to_hex 97525948) = ''05d020bc''" by (simp add: pad_defs)
  qed
qed


lemma foo_line:
  "parse_instruction ''foo x1, x2'' =
     Inr \<lparr>op = ''foo'', binary = [], hex = [], is_execution = False\<rparr>"
proof -
  have s: "split_op ''foo x1, x2'' = (''foo'', '' x1, x2'')"
    by (simp add: split_op_def is_space_def)
  have "fst (split_op ''foo x1, x2'') \<notin> set recognized_mnemonics"
    unfolding s by (simp add: recognized_mnemonics_def)
  from parse_unrecognized [OF this] show ?thesis by (simp only: s fst_conv)
qed

text \<open>
  Claim C7, as stated, fails: the unrecognized line \<open>foo x1, x2\<close> between two encoded
  lines contributes an empty line to the hex output and the memory record \<open>@00000201\<close>
  without a word, and it advances the preload counter, so that the next word is recorded at
  index 2.
\<close>

theorem unrecognized_line_takes_a_slot:
  "assemble 0 [''addi x1, x2, -5'', ''foo x1, x2'', ''nop''] =
     Inr \<lparr>hex_file = [''ffb10093'', [], ''00000013''],
          mem_file = [''@00000200 ffb10093'', ''@00000201 '', ''@00000202 00000013''],
          preload_count = 3, execution_count = 0\<rparr>"
proof -
  have t: "trim_string ''addi x1, x2, -5'' = ''addi x1, x2, -5''"
    "trim_string ''foo x1, x2'' = ''foo x1, x2''" "trim_string ''nop'' = ''nop''"
    by (simp_all add: trim_string_def is_space_def)
  have r: "read_lines False [''addi x1, x2, -5'', ''foo x1, x2'', ''nop''] =
     Inr [\<lparr>op = ''addi'', binary = ''11111111101100010000000010010011'', hex = ''ffb10093'',
           is_execution = False\<rparr>,
          \<lparr>op = ''foo'', binary = [], hex = [], is_execution = False\<rparr>,
          \<lparr>op = ''nop'', binary = ''00000000000000000000000000010011'', hex = ''00000013'',
           is_execution = False\<rparr>]"
    by (simp add: t addi_line foo_line nop_line bind_err_def)
  have m: "mem_entry (mem_address 0 False 0) ''ffb10093'' = ''@00000200 ffb10093''"
    "mem_entry (mem_address 0 False 1) [] = ''@00000201 ''"
    "mem_entry (mem_address 0 False 2) ''00000013'' = ''@00000202 00000013''"
    by (simp_all add: mem_entry_def mem_address_def pad_defs)
  show ?thesis
    unfolding assemble_def r
    by (simp add: bind_err_def write_entries_def write_entry_def m)
qed

text \<open>
  The line \<open>foo x1, x2\<close>, indented, in the execution section of the file of PE 0, after
  one preload word and one execution word and before another execution word: its record
  \<open>@00000001\<close> has no word, and the last word moves from index 1 to index 2.
\<close>

lemma marker_line:
  "trim_string ''    # ========== Execution Section Begin =========='' =
     ''# ========== Execution Section Begin ==========''
   \<and> skipped_line ''# ========== Execution Section Begin ==========''
   \<and> contains_str ''Execution Section Begin'' ''# ========== Execution Section Begin ==========''"
  by (simp add: trim_string_def is_space_def skipped_line_def)

theorem unrecognized_line_recorded_witness:
  "\<not> skipped_line (trim_string ''  foo x1, x2'')
   \<and> fst (split_op (trim_string ''  foo x1, x2'')) = ''foo''
   \<and> ''foo'' \<notin> set recognized_mnemonics
   \<and> section_after False [''addi x1, x2, -5'',
        ''    # ========== Execution Section Begin =========='', ''nop'']
   \<and> assemble 0 ([''addi x1, x2, -5'',
        ''    # ========== Execution Section Begin =========='', ''nop'']
        @ ''  foo x1, x2'' # [''nop'']) =
     Inr \<lparr>hex_file = [''ffb10093'', ''00000013'', [], ''00000013''],
          mem_file = [''@00000200 ffb10093'', ''@00000000 00000013'', ''@00000001 '',
                      ''@00000002 00000013''],
          preload_count = 1, execution_count = 3\<rparr>
   \<and> assemble 0 ([''addi x1, x2, -5'',
        ''    # ========== Execution Section Begin =========='', ''nop''] @ [''nop'']) =
     Inr \<lparr>hex_file = [''ffb10093'', ''00000013'', ''00000013''],
          mem_file = [''@00000200 ffb10093'', ''@00000000 00000013'', ''@00000001 00000013''],
          preload_count = 1, execution_count = 2\<rparr>"
proof -
  let ?pre = "[''addi x1, x2, -5'',
        ''    # ========== Execution Section Begin =========='', ''nop'']"
  let ?nop = "\<lparr>op = ''nop'', binary = ''00000000000000000000000000010011'',
                hex = ''00000013'', is_execution = True\<rparr>"
  let ?addi = "\<lparr>op = ''addi'', binary = ''11111111101100010000000010010011'',
                hex = ''ffb10093'', is_execution = False\<rparr>"
  let ?foo = "\<lparr>op = ''foo'', binary = [], hex = [], is_execution = True\<rparr>"
  have t: "trim_string ''addi x1, x2, -5'' = ''addi x1, x2, -5''"
    "trim_string ''  foo x1, x2'' = ''foo x1, x2''" "trim_string ''nop'' = ''nop''"
    by (simp_all add: trim_string_def is_space_def)
  have k: "\<not> skipped_line ''addi x1, x2, -5''" "\<not> skipped_line ''foo x1, x2''"
    "\<not> skipped_line ''nop''"
    by (simp_all add: skipped_line_def)
  have s: "split_op ''foo x1, x2'' = (''foo'', '' x1, x2'')"
    by (simp add: split_op_def is_space_def)
  have u: "''foo'' \<notin> set recognized_mnemonics"
    by (simp add: recognized_mnemonics_def)
  have h1: "\<not> skipped_line (trim_string ''  foo x1, x2'')" using k t by simp
  have h2: "fst (split_op (trim_string ''  foo x1, x2'')) \<notin> set recognized_mnemonics"
    using u by (simp add: t s)
  have sa: "section_after False ?pre"
    using marker_line by (simp add: t k)
  have post: "read_lines True [''nop''] = Inr [?nop]"
    by (simp add: read_lines_kept t k nop_line bind_err_def del: read_lines.simps(2))
  have pre: "read_lines False ?pre = Inr [?addi, ?nop]"
    using marker_line
    by (simp add: read_lines_kept read_lines_skipped t k addi_line nop_line bind_err_def
        del: read_lines.simps(2))
  have h4: "read_lines (section_after False ?pre) [''nop''] = Inr [?nop]"
    by (simp only: sa [THEN eqTrueI] post)
  have m: "mem_entry (mem_address 0 False 0) ''ffb10093'' = ''@00000200 ffb10093''"
    "mem_entry (mem_address 0 True 0) ''00000013'' = ''@00000000 00000013''"
    "mem_entry (mem_address 0 True 1) [] = ''@00000001 ''"
    "mem_entry (mem_address 0 True 1) ''00000013'' = ''@00000001 00000013''"
    "mem_entry (mem_address 0 True 2) ''00000013'' = ''@00000002 00000013''"
    by (simp_all add: mem_entry_def mem_address_def pad_defs)
  have w: "read_lines False (?pre @ ''  foo x1, x2'' # [''nop'']) = Inr [?addi, ?nop, ?foo, ?nop]"
    using marker_line
    by (simp add: read_lines_kept read_lines_skipped t k addi_line nop_line foo_line
        bind_err_def del: read_lines.simps(2))
  have wo: "read_lines False (?pre @ [''nop'']) = Inr [?addi, ?nop, ?nop]"
    using marker_line
    by (simp add: read_lines_kept read_lines_skipped t k addi_line nop_line bind_err_def
        del: read_lines.simps(2))
  have a1: "assemble 0 (?pre @ ''  foo x1, x2'' # [''nop'']) =
     Inr \<lparr>hex_file = [''ffb10093'', ''00000013'', [], ''00000013''],
          mem_file = [''@00000200 ffb10093'', ''@00000000 00000013'', ''@00000001 '',
                      ''@00000002 00000013''],
          preload_count = 1, execution_count = 3\<rparr>"
    unfolding assemble_def w by (simp add: bind_err_def write_entries_def write_entry_def m)
  have a2: "assemble 0 (?pre @ [''nop'']) =
     Inr \<lparr>hex_file = [''ffb10093'', ''00000013'', ''00000013''],
          mem_file = [''@00000200 ffb10093'', ''@00000000 00000013'', ''@00000001 00000013''],
          preload_count = 1, execution_count = 2\<rparr>"
    unfolding assemble_def wo by (simp add: bind_err_def write_entries_def write_entry_def m)
  show ?thesis
    using unrecognized_line_recorded [OF h1 h2 pre h4, of 0] h1 u sa a1 a2
    by (simp add: t s del: section_after.simps)
qed

text \<open>Lines of every format class: the mnemonic is recognized, the operands well formed.\<close>

lemmas operand_defs = well_formed_operands_def returns_def stoi_defs parse_offset_base_def
  substr_def trim_string_def bind_err_def Let_def

lemma well_formed_line:
  assumes "split_op line = (opn, rest)" and "split_args (trim_string rest) False [] = args"
    and "opn \<in> set recognized_mnemonics" and "well_formed_operands opn args"
  shows "fst (split_op line) \<in> set recognized_mnemonics
         \<and> well_formed_operands (fst (split_op line))
             (split_args (trim_string (snd (split_op line))) False [])"
  using assms by simp

lemma add_operands:
  "fst (split_op ''add x1, x2, x3'') \<in> set recognized_mnemonics
   \<and> well_formed_operands (fst (split_op ''add x1, x2, x3''))
       (split_args (trim_string (snd (split_op ''add x1, x2, x3''))) False [])"
proof (rule well_formed_line)
  show "split_op ''add x1, x2, x3'' = (''add'', '' x1, x2, x3'')"
    by (simp add: split_op_def is_space_def)
  show "split_args (trim_string '' x1, x2, x3'') False [] = [''x1'', ''x2'', ''x3'']"
    by (simp add: trim_string_def is_space_def)
  show "''add'' \<in> set recognized_mnemonics"
    by (simp add: recognized_mnemonics_def)
  show "well_formed_operands ''add'' [''x1'', ''x2'', ''x3'']"
    by (simp add: operand_defs)
qed

lemma slli_operands:
  "fst (split_op ''slli x1, x2, 3'') \<in> set recognized_mnemonics
   \<and> well_formed_operands (fst (split_op ''slli x1, x2, 3''))
       (split_args (trim_string (snd (split_op ''slli x1, x2, 3''))) False [])"
proof (rule well_formed_line)
  show "split_op ''slli x1, x2, 3'' = (''slli'', '' x1, x2, 3'')"
    by (simp add: split_op_def is_space_def)
  show "split_args (trim_string '' x1, x2, 3'') False [] = [''x1'', ''x2'', ''3'']"
    by (simp add: trim_string_def is_space_def)
  show "''slli'' \<in> set recognized_mnemonics"
    by (simp add: recognized_mnemonics_def)
  show "well_formed_operands ''slli'' [''x1'', ''x2'', ''3'']"
    by (simp add: operand_defs)
qed

lemma sw_operands:
  "fst (split_op ''sw x1, 4(x2)'') \<in> set recognized_mnemonics
   \<and> well_formed_operands (fst (split_op ''sw x1, 4(x2)''))
       (split_args (trim_string (snd (split_op ''sw x1, 4(x2)''))) False [])"
proof (rule well_formed_line)
  show "split_op ''sw x1, 4(x2)'' = (''sw'', '' x1, 4(x2)'')"
    by (simp add: split_op_def is_space_def)
  show "split_args (trim_string '' x1, 4(x2)'') False [] = [''x1'', ''4(x2)'']"
    by (simp add: trim_string_def is_space_def)
  show "''sw'' \<in> set recognized_mnemonics"
    by (simp add: recognized_mnemonics_def)
  show "well_formed_operands ''sw'' [''x1'', ''4(x2)'']"
    by (simp add: operand_defs)
qed

lemma lui_operands:
  "fst (split_op ''lui x5, 74565'') \<in> set recognized_mnemonics
   \<and> well_formed_operands (fst (split_op ''lui x5, 74565''))
       (split_args (trim_string (snd (split_op ''lui x5, 74565''))) False [])"
proof (rule well_formed_line)
  show "split_op ''lui x5, 74565'' = (''lui'', '' x5, 74565'')"
    by (simp add: split_op_def is_space_def)
  show "split_args (trim_string '' x5, 74565'') False [] = [''x5'', ''74565'']"
    by (simp add: trim_string_def is_space_def)
  show "''lui'' \<in> set recognized_mnemonics"
    by (simp add: recognized_mnemonics_def)
  show "well_formed_operands ''lui'' [''x5'', ''74565'']"
    by (simp add: operand_defs)
qed

lemma jal_operands:
  "fst (split_op ''jal x1, 2048'') \<in> set recognized_mnemonics
   \<and> well_formed_operands (fst (split_op ''jal x1, 2048''))
       (split_args (trim_string (snd (split_op ''jal x1, 2048''))) False [])"
proof (rule well_formed_line)
  show "split_op ''jal x1, 2048'' = (''jal'', '' x1, 2048'')"
    by (simp add: split_op_def is_space_def)
  show "split_args (trim_string '' x1, 2048'') False [] = [''x1'', ''2048'']"
    by (simp add: trim_string_def is_space_def)
  show "''jal'' \<in> set recognized_mnemonics"
    by (simp add: recognized_mnemonics_def)
  show "well_formed_operands ''jal'' [''x1'', ''2048'']"
    by (simp add: operand_defs)
qed

lemma psrf_lw_operands:
  "fst (split_op ''psrf.lw x1, 1(x5)'') \<in> set recognized_mnemonics
   \<and> well_formed_operands (fst (split_op ''psrf.lw x1, 1(x5)''))
       (split_args (trim_string (snd (split_op ''psrf.lw x1, 1(x5)''))) False [])"
proof (rule well_formed_line)
  show "split_op ''psrf.lw x1, 1(x5)'' = (''psrf.lw'', '' x1, 1(x5)'')"
    by (simp add: split_op_def is_space_def)
  show "split_args (trim_string '' x1, 1(x5)'') False [] = [''x1'', ''1(x5)'']"
    by (simp add: trim_string_def is_space_def)
  show "''psrf.lw'' \<in> set recognized_mnemonics"
    by (simp add: recognized_mnemonics_def)
  show "well_formed_operands ''psrf.lw'' [''x1'', ''1(x5)'']"
    by (simp add: operand_defs)
qed

lemma psrf_sw_operands:
  "fst (split_op ''psrf.sw x1, (x5)'') \<in> set recognized_mnemonics
   \<and> well_formed_operands (fst (split_op ''psrf.sw x1, (x5)''))
       (split_args (trim_string (snd (split_op ''psrf.sw x1, (x5)''))) False [])"
proof (rule well_formed_line)
  show "split_op ''psrf.sw x1, (x5)'' = (''psrf.sw'', '' x1, (x5)'')"
    by (simp add: split_op_def is_space_def)
  show "split_args (trim_string '' x1, (x5)'') False [] = [''x1'', ''(x5)'']"
    by (simp add: trim_string_def is_space_def)
  show "''psrf.sw'' \<in> set recognized_mnemonics"
    by (simp add: recognized_mnemonics_def)
  show "well_formed_operands ''psrf.sw'' [''x1'', ''(x5)'']"
    by (simp add: operand_defs)
qed

lemma corf_addi_operands:
  "fst (split_op ''corf.addi c6, c6, 7'') \<in> set recognized_mnemonics
   \<and> well_formed_operands (fst (split_op ''corf.addi c6, c6, 7''))
       (split_args (trim_string (snd (split_op ''corf.addi c6, c6, 7''))) False [])"
proof (rule well_formed_line)
  show "split_op ''corf.addi c6, c6, 7'' = (''corf.addi'', '' c6, c6, 7'')"
    by (simp add: split_op_def is_space_def)
  show "split_args (trim_string '' c6, c6, 7'') False [] = [''c6'', ''c6'', ''7'']"
    by (simp add: trim_string_def is_space_def)
  show "''corf.addi'' \<in> set recognized_mnemonics"
    by (simp add: recognized_mnemonics_def)
  show "well_formed_operands ''corf.addi'' [''c6'', ''c6'', ''7'']"
    by (simp add: operand_defs)
qed

lemma corf_lui_operands:
  "fst (split_op ''corf.lui c7, 1'') \<in> set recognized_mnemonics
   \<and> well_formed_operands (fst (split_op ''corf.lui c7, 1''))
       (split_args (trim_string (snd (split_op ''corf.lui c7, 1''))) False [])"
proof (rule well_formed_line)
  show "split_op ''corf.lui c7, 1'' = (''corf.lui'', '' c7, 1'')"
    by (simp add: split_op_def is_space_def)
  show "split_args (trim_string '' c7, 1'') False [] = [''c7'', ''1'']"
    by (simp add: trim_string_def is_space_def)
  show "''corf.lui'' \<in> set recognized_mnemonics"
    by (simp add: recognized_mnemonics_def)
  show "well_formed_operands ''corf.lui'' [''c7'', ''1'']"
    by (simp add: operand_defs)
qed

lemma ppsrf_addi_operands:
  "fst (split_op ''ppsrf.addi v6, v6, 4'') \<in> set recognized_mnemonics
   \<and> well_formed_operands (fst (split_op ''ppsrf.addi v6, v6, 4''))
       (split_args (trim_string (snd (split_op ''ppsrf.addi v6, v6, 4''))) False [])"
proof (rule well_formed_line)
  show "split_op ''ppsrf.addi v6, v6, 4'' = (''ppsrf.addi'', '' v6, v6, 4'')"
    by (simp add: split_op_def is_space_def)
  show "split_args (trim_string '' v6, v6, 4'') False [] = [''v6'', ''v6'', ''4'']"
    by (simp add: trim_string_def is_space_def)
  show "''ppsrf.addi'' \<in> set recognized_mnemonics"
    by (simp add: recognized_mnemonics_def)
  show "well_formed_operands ''ppsrf.addi'' [''v6'', ''v6'', ''4'']"
    by (simp add: operand_defs)
qed

lemma hwlrf_addi_operands:
  "fst (split_op ''hwlrf.addi L1, L1, 8'') \<in> set recognized_mnemonics
   \<and> well_formed_operands (fst (split_op ''hwlrf.addi L1, L1, 8''))
       (split_args (trim_string (snd (split_op ''hwlrf.addi L1, L1, 8''))) False [])"
proof (rule well_formed_line)
  show "split_op ''hwlrf.addi L1, L1, 8'' = (''hwlrf.addi'', '' L1, L1, 8'')"
    by (simp add: split_op_def is_space_def)
  show "split_args (trim_string '' L1, L1, 8'') False [] = [''L1'', ''L1'', ''8'']"
    by (simp add: trim_string_def is_space_def)
  show "''hwlrf.addi'' \<in> set recognized_mnemonics"
    by (simp add: recognized_mnemonics_def)
  show "well_formed_operands ''hwlrf.addi'' [''L1'', ''L1'', ''8'']"
    by (simp add: operand_defs)
qed

lemma ret_operands:
  "fst (split_op ''ret'') \<in> set recognized_mnemonics
   \<and> well_formed_operands (fst (split_op ''ret''))
       (split_args (trim_string (snd (split_op ''ret''))) False [])"
proof (rule well_formed_line)
  show "split_op ''ret'' = (''ret'', [])"
    by (simp add: split_op_def is_space_def)
  show "split_args (trim_string []) False [] = []"
    by (simp add: trim_string_def is_space_def)
  show "''ret'' \<in> set recognized_mnemonics"
    by (simp add: recognized_mnemonics_def)
  show "well_formed_operands ''ret'' []"
    by (simp add: operand_defs)
qed

text \<open>
  These lines are encoded into 32 binary and 8 hexadecimal digits; three more lines with
  their words.
\<close>

theorem parse_instruction_word_width_witness:
  "(\<exists>r. parse_instruction ''add x1, x2, x3'' = Inr r \<and> length (binary r) = 32 \<and> length (hex r) = 8)
   \<and> (\<exists>r. parse_instruction ''slli x1, x2, 3'' = Inr r \<and> length (binary r) = 32 \<and> length (hex r) = 8)
   \<and> (\<exists>r. parse_instruction ''sw x1, 4(x2)'' = Inr r \<and> length (binary r) = 32 \<and> length (hex r) = 8)
   \<and> (\<exists>r. parse_instruction ''lui x5, 74565'' = Inr r \<and> length (binary r) = 32 \<and> length (hex r) = 8)
   \<and> (\<exists>r. parse_instruction ''jal x1, 2048'' = Inr r \<and> length (binary r) = 32 \<and> length (hex r) = 8)
   \<and> (\<exists>r. parse_instruction ''psrf.lw x1, 1(x5)'' = Inr r \<and> length (binary r) = 32 \<and> length (hex r) = 8)
   \<and> (\<exists>r. parse_instruction ''psrf.sw x1, (x5)'' = Inr r \<and> length (binary r) = 32 \<and> length (hex r) = 8)
   \<and> (\<exists>r. parse_instruction ''corf.addi c6, c6, 7'' = Inr r \<and> length (binary r) = 32 \<and> length (hex r) = 8)
   \<and> (\<exists>r. parse_instruction ''corf.lui c7, 1'' = Inr r \<and> length (binary r) = 32 \<and> length (hex r) = 8)
   \<and> (\<exists>r. parse_instruction ''ppsrf.addi v6, v6, 4'' = Inr r \<and> length (binary r) = 32 \<and> length (hex r) = 8)
   \<and> (\<exists>r. parse_instruction ''hwlrf.addi L1, L1, 8'' = Inr r \<and> length (binary r) = 32 \<and> length (hex r) = 8)
   \<and> (\<exists>r. parse_instruction ''ret'' = Inr r \<and> length (binary r) = 32 \<and> length (hex r) = 8)
   \<and> parse_instruction ''addi x1, x2, -5'' =
     Inr \<lparr>op = ''addi'', binary = ''11111111101100010000000010010011'', hex = ''ffb10093'',
          is_execution = False\<rparr>
   \<and> length ''11111111101100010000000010010011'' = 32 \<and> length ''ffb10093'' = 8
   \<and> parse_instruction ''beq x1, x2, -4'' =
     Inr \<lparr>op = ''beq'', binary = ''11111110001000001000111011100011'', hex = ''fe208ee3'',
          is_execution = False\<rparr>
   \<and> length ''11111110001000001000111011100011'' = 32 \<and> length ''fe208ee3'' = 8
   \<and> parse_instruction ''hwlrf.lui L1, 23810'' =
     Inr \<lparr>op = ''hwlrf.lui'', binary = ''00000101110100000010000010111100'', hex = ''05d020bc'',
          is_execution = False\<rparr>
   \<and> length ''00000101110100000010000010111100'' = 32 \<and> length ''05d020bc'' = 8"
proof -
  have add: "\<exists>r. parse_instruction ''add x1, x2, x3'' = Inr r \<and> length (binary r) = 32 \<and> length (hex r) = 8"
    using parse_instruction_word_width [of "''add x1, x2, x3''"] add_operands by blast
  have slli: "\<exists>r. parse_instruction ''slli x1, x2, 3'' = Inr r \<and> length (binary r) = 32 \<and> length (hex r) = 8"
    using parse_instruction_word_width [of "''slli x1, x2, 3''"] slli_operands by blast
  have sw: "\<exists>r. parse_instruction ''sw x1, 4(x2)'' = Inr r \<and> length (binary r) = 32 \<and> length (hex r) = 8"
    using parse_instruction_word_width [of "''sw x1, 4(x2)''"] sw_operands by blast
  have lui: "\<exists>r. parse_instruction ''lui x5, 74565'' = Inr r \<and> length (binary r) = 32 \<and> length (hex r) = 8"
    using parse_instruction_word_width [of "''lui x5, 74565''"] lui_operands by blast
  have jal: "\<exists>r. parse_instruction ''jal x1, 2048'' = Inr r \<and> length (binary r) = 32 \<and> length (hex r) = 8"
    using parse_instruction_word_width [of "''jal x1, 2048''"] jal_operands by blast
  have psrf_lw: "\<exists>r. parse_instruction ''psrf.lw x1, 1(x5)'' = Inr r \<and> length (binary r) = 32 \<and> length (hex r) = 8"
    using parse_instruction_word_width [of "''psrf.lw x1, 1(x5)''"] psrf_lw_operands by blast
  have psrf_sw: "\<exists>r. parse_instruction ''psrf.sw x1, (x5)'' = Inr r \<and> length (binary r) = 32 \<and> length (hex r) = 8"
    using parse_instruction_word_width [of "''psrf.sw x1, (x5)''"] psrf_sw_operands by blast
  have corf_addi: "\<exists>r. parse_instruction ''corf.addi c6, c6, 7'' = Inr r \<and> length (binary r) = 32 \<and> length (hex r) = 8"
    using parse_instruction_word_width [of "''corf.addi c6, c6, 7''"] corf_addi_operands by blast
  have corf_lui: "\<exists>r. parse_instruction ''corf.lui c7, 1'' = Inr r \<and> length (binary r) = 32 \<and> length (hex r) = 8"
    using parse_instruction_word_width [of "''corf.lui c7, 1''"] corf_lui_operands by blast
  have ppsrf_addi: "\<exists>r. parse_instruction ''ppsrf.addi v6, v6, 4'' = Inr r \<and> length (binary r) = 32 \<and> length (hex r) = 8"
    using parse_instruction_word_width [of "''ppsrf.addi v6, v6, 4''"] ppsrf_addi_operands by blast
  have hwlrf_addi: "\<exists>r. parse_instruction ''hwlrf.addi L1, L1, 8'' = Inr r \<and> length (binary r) = 32 \<and> length (hex r) = 8"
    using parse_instruction_word_width [of "''hwlrf.addi L1, L1, 8''"] hwlrf_addi_operands by blast
  have ret: "\<exists>r. parse_instruction ''ret'' = Inr r \<and> length (binary r) = 32 \<and> length (hex r) = 8"
    using parse_instruction_word_width [of "''ret''"] ret_operands by blast
  have addi: "length ''11111111101100010000000010010011'' = 32 \<and> length ''ffb10093'' = 8"
    using parse_instruction_word_width [of "''addi x1, x2, -5''" "\<lparr>op = ''addi'',
      binary = ''11111111101100010000000010010011'', hex = ''ffb10093'', is_execution = False\<rparr>"]
      addi_line by simp
  have beq: "length ''11111110001000001000111011100011'' = 32 \<and> length ''fe208ee3'' = 8"
    using parse_instruction_word_width [of "''beq x1, x2, -4''" "\<lparr>op = ''beq'',
      binary = ''11111110001000001000111011100011'', hex = ''fe208ee3'', is_execution = False\<rparr>"]
      beq_line by simp
  have hl: "length ''00000101110100000010000010111100'' = 32 \<and> length ''05d020bc'' = 8"
    using parse_instruction_word_width [of "''hwlrf.lui L1, 23810''" "\<lparr>op = ''hwlrf.lui'',
      binary = ''00000101110100000010000010111100'', hex = ''05d020bc'', is_execution = False\<rparr>"]
      hwlrf_lui_line by simp
  show ?thesis
    using add slli sw lui jal psrf_lw psrf_sw corf_addi corf_lui ppsrf_addi hwlrf_addi ret addi beq hl addi_line beq_line hwlrf_lui_line
    by blast
qed

section \<open>Verification: the combined memory file\<close>

lemma wrap32_small: "0 \<le> k \<Longrightarrow> k \<le> 0xFFFF \<Longrightarrow> wrap32 (k + 1) = k + 1"
  by (simp add: wrap32_def)

lemma count_fold_bounds:
  assumes "\<forall>k \<in> fst ` set m. 0 \<le> k \<and> k \<le> 0xFFFF" and "0 \<le> a" and "a \<le> 0xFFFF"
  shows "a \<le> foldl (\<lambda>total entry.
              if fst entry \<noteq> 0xFFFF then max total (wrap32 (fst entry + 1)) else total) a m
       \<and> foldl (\<lambda>total entry.
              if fst entry \<noteq> 0xFFFF then max total (wrap32 (fst entry + 1)) else total) a m
            \<le> 0xFFFF
       \<and> (\<forall>k \<in> fst ` set m. k \<noteq> 0xFFFF \<longrightarrow>
            k < foldl (\<lambda>total entry.
              if fst entry \<noteq> 0xFFFF then max total (wrap32 (fst entry + 1)) else total) a m)"
  using assms
proof (induction m arbitrary: a)
  case Nil
  then show ?case by simp
next
  case (Cons e m)
  let ?f = "\<lambda>total entry. if fst entry \<noteq> (0xFFFF::int) then max total (wrap32 (fst entry + 1)) else total"
  have e: "0 \<le> fst e" "fst e \<le> 0xFFFF" using Cons.prems(1) by auto
  have w: "wrap32 (fst e + 1) = fst e + 1" using e by (rule wrap32_small)
  have a': "0 \<le> ?f a e" "?f a e \<le> 0xFFFF" "a \<le> ?f a e"
    "fst e \<noteq> 0xFFFF \<longrightarrow> fst e < ?f a e"
    using e Cons.prems(2,3) by (auto simp add: w)
  have m: "\<forall>k \<in> fst ` set m. 0 \<le> k \<and> k \<le> 0xFFFF" using Cons.prems(1) by auto
  from Cons.IH [OF m a'(1) a'(2)]
  have ih: "?f a e \<le> foldl ?f (?f a e) m" "foldl ?f (?f a e) m \<le> 0xFFFF"
    "\<forall>k \<in> fst ` set m. k \<noteq> 0xFFFF \<longrightarrow> k < foldl ?f (?f a e) m" by auto
  show ?case
    using ih a'(3,4) by (auto simp del: wrap32_def)
qed

lemma count_pes_bounds:
  assumes "\<forall>k \<in> fst ` set m. 0 \<le> k \<and> k \<le> 0xFFFF"
  shows "0 \<le> count_pes m" "count_pes m \<le> 0xFFFF"
    "\<forall>k \<in> fst ` set m. k \<noteq> 0xFFFF \<longrightarrow> k < count_pes m"
  using count_fold_bounds [OF assms, of 0] by (simp_all add: count_pes_def)

lemma concat_map_option_markers:
  "map fst (concat (map (\<lambda>pe. case f pe of None \<Rightarrow> [] | Some es \<Rightarrow> [(PE_block pe, es)]) xs))
     = map PE_block (filter (\<lambda>pe. f pe \<noteq> None) xs)"
  by (induction xs) (auto split: option.splits)

lemma combined_blocks_markers:
  "map fst (combined_blocks m) =
     map PE_block (filter (\<lambda>pe. pe \<in> fst ` set m) (map int [0..<nat (count_pes m)]))
     @ (if 0xFFFF \<in> fst ` set m then [Unknown_block] else [])"
proof -
  have d: "(map_of m pe \<noteq> None) = (pe \<in> fst ` set m)" for pe
    by (simp add: map_of_eq_None_iff)
  have u: "map fst (case map_of m 0xFFFF of None \<Rightarrow> [] | Some es \<Rightarrow> [(Unknown_block, es)])
        = (if 0xFFFF \<in> fst ` set m then [Unknown_block] else [])"
    using d [of "0xFFFF"] by (cases "map_of m 0xFFFF") auto
  have p: "filter (\<lambda>pe. map_of m pe \<noteq> None) xs = filter (\<lambda>pe. pe \<in> fst ` set m) xs" for xs
    by (simp only: d)
  show ?thesis
    unfolding combined_blocks_def map_append concat_map_option_markers p u ..
qed

lemma known_pes_list:
  assumes "\<forall>k \<in> fst ` set m. 0 \<le> k \<and> k \<le> 0xFFFF"
  shows "filter (\<lambda>pe. pe \<in> fst ` set m) (map int [0..<nat (count_pes m)])
           = sorted_list_of_set (fst ` set m - {0xFFFF})"
proof -
  let ?xs = "filter (\<lambda>pe. pe \<in> fst ` set m) (map int [0..<nat (count_pes m)])"
  note b = count_pes_bounds [OF assms]
  have s: "sorted (map int [0..<nat (count_pes m)])" "distinct (map int [0..<nat (count_pes m)])"
    by (simp_all add: sorted_map distinct_map inj_on_def)
  have "sorted ?xs" "distinct ?xs" using s by (simp_all add: sorted_wrt_filter)
  moreover have "set ?xs = fst ` set m - {0xFFFF}"
  proof
    show "set ?xs \<subseteq> fst ` set m - {0xFFFF}" using b(2) by auto
  next
    show "fst ` set m - {0xFFFF} \<subseteq> set ?xs"
    proof
      fix k assume k: "k \<in> fst ` set m - {0xFFFF}"
      then have "0 \<le> k" "k < count_pes m" using assms b(3) by auto
      then have "nat k < nat (count_pes m)" "int (nat k) = k" by auto
      then have "k \<in> int ` {0..<nat (count_pes m)}" by (metis atLeastLessThan_iff image_eqI zero_le)
      then show "k \<in> set ?xs" using k by auto
    qed
  qed
  ultimately show ?thesis
    by (metis sorted_list_of_set.idem_if_sorted_distinct)
qed


lemma regex_pe_digits:
  "regex_pe s = Some ds \<Longrightarrow> ds \<noteq> [] \<and> (\<forall>c \<in> set ds. is_digit c)"
proof (induction s)
  case Nil
  then show ?case by simp
next
  case (Cons c cs)
  then show ?case
    by (auto simp add: Let_def split: if_splits dest: set_takeWhileD)
qed

lemma stoi_digits_nonneg:
  assumes "ds \<noteq> []" and "\<forall>c \<in> set ds. is_digit c" and "stoi ds = Inr k"
  shows "0 \<le> k"
proof -
  obtain c cs where ds: "ds = c # cs" using assms(1) by (cases ds) auto
  have c: "is_digit c" using assms(2) ds by simp
  then have "\<not> is_space c" "c \<noteq> CHR ''-''" "c \<noteq> CHR ''+''"
    by (auto simp add: is_digit_def is_space_def)
  then show ?thesis
    using assms(3) unfolding ds by (auto simp add: stoi_def Let_def split: if_splits)
qed

lemma pe_number_of_nonneg: "pe_number_of n = Inr k \<Longrightarrow> 0 \<le> k"
  by (auto simp add: pe_number_of_def split: option.splits
      dest!: regex_pe_digits intro: stoi_digits_nonneg)

lemma process_files_keys:
  "process_files fs names m0 = Inr m \<Longrightarrow>
     Inr ` fst ` set m = Inr ` fst ` set m0 \<union> processed_pe_numbers names"
proof (induction fs names m0 rule: process_files.induct)
  case (1 fs m0)
  then show ?case by (simp add: processed_pe_numbers_def)
next
  case (2 fs assembly_file rest m0)
  show ?case
  proof (cases "assembly_file = [] \<or> hd assembly_file = CHR ''#''")
    case True
    then have "process_files fs rest m0 = Inr m" using "2.prems" by simp
    from "2.IH"(1) [OF True this] True show ?thesis
      by (auto simp add: processed_pe_numbers_def)
  next
    case False
    then obtain k where k: "pe_number_of assembly_file = Inr k"
      using "2.prems" by (cases "pe_number_of assembly_file") (auto simp add: bind_err_def)
    have "{n \<in> set (assembly_file # rest). \<not> (n = [] \<or> hd n = CHR ''#'')}
        = insert assembly_file {n \<in> set rest. \<not> (n = [] \<or> hd n = CHR ''#'')}"
      using False by auto
    then have p: "processed_pe_numbers (assembly_file # rest)
        = insert (Inr k) (processed_pe_numbers rest)"
      using k by (simp add: processed_pe_numbers_def)
    show ?thesis
    proof (cases "fs assembly_file")
      case None
      then have r: "process_files fs rest (AList.update k [] m0) = Inr m"
        using "2.prems" False k by (simp add: bind_err_def)
      from "2.IH"(2) [OF False None r] show ?thesis
        by (simp add: p dom_update image_Un)
    next
      case (Some file_lines)
      then obtain out where o: "assemble (word_of_int k) file_lines = Inr out"
        and r: "process_files fs rest (AList.update k (mem_file out) m0) = Inr m"
        using "2.prems" False k
        by (cases "assemble (word_of_int k) file_lines") (auto simp add: bind_err_def)
      from "2.IH"(3) [OF False Some r] show ?thesis
        by (simp add: p dom_update image_Un)
    qed
  qed
qed

lemma process_files_keys_nonneg:
  assumes "process_files fs names [] = Inr m" and "k \<in> fst ` set m"
  shows "0 \<le> k"
proof -
  have "Inr k \<in> processed_pe_numbers names"
    using process_files_keys [OF assms(1)] assms(2) by auto
  then show ?thesis
    by (auto simp add: processed_pe_numbers_def dest: pe_number_of_nonneg [OF sym])
qed

lemma processed_pe_numbers_set:
  "set names' = set names \<Longrightarrow> processed_pe_numbers names' = processed_pe_numbers names"
  by (simp add: processed_pe_numbers_def)

text \<open>
  Claim C9, amended. When no PE number exceeds \<open>0xFFFF\<close>, the blocks of the combined
  file are one block per known PE number in strictly ascending order, each under its own
  marker, followed by the block of the entries stored under \<open>0xFFFF\<close> if there is one;
  the sequence of markers is the same for every order of the same file names.
\<close>

theorem combined_blocks_ascending:
  assumes "process_files fs names [] = Inr m" and "process_files fs names' [] = Inr m'"
    and "set names' = set names" and "\<forall>k \<in> fst ` set m. k \<le> 0xFFFF"
  shows "map fst (combined_blocks m) =
           map PE_block (sorted_list_of_set (fst ` set m - {0xFFFF}))
           @ (if 0xFFFF \<in> fst ` set m then [Unknown_block] else [])
         \<and> map fst (combined_blocks m') = map fst (combined_blocks m)"
proof -
  have "Inr ` fst ` set m' = (Inr ` fst ` set m :: (error + int) set)"
    using process_files_keys [OF assms(1)] process_files_keys [OF assms(2)]
      processed_pe_numbers_set [OF assms(3)] by simp
  then have keys: "fst ` set m' = fst ` set m"
    by (simp add: inj_image_eq_iff)
  have b: "\<forall>k \<in> fst ` set m. 0 \<le> k \<and> k \<le> 0xFFFF"
    using assms(4) process_files_keys_nonneg [OF assms(1)] by blast
  then have b': "\<forall>k \<in> fst ` set m'. 0 \<le> k \<and> k \<le> 0xFFFF" by (simp only: keys)
  have "map fst (combined_blocks m) =
           map PE_block (sorted_list_of_set (fst ` set m - {0xFFFF}))
           @ (if 0xFFFF \<in> fst ` set m then [Unknown_block] else [])"
    by (simp only: combined_blocks_markers known_pes_list [OF b])
  moreover have "map fst (combined_blocks m') =
           map PE_block (sorted_list_of_set (fst ` set m' - {0xFFFF}))
           @ (if 0xFFFF \<in> fst ` set m' then [Unknown_block] else [])"
    by (simp only: combined_blocks_markers known_pes_list [OF b'])
  ultimately show ?thesis by (simp only: keys)
qed


lemma pe_block_member:
  assumes "map_of m pe = Some es" and "0 \<le> pe" and "pe < count_pes m"
  shows "(PE_block pe, es) \<in> set (combined_blocks m)"
proof -
  let ?f = "\<lambda>pe. case map_of m pe of None \<Rightarrow> [] | Some entries \<Rightarrow> [(PE_block pe, entries)]"
  have "nat pe < nat (count_pes m)" "int (nat pe) = pe" using assms(2,3) by auto
  then have "pe \<in> set (map int [0..<nat (count_pes m)])"
    by (metis atLeastLessThan_iff image_eqI set_map set_upt zero_le)
  then have "?f pe \<in> set (map ?f (map int [0..<nat (count_pes m)]))"
    unfolding set_map [of ?f] by (rule imageI)
  moreover have "(PE_block pe, es) \<in> set (?f pe)" using assms(1) by simp
  ultimately have "(PE_block pe, es) \<in> set (concat (map ?f (map int [0..<nat (count_pes m)])))"
    unfolding set_concat by blast
  then show ?thesis
    unfolding combined_blocks_def set_append by blast
qed

lemma assemble_nop:
  "assemble pe [''nop''] =
     Inr \<lparr>hex_file = [''00000013''],
          mem_file = [mem_entry (mem_address pe False 0) ''00000013''],
          preload_count = 1, execution_count = 0\<rparr>"
proof -
  have t: "trim_string ''nop'' = ''nop''" by (simp add: trim_string_def is_space_def)
  have r: "read_lines False [''nop''] =
     Inr [\<lparr>op = ''nop'', binary = ''00000000000000000000000000010011'', hex = ''00000013'',
           is_execution = False\<rparr>]"
    by (simp add: t nop_line bind_err_def)
  show ?thesis
    unfolding assemble_def r
    by (simp add: bind_err_def write_entries_def write_entry_def)
qed

lemmas name_defs = pe_number_of_def stoi_defs Let_def

lemma pe_numbers_of_names:
  "pe_number_of ''pe65535_a.s'' = Inr 65535" "pe_number_of ''pe65536_a.s'' = Inr 65536"
  "pe_number_of ''prog.s'' = Inr 65535" "pe_number_of ''pe0_assembly.s'' = Inr 0"
  "pe_number_of ''pe2_assembly.s'' = Inr 2"
  by (simp_all add: name_defs)

lemma mem_entries_of_nop:
  "mem_entry (mem_address 65535 False 0) ''00000013'' = ''@0003fe00 00000013''"
  "mem_entry (mem_address 65536 False 0) ''00000013'' = ''@00000200 00000013''"
  "mem_entry (mem_address 0 False 0) ''00000013'' = ''@00000200 00000013''"
  "mem_entry (mem_address 2 False 0) ''00000013'' = ''@00000a00 00000013''"
  by (simp_all add: mem_entry_def mem_address_def pad_defs)

text \<open>
  Claim C9, as stated, fails at the value \<open>0xFFFF\<close>, which stands for an unknown PE.
  The file \<open>pe65535_a.s\<close> has the PE number 65535, and its entries are written under the
  marker for unknown PEs, with no PE block. With the files \<open>prog.s\<close> (no PE number) and
  \<open>pe65536_a.s\<close> the loop over the PE numbers passes 65535, so the entries of the unknown
  file are also written as a PE block, before the block of PE 65536.
\<close>

theorem unknown_value_as_pe_number:
  "process_files (\<lambda>f. Some [''nop'']) [''pe65535_a.s''] [] =
     Inr [(65535, [''@0003fe00 00000013''])]
   \<and> combined_blocks [(65535, [''@0003fe00 00000013''])] =
     [(Unknown_block, [''@0003fe00 00000013''])]
   \<and> process_files (\<lambda>f. Some [''nop'']) [''prog.s'', ''pe65536_a.s''] [] =
     Inr [(65535, [''@0003fe00 00000013'']), (65536, [''@00000200 00000013''])]
   \<and> (PE_block 65535, [''@0003fe00 00000013''])
       \<in> set (combined_blocks
               [(65535, [''@0003fe00 00000013'']), (65536, [''@00000200 00000013''])])"
proof -
  have c: "count_pes [(65535, [''@0003fe00 00000013''])] = 0"
    "count_pes [(65535, [''@0003fe00 00000013'']), (65536, [''@00000200 00000013''])] = 65537"
    by (simp_all add: count_pes_def wrap32_def)
  have 1: "process_files (\<lambda>f. Some [''nop'']) [''pe65535_a.s''] [] =
     Inr [(65535, [''@0003fe00 00000013''])]"
    by (simp add: pe_numbers_of_names bind_err_def assemble_nop mem_entries_of_nop)
  have 2: "combined_blocks [(65535, [''@0003fe00 00000013''])] =
     [(Unknown_block, [''@0003fe00 00000013''])]"
    by (simp add: combined_blocks_def c)
  have 3: "process_files (\<lambda>f. Some [''nop'']) [''prog.s'', ''pe65536_a.s''] [] =
     Inr [(65535, [''@0003fe00 00000013'']), (65536, [''@00000200 00000013''])]"
    by (simp add: pe_numbers_of_names bind_err_def assemble_nop mem_entries_of_nop)
  have 4: "(PE_block 65535, [''@0003fe00 00000013''])
       \<in> set (combined_blocks
               [(65535, [''@0003fe00 00000013'']), (65536, [''@00000200 00000013''])])"
    by (rule pe_block_member) (simp_all add: c)
  from 1 2 3 4 show ?thesis by (intro conjI)
qed

text \<open>
  The files of PE 2, of no PE and of PE 0, each holding one \<open>nop\<close>, in two orders: the
  markers are PE 0, PE 2, unknown both times.
\<close>

theorem combined_blocks_ascending_witness:
  "process_files (\<lambda>f. Some [''nop'']) [''pe2_assembly.s'', ''prog.s'', ''pe0_assembly.s''] [] =
     Inr [(2, [''@00000a00 00000013'']), (65535, [''@0003fe00 00000013'']),
          (0, [''@00000200 00000013''])]
   \<and> process_files (\<lambda>f. Some [''nop'']) [''pe0_assembly.s'', ''prog.s'', ''pe2_assembly.s''] [] =
     Inr [(0, [''@00000200 00000013'']), (65535, [''@0003fe00 00000013'']),
          (2, [''@00000a00 00000013''])]
   \<and> map fst (combined_blocks [(2, [''@00000a00 00000013'']), (65535, [''@0003fe00 00000013'']),
          (0, [''@00000200 00000013''])]) = [PE_block 0, PE_block 2, Unknown_block]
   \<and> map fst (combined_blocks [(0, [''@00000200 00000013'']), (65535, [''@0003fe00 00000013'']),
          (2, [''@00000a00 00000013''])]) = [PE_block 0, PE_block 2, Unknown_block]"
proof -
  have 1: "process_files (\<lambda>f. Some [''nop'']) [''pe2_assembly.s'', ''prog.s'', ''pe0_assembly.s''] [] =
     Inr [(2, [''@00000a00 00000013'']), (65535, [''@0003fe00 00000013'']),
          (0, [''@00000200 00000013''])]"
    by (simp add: pe_numbers_of_names bind_err_def assemble_nop mem_entries_of_nop)
  have 2: "process_files (\<lambda>f. Some [''nop'']) [''pe0_assembly.s'', ''prog.s'', ''pe2_assembly.s''] [] =
     Inr [(0, [''@00000200 00000013'']), (65535, [''@0003fe00 00000013'']),
          (2, [''@00000a00 00000013''])]"
    by (simp add: pe_numbers_of_names bind_err_def assemble_nop mem_entries_of_nop)
  have 3: "set [''pe0_assembly.s'', ''prog.s'', ''pe2_assembly.s'']
      = set [''pe2_assembly.s'', ''prog.s'', ''pe0_assembly.s'']" by auto
  have 4: "\<forall>k \<in> fst ` set [(2, [''@00000a00 00000013'']), (65535, [''@0003fe00 00000013'']),
          (0::int, [''@00000200 00000013''])]. k \<le> 0xFFFF" by simp
  have 5: "sorted_list_of_set {2, 0 :: int} = [0, 2]"
    using sorted_list_of_set.idem_if_sorted_distinct [of "[0, 2 :: int]"] by (simp add: insert_commute)
  have 6: "{2, 65535, 0 :: int} - {65535} = {2, 0}" by auto
  show ?thesis
    using combined_blocks_ascending [OF 1 2 3 4] 1 2 by (simp add: 5 6)
qed

end
